(* ===== verification/Go_Prelude.thy ===== *)
theory Go_Prelude
  imports Complex_Main "HOL-Library.Word"
begin

text \<open>
  What every theory of the development shares: Go's error values and the outcomes of a
  call (a value, an error, a panic, or no return at all), Go's 64-bit integers on amd64
  (\<open>uint\<close> as \<open>64 word\<close>, \<open>int\<close>, \<open>int64\<close> and \<open>time.Duration\<close> as \<open>int\<close> with the
  wrap-around written out), decimal rendering as \<open>fmt\<close>'s \<open>%d\<close> does it, and the generic
  lemmas the component proofs use.
\<close>

section \<open>Collections\<close>

named_theorems float_mono \<open>monotonicity and sign rules of the binary64 operations\<close>
named_theorems result_simps \<open>inversion rules for outcomes of Go calls\<close>

section \<open>Errors and outcomes\<close>

text \<open>
  Error values: the sentinels of the package, \<open>os.ErrNotExist\<close>, errors made with
  \<open>errors.New\<close> or \<open>errors.Errorf\<close>, and \<open>errors.Wrapf\<close>. \<open>cause\<close> is \<open>errors.Cause\<close> of
  \<open>github.com/pkg/errors\<close>: it unwraps to the innermost error.
\<close>

datatype go_error =
    ErrNotEnoughData
  | ErrMissingCandlestick
  | ErrNotExist
  | Errorf string
  | Wrapf go_error string

fun cause :: "go_error \<Rightarrow> go_error" where
  "cause (Wrapf e _) = cause e"
| "cause e = e"

text \<open>
  The outcome of a call: \<open>Ok\<close> a result with a nil error, \<open>Err\<close> a non-nil error,
  \<open>Panic\<close> a run-time panic, \<open>Diverge\<close> a loop that never ends.
\<close>

datatype 'a go_result = Ok 'a | Err go_error | Panic string | Diverge

fun is_ok :: "'a go_result \<Rightarrow> bool" where
  "is_ok (Ok _) = True"
| "is_ok _ = False"

text \<open>\<open>if err != nil { return errors.Wrapf(err, msg) }\<close> around a call.\<close>

fun wrap_err :: "string \<Rightarrow> 'a go_result \<Rightarrow> 'a go_result" where
  "wrap_err msg (Err e) = Err (Wrapf e msg)"
| "wrap_err msg r = r"

fun bind_result :: "'a go_result \<Rightarrow> ('a \<Rightarrow> 'b go_result) \<Rightarrow> 'b go_result" where
  "bind_result (Ok a) f = f a"
| "bind_result (Err e) f = Err e"
| "bind_result (Panic p) f = Panic p"
| "bind_result Diverge f = Diverge"

lemma bind_result_Ok_iff [result_simps]:
  "bind_result r f = Ok b \<longleftrightarrow> (\<exists>a. r = Ok a \<and> f a = Ok b)"
  by (cases r) auto

lemma wrap_err_Ok_iff [simp]: "wrap_err msg r = Ok a \<longleftrightarrow> r = Ok a"
  by (cases r) auto

lemma cause_wrap_err: "wrap_err msg r = Err e \<longleftrightarrow> (\<exists>e'. r = Err e' \<and> e = Wrapf e' msg)"
  by (cases r) auto

lemma cause_not_Wrapf [simp]: "cause e \<noteq> Wrapf e' s"
  by (induction e) auto

lemma cause_idem [simp]: "cause (cause e) = cause e"
  by (induction e) auto

section \<open>64-bit integers\<close>

type_synonym u64 = "64 word"

text \<open>The value an \<open>int64\<close> (or \<open>int\<close>, or \<open>time.Duration\<close>) holds after wrap-around.\<close>

definition wrap64 :: "int \<Rightarrow> int" where
  "wrap64 n = (n + 2 ^ 63) mod 2 ^ 64 - 2 ^ 63"

definition min_int64 :: int where
  "min_int64 = - (2 ^ 63)"

definition max_int64 :: int where
  "max_int64 = 2 ^ 63 - 1"

definition in_int64 :: "int \<Rightarrow> bool" where
  "in_int64 n \<longleftrightarrow> min_int64 \<le> n \<and> n \<le> max_int64"

lemma wrap64_id [simp]: "in_int64 n \<Longrightarrow> wrap64 n = n"
  by (simp add: wrap64_def in_int64_def min_int64_def max_int64_def)

lemma wrap64_range: "in_int64 (wrap64 n)"
proof -
  have "0 \<le> (n + 2 ^ 63) mod 2 ^ 64" and "(n + 2 ^ 63) mod 2 ^ 64 < 2 ^ 64"
    by simp_all
  then show ?thesis
    by (simp add: wrap64_def in_int64_def min_int64_def max_int64_def)
qed

lemma in_int64I: "\<bar>n\<bar> < 2 ^ 63 \<Longrightarrow> in_int64 n"
  by (auto simp: in_int64_def min_int64_def max_int64_def)

lemma sint_u64_small:
  assumes "unat (w :: u64) < 2 ^ 63"
  shows "sint w = int (unat w)"
proof -
  have "int (unat w) < int (2 ^ 63)"
    using assms by (rule iffD2[OF of_nat_less_iff])
  then have u: "uint w < 2 ^ 63"
    by simp
  have "- (2 ^ 63) \<le> (0 :: int)"
    by simp
  also have "0 \<le> uint w"
    by simp
  finally have "- (2 ^ 63) \<le> uint w" .
  then have "signed_take_bit 63 (uint w) = uint w"
    using u by (rule signed_take_bit_int_eq_self)
  then show ?thesis
    by (simp add: sint_uint)
qed

text \<open>Go's integer division truncates towards zero.\<close>

definition go_quot :: "int \<Rightarrow> int \<Rightarrow> int" where
  "go_quot a b = sgn a * sgn b * (\<bar>a\<bar> div \<bar>b\<bar>)"

definition go_rem :: "int \<Rightarrow> int \<Rightarrow> int" where
  "go_rem a b = a - b * go_quot a b"

lemma go_quot_pos: "0 \<le> a \<Longrightarrow> 0 < b \<Longrightarrow> go_quot a b = a div b"
  by (cases "a = 0") (auto simp: go_quot_def)

lemma go_rem_pos: "0 \<le> a \<Longrightarrow> 0 < b \<Longrightarrow> go_rem a b = a mod b"
  by (simp add: go_rem_def go_quot_pos minus_mult_div_eq_mod)

section \<open>Decimal rendering\<close>

text \<open>\<open>fmt.Sprintf("%d", n)\<close> of an unsigned integer.\<close>

definition digit_char :: "nat \<Rightarrow> char" where
  "digit_char d = char_of (48 + d)"

fun show_nat :: "nat \<Rightarrow> string" where
  "show_nat n = (if n < 10 then [digit_char n]
     else show_nat (n div 10) @ [digit_char (n mod 10)])"

declare show_nat.simps [simp del]

definition show_u64 :: "u64 \<Rightarrow> string" where
  "show_u64 w = show_nat (unat w)"

lemma digit_char_inj: "d < 10 \<Longrightarrow> e < 10 \<Longrightarrow> digit_char d = digit_char e \<Longrightarrow> d = e"
proof -
  assume "d < 10" "e < 10" and eq: "digit_char d = digit_char e"
  have "of_char (digit_char d) = (of_char (digit_char e) :: nat)"
    by (simp add: eq)
  then show "d = e"
    using \<open>d < 10\<close> \<open>e < 10\<close> by (simp add: digit_char_def)
qed

lemma digit_char_code: "d < 10 \<Longrightarrow> of_char (digit_char d) = 48 + d"
  by (simp add: digit_char_def)

lemma digit_char_ge: "d < 10 \<Longrightarrow> (48 :: nat) \<le> of_char (digit_char d)"
  by (simp add: digit_char_code)

text \<open>The characters of a number are digits.\<close>

lemma show_nat_digits: "c \<in> set (show_nat n) \<Longrightarrow> (48 :: nat) \<le> of_char c"
proof (induction n arbitrary: c rule: show_nat.induct)
  case (1 n)
  have "c \<in> set (if n < 10 then [digit_char n] else show_nat (n div 10) @ [digit_char (n mod 10)])"
    using "1.prems" show_nat.simps[of n] by simp
  then show ?case
    using "1.IH"[of c] digit_char_ge[of n] digit_char_ge[of "n mod 10"] by (auto split: if_splits)
qed

lemma show_nat_nonempty [simp]: "show_nat n \<noteq> []"
  by (subst show_nat.simps) simp

lemma show_nat_inj: "show_nat m = show_nat n \<Longrightarrow> m = n"
proof (induction m arbitrary: n rule: show_nat.induct)
  case (1 m)
  have small: "show_nat k = [c] \<longleftrightarrow> k < 10 \<and> c = digit_char k" for k c
    by (subst show_nat.simps) auto
  show ?case
  proof (cases "m < 10")
    case True
    with "1.prems" have "show_nat n = [digit_char m]"
      by (simp add: show_nat.simps[of m])
    then show ?thesis
      using True digit_char_inj by (auto simp: small)
  next
    case False
    with "1.prems" have "\<not> n < 10"
      by (metis show_nat.simps small)
    with False "1.prems" have "show_nat (m div 10) = show_nat (n div 10)"
      and "digit_char (m mod 10) = digit_char (n mod 10)"
      by (simp_all add: show_nat.simps[of m] show_nat.simps[of n])
    then have "m div 10 = n div 10" and "m mod 10 = n mod 10"
      using "1.IH"[OF False] digit_char_inj by simp_all
    then show ?thesis
      by (metis div_mult_mod_eq)
  qed
qed

lemma show_u64_inj: "show_u64 v = show_u64 w \<Longrightarrow> v = w"
  by (metis show_nat_inj show_u64_def word_unat_eq_iff)

section \<open>Lists and maps\<close>

lemma foldl_filter:
  "foldl (\<lambda>s x. if P x then f s x else s) s xs = foldl f s (filter P xs)"
  by (induction xs arbitrary: s) auto

lemma foldl_invariant:
  assumes "I s" and "\<And>s x. I s \<Longrightarrow> x \<in> set xs \<Longrightarrow> I (f s x)"
  shows "I (foldl f s xs)"
  using assms
  by (induction xs arbitrary: s) auto

lemma list_all2_nth_map:
  "length ys = length xs \<Longrightarrow> (\<And>i. i < length xs \<Longrightarrow> ys ! i = f (xs ! i)) \<Longrightarrow> ys = map f xs"
  by (rule nth_equalityI) simp_all

end
