(* ===== verification/Float64.thy ===== *)
theory Float64
  imports Go_Prelude
begin

text \<open>
  Go's \<open>float64\<close>: IEEE 754 binary64 with round-to-nearest-even, executable. A finite
  value is the rational it denotes; the negative zero, the infinities and NaN are values
  of their own. Rounding is \<open>rnd64\<close>; every operation computes the exact rational result
  and rounds it once, as the amd64 instructions do. The locale \<open>rounding\<close> states what
  the bounds of the components need of a rounding function, and \<open>rnd64\<close> provides it.
\<close>

section \<open>Rounding a rational to 53 bits\<close>

fun ilog2 :: "int \<Rightarrow> int" where
  "ilog2 n = (if n \<le> 1 then 0 else 1 + ilog2 (n div 2))"

declare ilog2.simps [simp del]

definition binexp :: "rat \<Rightarrow> int" where
  "binexp x = (case quotient_of \<bar>x\<bar> of (n, d) \<Rightarrow>
     let k = ilog2 n - ilog2 d in if 2 powi k \<le> \<bar>x\<bar> then k else k - 1)"

definition round_half_even :: "rat \<Rightarrow> int" where
  "round_half_even x = (let f = \<lfloor>x\<rfloor>; r = x - of_int f in
     if r < 1 / 2 then f else if r > 1 / 2 then f + 1 else if even f then f else f + 1)"

definition ulp_exp :: "rat \<Rightarrow> int" where
  "ulp_exp x = max (binexp x) (-1022) - 52"

definition rnd64 :: "rat \<Rightarrow> rat" where
  "rnd64 x = (if x = 0 then 0 else
     of_int (round_half_even (x / 2 powi ulp_exp x)) * 2 powi ulp_exp x)"

subsection \<open>The binary exponent\<close>

lemma ilog2_nonneg: "0 \<le> ilog2 n"
proof (induction n rule: ilog2.induct)
  case (1 n)
  then show ?case by (subst ilog2.simps) simp
qed

lemma ilog2_bounds_int: "0 < n \<Longrightarrow> 2 ^ nat (ilog2 n) \<le> n \<and> n < 2 * 2 ^ nat (ilog2 n)"
proof (induction n rule: ilog2.induct)
  case (1 n)
  show ?case
  proof (cases "n \<le> 1")
    case True
    with "1.prems" show ?thesis by (subst (1 2) ilog2.simps) auto
  next
    case False
    then have IH: "2 ^ nat (ilog2 (n div 2)) \<le> n div 2" "n div 2 < 2 * 2 ^ nat (ilog2 (n div 2))"
      using "1.IH" by auto
    have "nat (ilog2 n) = Suc (nat (ilog2 (n div 2)))"
      using False ilog2_nonneg[of "n div 2"] by (subst ilog2.simps) (simp add: nat_add_distrib)
    moreover have "2 * p \<le> n \<and> n < 4 * p" if "p \<le> n div 2" "n div 2 < 2 * p" for p :: int
      using that by linarith
    ultimately show ?thesis
      using IH by simp
  qed
qed

lemma ilog2_bounds:
  assumes "0 < n"
  shows "2 powi ilog2 n \<le> (of_int n :: rat)" and "(of_int n :: rat) < 2 powi (ilog2 n + 1)"
proof -
  define k where "k = nat (ilog2 n)"
  have k: "ilog2 n = int k"
    using ilog2_nonneg by (simp add: k_def)
  have "(of_int (2 ^ k) :: rat) \<le> of_int n" and "(of_int n :: rat) < of_int (2 * 2 ^ k)"
    using ilog2_bounds_int[OF assms] by (simp_all only: of_int_le_iff of_int_less_iff k_def)
  then show "2 powi ilog2 n \<le> (of_int n :: rat)" and "(of_int n :: rat) < 2 powi (ilog2 n + 1)"
    by (simp_all add: k power_int_add)
qed

lemma binexp_bounds:
  assumes "x \<noteq> 0"
  shows "2 powi binexp x \<le> \<bar>x\<bar>" and "\<bar>x\<bar> < 2 powi (binexp x + 1)"
proof -
  obtain n d where q: "quotient_of \<bar>x\<bar> = (n, d)"
    by (cases "quotient_of \<bar>x\<bar>") auto
  have d: "0 < d" and x: "\<bar>x\<bar> = of_int n / of_int d"
    using quotient_of_denom_pos[OF q] quotient_of_div[OF q] by auto
  have n: "0 < n"
    using x d assms by (metis divide_le_0_iff not_le of_int_0_le_iff of_int_le_0_iff zero_less_abs_iff order_less_imp_le)
  define a b where "a = ilog2 n" and "b = ilog2 d"
  have A: "2 powi a \<le> (of_int n :: rat)" "(of_int n :: rat) < 2 powi (a + 1)"
    and B: "2 powi b \<le> (of_int d :: rat)" "(of_int d :: rat) < 2 powi (b + 1)"
    using ilog2_bounds[OF n] ilog2_bounds[OF d] by (auto simp: a_def b_def)
  have dpos: "(0 :: rat) < of_int d" using d by simp
  have hi: "\<bar>x\<bar> < 2 powi (a - b + 1)"
  proof -
    have "of_int n < 2 powi (a - b + 1) * (2 powi b :: rat)"
      using A(2) by (simp flip: power_int_add)
    also have "\<dots> \<le> 2 powi (a - b + 1) * of_int d"
      using B(1) by (intro mult_left_mono) auto
    finally show ?thesis
      using dpos by (simp add: x divide_less_eq)
  qed
  have lo: "2 powi (a - b - 1) \<le> \<bar>x\<bar>"
  proof -
    have "2 powi (a - b - 1) * (of_int d :: rat) \<le> 2 powi (a - b - 1) * 2 powi (b + 1)"
      using B(2) by (intro mult_left_mono) auto
    also have "\<dots> = 2 powi a"
      by (simp flip: power_int_add)
    also have "\<dots> \<le> of_int n" by (rule A(1))
    finally show ?thesis
      using dpos by (simp add: x le_divide_eq)
  qed
  show "2 powi binexp x \<le> \<bar>x\<bar>" and "\<bar>x\<bar> < 2 powi (binexp x + 1)"
    using lo hi by (auto simp: binexp_def q a_def b_def Let_def)
qed

lemma powi2_less_iff [simp]: "(2 :: rat) powi a < 2 powi b \<longleftrightarrow> a < b"
  by (metis linorder_not_less one_less_numeral_iff power_int_increasing power_int_strict_increasing
      semiring_norm(76) one_le_numeral)

lemma powi2_le_iff [simp]: "(2 :: rat) powi a \<le> 2 powi b \<longleftrightarrow> a \<le> b"
  using powi2_less_iff[of b a] by (simp add: linorder_not_less[symmetric])

lemma powi2_pos [simp]: "(0 :: rat) < 2 powi a"
  by (rule zero_less_power_int) simp

lemma powi2_nonzero [simp]: "(2 :: rat) powi a \<noteq> 0"
  using powi2_pos[of a] by (simp del: powi2_pos)

lemma binexp_mono:
  assumes "0 < x" and "x \<le> y"
  shows "binexp x \<le> binexp y"
proof -
  have "2 powi binexp x \<le> y"
    using binexp_bounds(1)[of x] assms by simp
  also have "y < 2 powi (binexp y + 1)"
    using binexp_bounds(2)[of y] assms by simp
  finally have "binexp x < binexp y + 1"
    by simp
  then show ?thesis by simp
qed

lemma binexp_neg [simp]: "binexp (- x) = binexp x"
  by (simp add: binexp_def)

lemma ulp_exp_neg [simp]: "ulp_exp (- x) = ulp_exp x"
  by (simp add: ulp_exp_def)

subsection \<open>Rounding to an integer\<close>

lemma round_half_even_of_int [simp]: "round_half_even (of_int n) = n"
  by (simp add: round_half_even_def Let_def)

lemma round_half_even_ge_floor: "\<lfloor>x\<rfloor> \<le> round_half_even x"
  and round_half_even_le_floor: "round_half_even x \<le> \<lfloor>x\<rfloor> + 1"
  by (auto simp: round_half_even_def Let_def)

lemma round_half_even_split:
  assumes "0 \<le> r" and "r < 1"
  shows "round_half_even (of_int f + r) =
    (if r < 1 / 2 then f else if r > 1 / 2 then f + 1 else if even f then f else f + 1)"
proof -
  have "\<lfloor>of_int f + r\<rfloor> = f"
    using assms by (intro floor_unique) auto
  then show ?thesis
    by (simp add: round_half_even_def Let_def)
qed

lemma floor_split:
  obtains f r where "x = of_int f + (r :: rat)" and "0 \<le> r" and "r < 1"
  using that[of "\<lfloor>x\<rfloor>" "x - of_int \<lfloor>x\<rfloor>"] by linarith

lemma round_half_even_dist: "\<bar>of_int (round_half_even x) - x\<bar> \<le> 1 / 2"
proof -
  obtain f r where x: "x = of_int f + r" "0 \<le> r" "r < 1"
    by (rule floor_split)
  then show ?thesis
    by (auto simp: round_half_even_split)
qed

lemma round_half_even_mono:
  assumes "x \<le> y"
  shows "round_half_even x \<le> round_half_even y"
proof (cases "\<lfloor>x\<rfloor> = \<lfloor>y\<rfloor>")
  case True
  with assms show ?thesis
    by (auto simp: round_half_even_def Let_def)
next
  case False
  with assms have "\<lfloor>x\<rfloor> + 1 \<le> \<lfloor>y\<rfloor>"
    using floor_mono[OF assms] by linarith
  then show ?thesis
    using round_half_even_le_floor[of x] round_half_even_ge_floor[of y] by linarith
qed

lemma round_half_even_neg: "round_half_even (- x) = - round_half_even x"
proof -
  obtain f r where x: "x = of_int f + r" "0 \<le> r" "r < 1"
    by (rule floor_split)
  show ?thesis
  proof (cases "r = 0")
    case True
    with x show ?thesis
      by (metis add_0_right of_int_minus round_half_even_of_int)
  next
    case False
    have "- x = of_int (- f - 1) + (1 - r)"
      by (simp add: x)
    then have "round_half_even (- x) = round_half_even (of_int (- f - 1) + (1 - r))"
      by (rule arg_cong)
    also have "\<dots> = - round_half_even (of_int f + r)"
      using False x by (subst (1 2) round_half_even_split) auto
    finally show ?thesis
      by (simp add: x)
  qed
qed

subsection \<open>The laws of rounding\<close>

lemma rnd64_0 [simp]: "rnd64 0 = 0"
  by (simp add: rnd64_def)

lemma rnd64_neg: "rnd64 (- x) = - rnd64 x"
  by (simp add: rnd64_def round_half_even_neg)

lemma rnd64_ulp: "x \<noteq> 0 \<Longrightarrow> rnd64 x = of_int (round_half_even (x / 2 powi ulp_exp x)) * 2 powi ulp_exp x"
  by (simp add: rnd64_def)

lemma rnd64_half_ulp:
  assumes "x \<noteq> 0"
  shows "\<bar>rnd64 x - x\<bar> \<le> 2 powi (ulp_exp x - 1)"
proof -
  define u :: rat where "u = 2 powi ulp_exp x"
  have u: "0 < u" by (simp add: u_def)
  have "rnd64 x - x = (of_int (round_half_even (x / u)) - x / u) * u"
    using u assms by (simp add: rnd64_ulp u_def[symmetric] left_diff_distrib)
  then have "\<bar>rnd64 x - x\<bar> = \<bar>of_int (round_half_even (x / u)) - x / u\<bar> * u"
    using u by (simp add: abs_mult)
  also have "\<dots> \<le> 1 / 2 * u"
    using u by (intro mult_right_mono round_half_even_dist) simp
  also have "\<dots> = 2 powi (ulp_exp x - 1)"
    by (simp add: u_def power_int_diff)
  finally show ?thesis .
qed

lemma rnd64_dyadic_aux:
  assumes "ulp_exp x \<le> e" and "x = of_int m * 2 powi e"
  shows "rnd64 x = x"
proof (cases "x = 0")
  case False
  have "x / 2 powi ulp_exp x = of_int m * 2 powi (e - ulp_exp x)"
    by (simp add: assms(2) power_int_diff)
  also have "\<dots> = of_int (m * 2 ^ nat (e - ulp_exp x))"
    using assms(1) by (simp add: power_int_nonneg_exp)
  finally have q: "x / 2 powi ulp_exp x = of_int (m * 2 ^ nat (e - ulp_exp x))" .
  have "rnd64 x = x / 2 powi ulp_exp x * 2 powi ulp_exp x"
    unfolding rnd64_ulp[OF False] q round_half_even_of_int ..
  then show ?thesis by simp
qed simp

text \<open>Dyadic rationals with a mantissa below \<open>2 ^ 53\<close> are exact.\<close>

lemma rnd64_dyadic:
  assumes "\<bar>m\<bar> < 2 ^ 53" and "- 1074 \<le> e"
  shows "rnd64 (of_int m * 2 powi e) = of_int m * 2 powi e"
proof (cases "m = 0")
  case False
  define x :: rat where "x = of_int m * 2 powi e"
  have x: "x \<noteq> 0"
    using False by (simp add: x_def)
  have "(of_int \<bar>m\<bar> :: rat) < of_int (2 ^ 53)"
    using assms(1) by (simp only: of_int_less_iff)
  then have m: "\<bar>of_int m\<bar> < (2 ^ 53 :: rat)"
    by simp
  have "2 powi binexp x \<le> \<bar>of_int m\<bar> * (2 powi e :: rat)"
    using binexp_bounds(1)[OF x] by (simp add: x_def abs_mult)
  also have "\<dots> < 2 ^ 53 * 2 powi e"
    using m by (intro mult_strict_right_mono) simp_all
  also have "\<dots> = 2 powi (53 + e)"
    by (simp add: power_int_add)
  finally have "binexp x < 53 + e"
    by simp
  then have "ulp_exp x \<le> e"
    using assms(2) by (simp add: ulp_exp_def)
  then show ?thesis
    using rnd64_dyadic_aux x_def by blast
qed simp

text \<open>Rounding does not cross a number of its own grid.\<close>

lemma rnd64_le_grid:
  assumes "z \<noteq> 0" and "ulp_exp z \<le> e" and "z \<le> of_int m * 2 powi e"
  shows "rnd64 z \<le> of_int m * 2 powi e"
proof -
  define n where "n = m * 2 ^ nat (e - ulp_exp z)"
  have g: "of_int m * 2 powi e = (of_int n * 2 powi ulp_exp z :: rat)"
    using assms(2) by (simp add: n_def power_int_diff flip: power_int_nonneg_exp)
  have "z / 2 powi ulp_exp z \<le> of_int n"
    using assms(3) unfolding g by (simp add: pos_divide_le_eq)
  then have "round_half_even (z / 2 powi ulp_exp z) \<le> n"
    using round_half_even_mono[of _ "of_int n"] by simp
  then show ?thesis
    unfolding g rnd64_ulp[OF assms(1)] by (intro mult_right_mono) simp_all
qed

lemma rnd64_ge_grid:
  assumes "z \<noteq> 0" and "ulp_exp z \<le> e" and "of_int m * 2 powi e \<le> z"
  shows "of_int m * 2 powi e \<le> rnd64 z"
  using rnd64_le_grid[of "- z" e "- m"] assms by (simp add: rnd64_neg)

lemma rnd64_mono_pos:
  assumes "0 < x" and "x \<le> y"
  shows "rnd64 x \<le> rnd64 y"
proof (cases "ulp_exp x = ulp_exp y")
  case True
  have "x / 2 powi ulp_exp x \<le> y / 2 powi ulp_exp y"
    using True assms by (simp add: divide_right_mono)
  then have "round_half_even (x / 2 powi ulp_exp x) \<le> round_half_even (y / 2 powi ulp_exp y)"
    by (rule round_half_even_mono)
  then show ?thesis
    using assms True by (simp add: rnd64_ulp mult_right_mono)
next
  case False
  define E where "E = binexp y"
  have le: "binexp x \<le> E"
    using binexp_mono[OF assms] by (simp add: E_def)
  with False have E: "- 1022 < E" "binexp x < E"
    by (auto simp: ulp_exp_def E_def)
  have "x \<le> of_int 1 * 2 powi E"
    using binexp_bounds(2)[of x] assms(1) E(2)
    by (simp add: order.trans[OF less_imp_le])
  then have "rnd64 x \<le> of_int 1 * 2 powi E"
    using assms(1) E le by (intro rnd64_le_grid) (auto simp: ulp_exp_def)
  also have "\<dots> \<le> rnd64 y"
    using assms binexp_bounds(1)[of y] E(1)
    by (intro rnd64_ge_grid) (auto simp: ulp_exp_def E_def)
  finally show ?thesis .
qed

lemma rnd64_nonneg: "0 \<le> x \<Longrightarrow> 0 \<le> rnd64 x"
proof (cases "x = 0")
  case False
  assume "0 \<le> x"
  then show ?thesis
    using rnd64_ge_grid[of x "ulp_exp x" 0] False by simp
qed simp

lemma rnd64_mono:
  assumes "x \<le> y"
  shows "rnd64 x \<le> rnd64 y"
proof -
  consider "0 < x" | "x \<le> 0" "0 \<le> y" | "y < 0"
    by linarith
  then show ?thesis
  proof cases
    case 1
    then show ?thesis using rnd64_mono_pos assms by simp
  next
    case 2
    then show ?thesis
      using rnd64_nonneg[of "- x"] rnd64_nonneg[of y] by (simp add: rnd64_neg)
  next
    case 3
    then show ?thesis
      using rnd64_mono_pos[of "- y" "- x"] assms by (simp add: rnd64_neg)
  qed
qed

lemma rnd64_mantissa:
  assumes "x \<noteq> 0"
  shows "\<bar>round_half_even (x / 2 powi ulp_exp x)\<bar> \<le> 2 ^ 53"
proof -
  define u where "u = ulp_exp x"
  have "\<bar>x\<bar> \<le> 2 powi (u + 53)"
    using binexp_bounds(2)[OF assms] by (simp add: u_def ulp_exp_def order.trans[OF less_imp_le])
  then have "\<bar>x / 2 powi u\<bar> \<le> 2 ^ 53"
    by (simp add: abs_divide pos_divide_le_eq power_int_add mult.commute)
  from abs_le_D1[OF this] abs_le_D2[OF this]
  have "x / 2 powi u \<le> of_int (2 ^ 53)" and "of_int (- (2 ^ 53)) \<le> x / 2 powi u"
    by simp_all
  then show ?thesis
    using round_half_even_mono[of "x / 2 powi u" "of_int (2 ^ 53)"]
      round_half_even_mono[of "of_int (- (2 ^ 53))" "x / 2 powi u"]
    unfolding round_half_even_of_int u_def[symmetric] by linarith
qed

lemma rnd64_idem [simp]: "rnd64 (rnd64 x) = rnd64 x"
proof (cases "x = 0")
  case False
  define n u where "n = round_half_even (x / 2 powi ulp_exp x)" and "u = ulp_exp x"
  have r: "rnd64 x = of_int n * 2 powi u"
    using False by (simp add: rnd64_ulp n_def u_def)
  have u: "- 1074 \<le> u"
    by (simp add: u_def ulp_exp_def)
  have n: "\<bar>n\<bar> \<le> 2 ^ 53"
    using rnd64_mantissa[OF False] by (simp add: n_def)
  show ?thesis
  proof (cases "\<bar>n\<bar> = 2 ^ 53")
    case True
    then have "n = 2 ^ 53 \<or> n = - (2 ^ 53)"
      by linarith
    then have "rnd64 x = of_int (sgn n) * 2 powi (u + 53)"
      unfolding r by (auto simp: power_int_add)
    then show ?thesis
      using rnd64_dyadic[of "sgn n" "u + 53"] u by (simp add: sgn_if)
  next
    case False
    then show ?thesis
      unfolding r using rnd64_dyadic[of n u] n u by simp
  qed
qed simp

section \<open>What the components need of a rounding function\<close>

locale rounding =
  fixes rnd :: "rat \<Rightarrow> rat"
  assumes mono: "x \<le> y \<Longrightarrow> rnd x \<le> rnd y"
    and idem: "rnd (rnd x) = rnd x"
    and odd: "rnd (- x) = - rnd x"
begin

lemma zero: "rnd 0 = 0"
  using odd[of 0] by simp

lemma nonneg: "0 \<le> x \<Longrightarrow> 0 \<le> rnd x"
  using mono[of 0 x] by (simp add: zero)

lemma nonpos: "x \<le> 0 \<Longrightarrow> rnd x \<le> 0"
  using mono[of x 0] by (simp add: zero)

lemma le_fixed: "x \<le> y \<Longrightarrow> rnd y = y \<Longrightarrow> rnd x \<le> y"
  using mono[of x y] by simp

lemma ge_fixed: "y \<le> x \<Longrightarrow> rnd y = y \<Longrightarrow> y \<le> rnd x"
  using mono[of y x] by simp

lemma abs_le_fixed: "\<bar>x\<bar> \<le> y \<Longrightarrow> rnd y = y \<Longrightarrow> \<bar>rnd x\<bar> \<le> y"
  using le_fixed[of x y] ge_fixed[of "- y" x] odd[of y] by (simp add: abs_le_iff)

end

interpretation r64: rounding rnd64
  by unfold_locales (simp_all add: rnd64_mono rnd64_neg)

lemma rnd64_int [simp]: "\<bar>n\<bar> < 2 ^ 53 \<Longrightarrow> rnd64 (of_int n) = of_int n"
  using rnd64_dyadic[of n 0] by simp

lemma rnd64_numeral [simp]: "(numeral k :: int) < 2 ^ 53 \<Longrightarrow> rnd64 (numeral k) = numeral k"
  using rnd64_int[of "numeral k"] by simp

lemma rnd64_1 [simp]: "rnd64 1 = 1"
  using rnd64_int[of 1] by simp

section \<open>The values and operations of float64\<close>

datatype f64 = NaN | PInf | NInf | NZero | Fin rat

fun fval :: "f64 \<Rightarrow> rat" where
  "fval (Fin q) = q"
| "fval _ = 0"

fun is_inf :: "f64 \<Rightarrow> bool" where
  "is_inf PInf = True"
| "is_inf NInf = True"
| "is_inf _ = False"

fun is_zero :: "f64 \<Rightarrow> bool" where
  "is_zero NZero = True"
| "is_zero (Fin q) = (q = 0)"
| "is_zero _ = False"

fun is_fin :: "f64 \<Rightarrow> bool" where
  "is_fin NZero = True"
| "is_fin (Fin q) = True"
| "is_fin _ = False"

text \<open>The sign bit.\<close>

fun fsign :: "f64 \<Rightarrow> bool" where
  "fsign NInf = True"
| "fsign NZero = True"
| "fsign (Fin q) = (q < 0)"
| "fsign _ = False"

text \<open>The first power of two that is too large, and numbers that are known to be below it.\<close>

definition fmax_bound :: rat where
  "fmax_bound = 2 ^ 1024"

lemma fmax_bound_code [code]: "fmax_bound = 179769313486231590772930519078902473361797697894230657273430081157732675805500963132708477322407536021120113879871393357658789768814416622492847430639474124377767893424865485276302219601246094119453082952085005768838150682342462881473913110540827237163350510684586298239947245938479716304835356329624224137216"
  by (simp add: fmax_bound_def)

lemma fmax_bound_gt: "2 ^ 1000 < fmax_bound"
  by (simp add: fmax_bound_def)

lemma fmax_bound_pos [simp]: "0 < fmax_bound" "\<not> fmax_bound \<le> 0"
  by (simp_all add: fmax_bound_def)

text \<open>Round an exact result; \<open>s\<close> is the sign of a zero.\<close>

definition round64 :: "bool \<Rightarrow> rat \<Rightarrow> f64" where
  "round64 s x = (let r = rnd64 x in
     if fmax_bound \<le> r then PInf
     else if r \<le> - fmax_bound then NInf
     else if r = 0 then (if s then NZero else Fin 0)
     else Fin r)"

definition finf :: "bool \<Rightarrow> f64" where
  "finf s = (if s then NInf else PInf)"

definition fzero :: "bool \<Rightarrow> f64" where
  "fzero s = (if s then NZero else Fin 0)"

fun fneg :: "f64 \<Rightarrow> f64" where
  "fneg NaN = NaN"
| "fneg PInf = NInf"
| "fneg NInf = PInf"
| "fneg NZero = Fin 0"
| "fneg (Fin q) = (if q = 0 then NZero else Fin (- q))"

definition fadd :: "f64 \<Rightarrow> f64 \<Rightarrow> f64" where
  "fadd a b =
    (if a = NaN \<or> b = NaN then NaN
     else if is_inf a then (if is_inf b \<and> a \<noteq> b then NaN else a)
     else if is_inf b then b
     else if a = NZero \<and> b = NZero then NZero
     else round64 (fval a + fval b < 0) (fval a + fval b))"

definition fsub :: "f64 \<Rightarrow> f64 \<Rightarrow> f64" where
  "fsub a b = fadd a (fneg b)"

definition fmul :: "f64 \<Rightarrow> f64 \<Rightarrow> f64" where
  "fmul a b =
    (if a = NaN \<or> b = NaN then NaN
     else if is_inf a \<or> is_inf b then
       (if is_zero a \<or> is_zero b then NaN else finf (fsign a \<noteq> fsign b))
     else round64 (fsign a \<noteq> fsign b) (fval a * fval b))"

definition fdiv :: "f64 \<Rightarrow> f64 \<Rightarrow> f64" where
  "fdiv a b =
    (if a = NaN \<or> b = NaN then NaN
     else if is_inf a then (if is_inf b then NaN else finf (fsign a \<noteq> fsign b))
     else if is_inf b then fzero (fsign a \<noteq> fsign b)
     else if is_zero b then (if is_zero a then NaN else finf (fsign a \<noteq> fsign b))
     else round64 (fsign a \<noteq> fsign b) (fval a / fval b))"

text \<open>Comparisons: NaN compares false with everything, the two zeros are equal.\<close>

fun fclass :: "f64 \<Rightarrow> int" where
  "fclass NInf = - 1"
| "fclass PInf = 1"
| "fclass _ = 0"

definition fle :: "f64 \<Rightarrow> f64 \<Rightarrow> bool" where
  "fle a b \<longleftrightarrow> a \<noteq> NaN \<and> b \<noteq> NaN \<and>
     (fclass a < fclass b \<or> fclass a = fclass b \<and> fval a \<le> fval b)"

definition flt :: "f64 \<Rightarrow> f64 \<Rightarrow> bool" where
  "flt a b \<longleftrightarrow> a \<noteq> NaN \<and> b \<noteq> NaN \<and>
     (fclass a < fclass b \<or> fclass a = fclass b \<and> fval a < fval b)"

definition feq :: "f64 \<Rightarrow> f64 \<Rightarrow> bool" where
  "feq a b \<longleftrightarrow> a \<noteq> NaN \<and> b \<noteq> NaN \<and> fclass a = fclass b \<and> fval a = fval b"

text \<open>A numeric constant of the source, and \<open>float64(n)\<close> of an integer.\<close>

definition flit :: "rat \<Rightarrow> f64" where
  "flit q = round64 (q < 0) q"

definition float_of_int :: "int \<Rightarrow> f64" where
  "float_of_int n = round64 False (of_int n)"

text \<open>
  Conversions to integers truncate towards zero. Outside the range of the target type Go
  leaves the value to the implementation; the model follows the instructions the amd64
  compiler emits (the "integer indefinite" value \<open>-2^63\<close>, and the two-step conversion for
  \<open>uint64\<close>).
\<close>

definition trunc_rat :: "rat \<Rightarrow> int" where
  "trunc_rat q = (if 0 \<le> q then \<lfloor>q\<rfloor> else - \<lfloor>- q\<rfloor>)"

fun int64_of_float :: "f64 \<Rightarrow> int" where
  "int64_of_float (Fin q) = (if in_int64 (trunc_rat q) then trunc_rat q else min_int64)"
| "int64_of_float NZero = 0"
| "int64_of_float _ = min_int64"

definition u64_of_float :: "f64 \<Rightarrow> u64" where
  "u64_of_float f = (if flt f (Fin (2 ^ 63)) then word_of_int (int64_of_float f)
     else word_of_int (int64_of_float (fsub f (Fin (2 ^ 63)))) + word_of_int (2 ^ 63))"

text \<open>Values a machine word can hold; every operation returns one.\<close>

fun f64_ok :: "f64 \<Rightarrow> bool" where
  "f64_ok (Fin q) = (rnd64 q = q \<and> \<bar>q\<bar> < fmax_bound)"
| "f64_ok _ = True"

text \<open>Not below zero, and above zero, infinity included.\<close>

abbreviation fnonneg :: "f64 \<Rightarrow> bool" where
  "fnonneg a \<equiv> fle (Fin 0) a"

abbreviation fpos :: "f64 \<Rightarrow> bool" where
  "fpos a \<equiv> flt (Fin 0) a"

subsection \<open>Order\<close>

lemma fle_refl [simp]: "fle a a \<longleftrightarrow> a \<noteq> NaN"
  by (auto simp: fle_def)

lemma fle_trans [trans]: "fle a b \<Longrightarrow> fle b c \<Longrightarrow> fle a c"
  by (auto simp: fle_def)

lemma flt_fle_trans [trans]: "flt a b \<Longrightarrow> fle b c \<Longrightarrow> flt a c"
  by (auto simp: fle_def flt_def)

lemma fle_flt_trans [trans]: "fle a b \<Longrightarrow> flt b c \<Longrightarrow> flt a c"
  by (auto simp: fle_def flt_def)

lemma flt_fle: "flt a b \<Longrightarrow> fle a b"
  by (auto simp: fle_def flt_def)

lemma not_fle_iff: "\<not> fle a b \<longleftrightarrow> a = NaN \<or> b = NaN \<or> flt b a"
  by (auto simp: fle_def flt_def)

lemma not_flt_iff: "\<not> flt a b \<longleftrightarrow> a = NaN \<or> b = NaN \<or> fle b a"
  by (auto simp: fle_def flt_def)

lemma flt_irrefl [simp]: "\<not> flt a a"
  by (simp add: flt_def)

lemma feq_fle: "feq a b \<longleftrightarrow> fle a b \<and> fle b a"
  by (auto simp: fle_def feq_def)

lemma fle_not_NaN: "fle a b \<Longrightarrow> a \<noteq> NaN \<and> b \<noteq> NaN"
  by (simp add: fle_def)

lemma flt_not_NaN: "flt a b \<Longrightarrow> a \<noteq> NaN \<and> b \<noteq> NaN"
  by (simp add: flt_def)

lemma fle_Fin [simp]: "fle (Fin p) (Fin q) \<longleftrightarrow> p \<le> q"
  by (simp add: fle_def)

lemma flt_Fin [simp]: "flt (Fin p) (Fin q) \<longleftrightarrow> p < q"
  by (simp add: flt_def)

lemma feq_Fin [simp]: "feq (Fin p) (Fin q) \<longleftrightarrow> p = q"
  by (simp add: feq_def)

lemma feq_zero_iff: "feq a (Fin 0) \<longleftrightarrow> is_zero a"
  by (cases a) (auto simp: feq_def)

lemma fle_fneg [float_mono]: "fle a b \<Longrightarrow> fle (fneg b) (fneg a)"
  by (cases a; cases b; auto simp: fle_def)

lemma fneg_NaN [simp]: "fneg a = NaN \<longleftrightarrow> a = NaN"
  by (cases a) auto

lemma fval_fneg [simp]: "fval (fneg a) = - fval a"
  by (cases a) auto

lemma is_inf_fneg [simp]: "is_inf (fneg a) = is_inf a"
  by (cases a) auto

subsection \<open>Monotonicity and signs of the operations\<close>

lemma round64_not_NaN [simp]: "round64 s x \<noteq> NaN"
  by (simp add: round64_def Let_def)

lemma round64_mono [float_mono]:
  assumes "x \<le> y"
  shows "fle (round64 s x) (round64 t y)"
  using r64.mono[OF assms] by (auto simp: round64_def Let_def fle_def)

lemma round64_0: "round64 s 0 = fzero s"
  by (simp add: round64_def fzero_def)

lemma round64_nonneg: "0 \<le> x \<Longrightarrow> fnonneg (round64 s x)"
  using r64.nonneg[of x] by (auto simp: round64_def Let_def fle_def)

lemma round64_fixed:
  assumes "rnd64 x = x" and "\<bar>x\<bar> < fmax_bound" and "x \<noteq> 0"
  shows "round64 s x = Fin x"
  using assms by (auto simp: round64_def Let_def abs_less_iff)

lemma round64_ok [simp]: "f64_ok (round64 s x)"
  by (auto simp: round64_def Let_def abs_less_iff)

lemma round64_le_fixed: "x \<le> y \<Longrightarrow> f64_ok (Fin y) \<Longrightarrow> fle (round64 s x) (Fin y)"
  using r64.le_fixed[of x y] by (auto simp: round64_def Let_def fle_def abs_less_iff)

lemma round64_ge_fixed: "y \<le> x \<Longrightarrow> f64_ok (Fin y) \<Longrightarrow> fle (Fin y) (round64 s x)"
  using r64.ge_fixed[of y x] by (auto simp: round64_def Let_def fle_def abs_less_iff)

lemma fadd_ok [simp]: "f64_ok a \<Longrightarrow> f64_ok b \<Longrightarrow> f64_ok (fadd a b)"
  by (auto simp: fadd_def)

lemma fneg_ok [simp]: "f64_ok (fneg a) = f64_ok a"
  by (cases a) (auto simp: rnd64_neg)

lemma fsub_ok [simp]: "f64_ok a \<Longrightarrow> f64_ok b \<Longrightarrow> f64_ok (fsub a b)"
  by (simp add: fsub_def)

lemma fmul_ok [simp]: "f64_ok (fmul a b)"
  by (auto simp: fmul_def finf_def)

lemma fdiv_ok [simp]: "f64_ok (fdiv a b)"
  by (auto simp: fdiv_def finf_def fzero_def)

lemma fadd_fin:
  assumes "is_fin a" and "is_fin b"
  shows "feq (fadd a b) (round64 False (fval a + fval b))"
proof -
  have r: "feq (round64 s x) (round64 t x)" for s t x
    by (simp add: feq_fle round64_mono)
  have "feq NZero (round64 False 0)"
    by (simp add: feq_def fzero_def round64_0)
  then show ?thesis
    using assms r by (cases a; cases b) (auto simp: fadd_def)
qed

lemma f64_split:
  obtains "a = NaN" | "a = PInf" | "a = NInf" | "is_fin a"
  by (cases a) auto

lemma fadd_inf:
  "fadd PInf b = (if b = NaN \<or> b = NInf then NaN else PInf)"
  "fadd NInf b = (if b = NaN \<or> b = PInf then NaN else NInf)"
  "fadd b PInf = (if b = NaN \<or> b = NInf then NaN else PInf)"
  "fadd b NInf = (if b = NaN \<or> b = PInf then NaN else NInf)"
  by (cases b; simp add: fadd_def)+

lemma fle_NaN [simp]: "\<not> fle NaN b" "\<not> fle b NaN"
  by (simp_all add: fle_def)

lemma fle_inf:
  "fle PInf b \<longleftrightarrow> b = PInf"
  "fle NInf b \<longleftrightarrow> b \<noteq> NaN"
  "fle b PInf \<longleftrightarrow> b \<noteq> NaN"
  "fle b NInf \<longleftrightarrow> b = NInf"
  by (cases b; simp add: fle_def)+

lemma fadd_mono [float_mono]:
  assumes "fle a b" and "fle c d" and "fadd a c \<noteq> NaN" and "fadd b d \<noteq> NaN"
  shows "fle (fadd a c) (fadd b d)"
proof (cases "is_fin a \<and> is_fin b \<and> is_fin c \<and> is_fin d")
  case True
  then have "fval a \<le> fval b" and "fval c \<le> fval d"
    using assms(1,2) by (cases a; cases b; cases c; cases d; simp add: fle_def)+
  then have "fle (round64 False (fval a + fval c)) (round64 False (fval b + fval d))"
    by (intro round64_mono add_mono)
  with True show ?thesis
    using fadd_fin[of a c] fadd_fin[of b d] unfolding feq_fle by (blast intro: fle_trans)
next
  case False
  show ?thesis
    using assms False
    by (cases a rule: f64_split; cases b rule: f64_split; cases c rule: f64_split; cases d rule: f64_split)
      (simp_all add: fadd_inf fle_inf split: if_splits)
qed

lemma fsub_mono [float_mono]:
  "fle a b \<Longrightarrow> fle d c \<Longrightarrow> fsub a c \<noteq> NaN \<Longrightarrow> fsub b d \<noteq> NaN \<Longrightarrow> fle (fsub a c) (fsub b d)"
  by (simp add: fsub_def fadd_mono fle_fneg)

lemma fadd_nonneg [float_mono]: "fnonneg a \<Longrightarrow> fnonneg b \<Longrightarrow> fnonneg (fadd a b)"
  by (cases a; cases b) (auto simp: fadd_def fle_def[of "Fin 0" PInf] intro: round64_nonneg simp: fle_def[of "Fin 0" NInf] fle_def[of _ NaN] fle_def[of "Fin 0" NZero])

lemma fle_fval: "fle a b \<Longrightarrow> is_fin a \<Longrightarrow> is_fin b \<Longrightarrow> fval a \<le> fval b"
  by (cases a; cases b) (auto simp: fle_def)

lemma fnonneg_simps [simp]:
  "fnonneg PInf" "fnonneg NZero" "\<not> fnonneg NInf" "\<not> fnonneg NaN"
  by (simp_all add: fle_def)

lemma fpos_simps [simp]:
  "fpos PInf" "\<not> fpos NZero" "\<not> fpos NInf" "\<not> fpos NaN"
  by (simp_all add: flt_def)

declare fle_inf [simp]

lemma fle_NZero [simp]: "fle NZero (Fin q) \<longleftrightarrow> 0 \<le> q" "fle (Fin q) NZero \<longleftrightarrow> q \<le> 0"
  by (auto simp: fle_def)

lemma fmul_nonneg [float_mono]:
  "fnonneg a \<Longrightarrow> fnonneg b \<Longrightarrow> fmul a b \<noteq> NaN \<Longrightarrow> fnonneg (fmul a b)"
  by (cases a; cases b) (auto simp: fmul_def finf_def intro: round64_nonneg split: if_splits)

lemma fdiv_nonneg [float_mono]:
  "fnonneg a \<Longrightarrow> fpos b \<Longrightarrow> fdiv a b \<noteq> NaN \<Longrightarrow> fnonneg (fdiv a b)"
  by (cases a; cases b) (auto simp: fdiv_def finf_def fzero_def intro: round64_nonneg split: if_splits)

text \<open>Dividing by a number above zero and multiplying by one not below it keep the order.\<close>

lemma fmul_mono [float_mono]:
  assumes "fle a b" and "fnonneg c" and "fmul a c \<noteq> NaN" and "fmul b c \<noteq> NaN"
  shows "fle (fmul a c) (fmul b c)"
proof -
  have r: "fle (round64 s (x * z)) (round64 t (y * z))" if "x \<le> y" "0 \<le> z" for s t x y z
    using that by (intro round64_mono mult_right_mono)
  have p: "fle x PInf" "fle NInf x" if "x \<noteq> NaN" for x
    using that by (cases x; simp add: fle_def)+
  have n: "fle (round64 s 0) (round64 t x)" if "0 \<le> x" for s t x
    using that by (rule round64_mono)
  have n': "fle (round64 s x) (round64 t 0)" if "x \<le> 0" for s t x
    using that by (rule round64_mono)
  show ?thesis
    using assms p
    by (cases a; cases b; cases c)
      (auto simp: fmul_def finf_def fle_def[of NInf] fle_def[of _ NInf] intro: r n n'
         mult_nonneg_nonneg mult_nonpos_nonneg split: if_splits)
qed

lemma fdiv_mono [float_mono]:
  assumes "fle a b" and "fpos c" and "fdiv a c \<noteq> NaN" and "fdiv b c \<noteq> NaN"
  shows "fle (fdiv a c) (fdiv b c)"
proof -
  have r: "fle (round64 s (x / z)) (round64 t (y / z))" if "x \<le> y" "0 < z" for s t x y z
    using that by (intro round64_mono divide_right_mono) auto
  have p: "fle x PInf" "fle NInf x" if "x \<noteq> NaN" for x
    using that by (cases x; simp add: fle_def)+
  have n: "fle (round64 s 0) (round64 t x)" if "0 \<le> x" for s t x
    using that by (rule round64_mono)
  have n': "fle (round64 s x) (round64 t 0)" if "x \<le> 0" for s t x
    using that by (rule round64_mono)
  show ?thesis
    using assms p
    by (cases a; cases b; cases c)
      (auto simp: fdiv_def finf_def fzero_def fle_def[of NInf] fle_def[of _ NInf] intro: r n n'
         divide_nonneg_pos divide_nonpos_pos split: if_splits)
qed

text \<open>Adding a number not below zero, scaling by at most one, dividing by at least one.\<close>

lemma fadd_zero: "f64_ok a \<Longrightarrow> a \<noteq> NaN \<Longrightarrow> feq (fadd a (Fin 0)) a"
  by (cases a) (auto simp: fadd_def feq_fle fzero_def round64_0 round64_le_fixed round64_ge_fixed)

lemma fadd_ge:
  assumes "f64_ok a" and "fnonneg b" and "fadd a b \<noteq> NaN"
  shows "fle a (fadd a b)"
proof -
  have a: "a \<noteq> NaN" using assms(3) by (auto simp: fadd_def)
  have "fle a (fadd a (Fin 0))"
    using fadd_zero[OF assms(1) a] by (simp add: feq_fle)
  also have "fle \<dots> (fadd a b)"
    using assms a by (intro fadd_mono) (auto simp: fadd_def)
  finally show ?thesis .
qed

lemma fsub_le:
  assumes "f64_ok a" and "fnonneg b" and "fsub a b \<noteq> NaN"
  shows "fle (fsub a b) a"
proof -
  have a: "a \<noteq> NaN" using assms(3) by (auto simp: fsub_def fadd_def)
  have "fle (fsub a b) (fadd a (Fin 0))"
    unfolding fsub_def using assms a fle_fneg[of "Fin 0" b]
    by (intro fadd_mono) (auto simp: fadd_def fsub_def intro: fle_trans[of _ NZero])
  also have "fle \<dots> a"
    using fadd_zero[OF assms(1) a] by (simp add: feq_fle)
  finally show ?thesis .
qed

lemma fmul_le_one:
  assumes "f64_ok a" and "fnonneg a" and "fnonneg c" and "fle c (Fin 1)" and "fmul a c \<noteq> NaN"
  shows "fle (fmul a c) a"
proof -
  have "fle (round64 s (x * z)) (Fin x)" if "f64_ok (Fin x)" "0 \<le> x" "z \<le> 1" for s x z
    using that mult_left_mono[of z 1 x] by (intro round64_le_fixed) auto
  then show ?thesis
    using assms by (cases a; cases c) (auto simp: fmul_def finf_def fzero_def round64_0 split: if_splits)
qed

lemma fdiv_ge_one:
  assumes "f64_ok a" and "fnonneg a" and "fle (Fin 1) b" and "fdiv a b \<noteq> NaN"
  shows "fle (fdiv a b) a"
proof -
  have "fle (round64 s (x / z)) (Fin x)" if "f64_ok (Fin x)" "0 \<le> x" "1 \<le> z" for s x z
    using that mult_left_mono[of 1 z x] by (intro round64_le_fixed) (auto simp: divide_le_eq)
  then show ?thesis
    using assms by (cases a; cases b) (auto simp: fdiv_def finf_def fzero_def round64_0 split: if_splits)
qed

subsection \<open>Exact cases\<close>

lemma fmax_bound_ge: "(2 :: rat) ^ k < fmax_bound \<longleftrightarrow> k < 1024"
  unfolding fmax_bound_def by (rule power_strict_increasing_iff) simp

lemma fmax_bound_numeral [simp]:
  "1 < fmax_bound" "(numeral k :: rat) < 2 ^ 53 \<Longrightarrow> numeral k < fmax_bound"
  using fmax_bound_ge[of 0] less_trans[OF _ iffD2[OF fmax_bound_ge[of 53]], of "numeral k"] by simp_all

lemma f64_ok_int: "\<bar>n\<bar> < 2 ^ 53 \<Longrightarrow> f64_ok (Fin (of_int n))"
proof -
  assume n: "\<bar>n\<bar> < 2 ^ 53"
  then have "(of_int \<bar>n\<bar> :: rat) < of_int (2 ^ 53)"
    by (simp only: of_int_less_iff)
  also have "of_int (2 ^ 53) < fmax_bound"
    using fmax_bound_ge[of 53] by simp
  finally show ?thesis
    using n by simp
qed

lemma round64_int: "\<bar>n\<bar> < 2 ^ 53 \<Longrightarrow> round64 False (of_int n) = Fin (of_int n)"
  using f64_ok_int[of n] by (cases "n = 0") (auto simp: round64_fixed fzero_def round64_0)

lemma float_of_int_exact [simp]: "\<bar>n\<bar> < 2 ^ 53 \<Longrightarrow> float_of_int n = Fin (of_int n)"
  by (simp add: float_of_int_def round64_int)

lemma f64_ok_simps [simp]: "f64_ok (Fin 0)" "f64_ok (Fin 1)"
  using f64_ok_int[of 0] f64_ok_int[of 1] by simp_all

lemma f64_ok_numeral [simp]: "(numeral k :: int) < 2 ^ 53 \<Longrightarrow> f64_ok (Fin (numeral k))"
  using f64_ok_int[of "numeral k"] by simp

subsection \<open>Finite operands\<close>

lemma round64_abs_le:
  assumes "\<bar>x\<bar> \<le> y" and "f64_ok (Fin y)"
  shows "is_fin (round64 s x)" and "\<bar>fval (round64 s x)\<bar> \<le> y"
  using r64.abs_le_fixed[of x y] assms by (auto simp: round64_def Let_def abs_le_iff abs_less_iff)

lemma fdiv_fin: "is_fin a \<Longrightarrow> is_fin b \<Longrightarrow> \<not> is_zero b \<Longrightarrow> fdiv a b = round64 (fsign a \<noteq> fsign b) (fval a / fval b)"
  by (cases a; cases b) (auto simp: fdiv_def)

lemma fadd_fin_val:
  assumes "is_fin a" and "is_fin b"
  shows "is_fin (fadd a b) = is_fin (round64 False (fval a + fval b))"
    and "fval (fadd a b) = fval (round64 False (fval a + fval b))"
  using fadd_fin[OF assms] unfolding feq_def
  by (cases "fadd a b"; cases "round64 False (fval a + fval b)"; simp)+

lemma round64_fin_val: "is_fin (round64 s x) \<Longrightarrow> fval (round64 s x) = rnd64 x"
  by (auto simp: round64_def Let_def split: if_splits)

lemma is_fin_fneg [simp]: "is_fin (fneg a) = is_fin a"
  by (cases a) auto

lemma fle_abs: "is_fin a \<Longrightarrow> \<bar>fval a\<bar> \<le> y \<Longrightarrow> fle (Fin (- y)) a \<and> fle a (Fin y)"
  by (cases a) (auto simp: abs_le_iff)

lemma f64_ok_half [simp]: "f64_ok (Fin (1 / 2))"
  using rnd64_dyadic[of 1 "- 1"] less_trans[OF _ fmax_bound_numeral(1), of "1 / 2"]
  by (simp add: power_int_minus field_simps)

text \<open>A value that is not below zero, or not a number: what sums of gains and losses are.\<close>

abbreviation nan_or_nonneg :: "f64 \<Rightarrow> bool" where
  "nan_or_nonneg x \<equiv> x = NaN \<or> fnonneg x"

lemma fadd_NaN [simp]: "fadd NaN b = NaN" "fadd a NaN = NaN"
  by (simp_all add: fadd_def)

lemma fmul_NaN [simp]: "fmul NaN b = NaN" "fmul a NaN = NaN"
  by (simp_all add: fmul_def)

lemma fdiv_NaN [simp]: "fdiv NaN b = NaN" "fdiv a NaN = NaN"
  by (simp_all add: fdiv_def)

lemma fsub_NaN [simp]: "fsub NaN b = NaN" "fsub a NaN = NaN"
  by (simp_all add: fsub_def)

lemma nan_or_nonneg_add: "nan_or_nonneg a \<Longrightarrow> nan_or_nonneg b \<Longrightarrow> nan_or_nonneg (fadd a b)"
  using fadd_nonneg by auto

lemma nan_or_nonneg_sub: "nan_or_nonneg a \<Longrightarrow> \<not> fnonneg d \<Longrightarrow> nan_or_nonneg (fsub a d)"
  using fadd_nonneg[of a "fneg d"] fle_fneg[of d "Fin 0"]
  by (cases d) (auto simp: fsub_def not_fle_iff)

lemma nan_or_nonneg_mul: "nan_or_nonneg a \<Longrightarrow> fnonneg b \<Longrightarrow> nan_or_nonneg (fmul a b)"
  using fmul_nonneg by auto

lemma nan_or_nonneg_div: "nan_or_nonneg a \<Longrightarrow> fpos b \<Longrightarrow> nan_or_nonneg (fdiv a b)"
  using fdiv_nonneg by auto

lemma float_of_int_ge_one: "1 \<le> n \<Longrightarrow> fle (Fin 1) (float_of_int n)"
  unfolding float_of_int_def by (rule round64_ge_fixed[OF _ f64_ok_simps(2)]) simp

subsection \<open>Evaluation\<close>

text \<open>A code equation that answers for short dyadic fractions without rounding.\<close>

lemma rnd64_short_dyadic:
  assumes "x = of_int n / of_int d" and "64 mod d = 0" and "0 < d" and "\<bar>n\<bar> < 2 ^ 47"
  shows "rnd64 x = x" and "\<bar>x\<bar> < fmax_bound"
proof -
  obtain k where k: "64 = d * k"
    using assms(2) by (meson dvd_def mod_eq_0_iff_dvd)
  then have k0: "0 < k" "k \<le> 64"
    using assms(3) by (smt (verit) mult_le_cancel_right1 zero_less_mult_pos)+
  have "(of_int d * of_int k :: rat) = 64"
    using arg_cong[OF k, of "of_int :: int \<Rightarrow> rat"] by simp
  then have "x * 64 = (x * of_int d) * of_int k"
    by (simp only: mult.assoc)
  also have "x * of_int d = of_int n"
    using assms(1,3) by simp
  finally have x: "x = of_int (n * k) * 2 powi (- 6)"
    by (simp add: power_int_minus field_simps)
  have "\<bar>n * k\<bar> \<le> \<bar>n\<bar> * 64"
    using k0 by (simp add: abs_mult mult_left_mono)
  then have b: "\<bar>n * k\<bar> < 2 ^ 53"
    using assms(4) by simp
  show "rnd64 x = x"
    unfolding x by (rule rnd64_dyadic[OF b]) simp
  have "\<bar>x\<bar> \<le> of_int \<bar>n * k\<bar>"
    unfolding x by (simp add: abs_mult power_int_minus field_simps)
  also have "\<dots> < of_int (2 ^ 53)"
    using b by (simp only: of_int_less_iff)
  finally show "\<bar>x\<bar> < fmax_bound"
    using fmax_bound_ge[of 53] by simp
qed

lemma round64_code [code]:
  "round64 s x = (let (n, d) = quotient_of x in
     if n \<noteq> 0 \<and> \<bar>n\<bar> < 140737488355328 \<and> 64 mod d = 0 then Fin x
     else let r = rnd64 x in
     if fmax_bound \<le> r then PInf
     else if r \<le> - fmax_bound then NInf
     else if r = 0 then (if s then NZero else Fin 0)
     else Fin r)"
proof -
  obtain n d where q: "quotient_of x = (n, d)"
    by fastforce
  note x = quotient_of_div[OF q] quotient_of_denom_pos[OF q]
  show ?thesis
  proof (cases "n \<noteq> 0 \<and> \<bar>n\<bar> < 140737488355328 \<and> 64 mod d = 0")
    case True
    then have "round64 s x = Fin x"
      using rnd64_short_dyadic[OF x(1) _ x(2)] x by (intro round64_fixed) auto
    then show ?thesis
      using True by (simp add: q)
  next
    case False
    then show ?thesis by (simp only: q Let_def prod.case if_False round64_def)
  qed
qed

end
