(* ===== verification/Go_Time.thy ===== *)
theory Go_Time
  imports Float64
begin

text \<open>
  The part of Go's \<open>time\<close> package the program uses. An instant is its number of
  nanoseconds since the Unix epoch (the location and the monotonic reading, which only
  affect printing and \<open>==\<close>, are not modelled: every time the program compares with \<open>==\<close>,
  as a map key, is built from the same base time). A duration is an \<open>int64\<close> of
  nanoseconds: \<open>Sub\<close> saturates, products wrap.
\<close>

type_synonym time = int
type_synonym duration = int

definition second :: duration where
  "second = 10 ^ 9"

definition minute :: duration where
  "minute = 60 * 10 ^ 9"

text \<open>The zero \<open>time.Time\<close>: January 1, year 1, 00:00:00 UTC.\<close>

definition zero_time :: time where
  "zero_time = - 62135596800 * 10 ^ 9"

definition is_zero_time :: "time \<Rightarrow> bool" where
  "is_zero_time t \<longleftrightarrow> t = zero_time"

definition time_add :: "time \<Rightarrow> duration \<Rightarrow> time" where
  "time_add t d = t + d"

definition time_sub :: "time \<Rightarrow> time \<Rightarrow> duration" where
  "time_sub t u = max min_int64 (min max_int64 (t - u))"

definition duration_mul :: "duration \<Rightarrow> duration \<Rightarrow> duration" where
  "duration_mul d e = wrap64 (d * e)"

definition time_unix :: "time \<Rightarrow> int" where
  "time_unix t = t div second"

definition unix_time :: "int \<Rightarrow> time" where
  "unix_time s = s * second"

text \<open>\<open>Duration.Seconds\<close> and \<open>Duration.Minutes\<close> split off the whole part and add the
  rest as a binary64 quotient.\<close>

definition duration_seconds :: "duration \<Rightarrow> f64" where
  "duration_seconds d =
     fadd (float_of_int (go_quot d second)) (fdiv (float_of_int (go_rem d second)) (flit (10 ^ 9)))"

definition duration_minutes :: "duration \<Rightarrow> f64" where
  "duration_minutes d =
     fadd (float_of_int (go_quot d minute)) (fdiv (float_of_int (go_rem d minute)) (flit (60 * 10 ^ 9)))"

section \<open>Whole units are exact\<close>

lemma go_quot_mult [simp]: "0 < b \<Longrightarrow> go_quot (k * b) b = k"
  by (cases k "0 :: int" rule: linorder_cases) (auto simp: go_quot_def sgn_mult abs_mult simp flip: mult_minus_left)

lemma go_rem_mult [simp]:
  assumes "0 < b"
  shows "go_rem (k * b) b = 0"
  unfolding go_rem_def go_quot_mult[OF assms] by simp

lemma fadd_Fin_zero: "f64_ok (Fin q) \<Longrightarrow> fadd (Fin q) (Fin 0) = Fin q"
  by (cases "q = 0") (simp_all add: fadd_def round64_fixed round64_0 fzero_def)

lemma flit_int: "\<bar>n\<bar> < 2 ^ 53 \<Longrightarrow> flit (of_int n) = Fin (of_int n)"
  using f64_ok_int[of n] by (cases "n = 0") (auto simp: flit_def round64_fixed round64_0 fzero_def)

lemma flit_numeral [simp]: "(numeral k :: int) < 2 ^ 53 \<Longrightarrow> flit (numeral k) = Fin (numeral k)"
  using flit_int[of "numeral k"] by simp

lemma flit_01 [simp]: "flit 0 = Fin 0" "flit 1 = Fin 1"
  using flit_int[of 0] flit_int[of 1] by simp_all

lemma fdiv_zero: "0 < q \<Longrightarrow> fdiv (Fin 0) (Fin q) = Fin 0"
  by (simp add: fdiv_def round64_0 fzero_def)

lemma duration_seconds_whole:
  assumes "\<bar>k\<bar> < 2 ^ 53"
  shows "duration_seconds (k * second) = Fin (of_int k)"
  using assms fadd_Fin_zero[OF f64_ok_int[OF assms]] float_of_int_exact[of 0]
  by (simp add: duration_seconds_def fdiv_zero second_def)

lemma duration_minutes_whole:
  assumes "\<bar>k\<bar> < 2 ^ 53"
  shows "duration_minutes (k * minute) = Fin (of_int k)"
  using assms fadd_Fin_zero[OF f64_ok_int[OF assms]] float_of_int_exact[of 0]
  by (simp add: duration_minutes_def fdiv_zero minute_def)

lemma time_sub_exact: "\<bar>t - u\<bar> < 2 ^ 63 \<Longrightarrow> time_sub t u = t - u"
  by (auto simp: time_sub_def min_int64_def max_int64_def)

lemma trunc_rat_int [simp]: "trunc_rat (of_int n) = n"
  by (simp add: trunc_rat_def flip: of_int_minus)

end
