(* ===== verification/Market.thy ===== *)
theory Market
  imports Go_Time
begin

text \<open>
  \<open>pkg/vespyr/exchange.go\<close>, and the plain data of \<open>models.go\<close>: products and their
  metadata, exchange messages, market orders, candlesticks and the stored models. The
  source's string types are strings here too; its constants are abbreviations.
\<close>

type_synonym product = string

abbreviation ProductBTCUSD :: string where "ProductBTCUSD \<equiv> ''BTC-USD''"
abbreviation ProductETHUSD :: string where "ProductETHUSD \<equiv> ''ETH-USD''"
abbreviation ProductLTCUSD :: string where "ProductLTCUSD \<equiv> ''LTC-USD''"
abbreviation ProductXMRUSD :: string where "ProductXMRUSD \<equiv> ''XMR-USD''"
abbreviation ProductBCHUSD :: string where "ProductBCHUSD \<equiv> ''BCH-USD''"
abbreviation ProductDashUSD :: string where "ProductDashUSD \<equiv> ''DASH-USD''"
abbreviation ProductZcashUSD :: string where "ProductZcashUSD \<equiv> ''ZEC-USD''"
abbreviation ProductXRPUSD :: string where "ProductXRPUSD \<equiv> ''XRP-USD''"
abbreviation CurrencyUSD :: string where "CurrencyUSD \<equiv> ''USD''"
abbreviation CurrencyBTC :: string where "CurrencyBTC \<equiv> ''BTC''"
abbreviation CurrencyETH :: string where "CurrencyETH \<equiv> ''ETH''"
abbreviation CurrencyLTC :: string where "CurrencyLTC \<equiv> ''LTC''"
abbreviation CurrencyXMR :: string where "CurrencyXMR \<equiv> ''XMR''"
abbreviation CurrencyBCH :: string where "CurrencyBCH \<equiv> ''BCH''"
abbreviation CurrencyDash :: string where "CurrencyDash \<equiv> ''DASH''"
abbreviation CurrencyZcash :: string where "CurrencyZcash \<equiv> ''ZEC''"
abbreviation CurrencyXRP :: string where "CurrencyXRP \<equiv> ''XRP''"
abbreviation MessageMatch :: string where "MessageMatch \<equiv> ''match''"
abbreviation CandlestickDirectionUp :: string where "CandlestickDirectionUp \<equiv> ''up''"
abbreviation CandlestickDirectionDown :: string where "CandlestickDirectionDown \<equiv> ''down''"
abbreviation OrderBuy :: string where "OrderBuy \<equiv> ''buy''"
abbreviation OrderSell :: string where "OrderSell \<equiv> ''sell''"

datatype exchange_type = ExchangeGDAX | ExchangeKraken

record product_metadata =
  pm_exchange :: exchange_type
  pm_buy_currency :: string
  pm_sell_currency :: string
  pm_fees_currency :: string

definition metadata :: "exchange_type \<Rightarrow> string \<Rightarrow> product_metadata" where
  "metadata ex sell = \<lparr>pm_exchange = ex, pm_buy_currency = CurrencyUSD,
     pm_sell_currency = sell, pm_fees_currency = CurrencyUSD\<rparr>"

definition ProductToMetadata :: "product \<rightharpoonup> product_metadata" where
  "ProductToMetadata = map_of
    [(ProductBTCUSD, metadata ExchangeGDAX CurrencyBTC),
     (ProductETHUSD, metadata ExchangeGDAX CurrencyETH),
     (ProductLTCUSD, metadata ExchangeGDAX CurrencyLTC),
     (ProductXMRUSD, metadata ExchangeKraken CurrencyXMR),
     (ProductBCHUSD, metadata ExchangeKraken CurrencyBCH),
     (ProductDashUSD, metadata ExchangeKraken CurrencyDash),
     (ProductZcashUSD, metadata ExchangeKraken CurrencyZcash),
     (ProductXRPUSD, metadata ExchangeKraken CurrencyXRP)]"

record exchange_message =
  em_price :: f64
  em_product :: string
  em_size :: f64
  em_type :: string
  em_time :: time

record market_order =
  mo_product :: product
  mo_side :: string
  mo_cost :: f64

definition NewMarketOrder :: "product \<Rightarrow> string \<Rightarrow> f64 \<Rightarrow> market_order" where
  "NewMarketOrder p side cost = \<lparr>mo_product = p, mo_side = side, mo_cost = cost\<rparr>"

record order_response =
  or_exchange_id :: string
  or_filled_size :: f64
  or_filled_currency :: string
  or_fees :: f64
  or_fees_currency :: string

text \<open>\<open>CandlestickModel\<close>.\<close>

record candlestick =
  cs_id :: int
  cs_created_at :: time
  cs_updated_at :: time
  cs_start :: time
  cs_end :: time
  cs_low :: f64
  cs_high :: f64
  cs_open :: f64
  cs_close :: f64
  cs_volume :: f64
  cs_direction :: string
  cs_product :: product

text \<open>The zero value, which a composite literal fills in.\<close>

definition zero_candlestick :: candlestick where
  "zero_candlestick = \<lparr>cs_id = 0, cs_created_at = zero_time, cs_updated_at = zero_time,
     cs_start = zero_time, cs_end = zero_time, cs_low = Fin 0, cs_high = Fin 0,
     cs_open = Fin 0, cs_close = Fin 0, cs_volume = Fin 0, cs_direction = [], cs_product = []\<rparr>"

text \<open>\<open>stats.Sum\<close> and \<open>stats.Mean\<close> of the vendored \<open>montanaflynn/stats\<close>.\<close>

definition stats_sum :: "f64 list \<Rightarrow> f64 go_result" where
  "stats_sum xs = (if xs = [] then Err (Errorf ''Input must not be empty'')
     else Ok (foldl fadd (Fin 0) xs))"

definition stats_mean :: "f64 list \<Rightarrow> f64 go_result" where
  "stats_mean xs = (if xs = [] then Err (Errorf ''Input must not be empty'')
     else Ok (fdiv (foldl fadd (Fin 0) xs) (float_of_int (int (length xs)))))"

definition mean_price :: "candlestick \<Rightarrow> f64 go_result" where
  "mean_price m = wrap_err ''error calculating candlestick mean''
     (stats_mean [cs_open m, cs_high m, cs_low m, cs_close m])"

definition mean4 :: "f64 \<Rightarrow> f64 \<Rightarrow> f64 \<Rightarrow> f64 \<Rightarrow> f64" where
  "mean4 a b c d = fdiv (foldl fadd (Fin 0) [a, b, c, d]) (Fin 4)"

text \<open>The price the indicators work with; \<open>MeanPrice\<close> never fails.\<close>

definition price :: "candlestick \<Rightarrow> f64" where
  "price m = mean4 (cs_open m) (cs_high m) (cs_low m) (cs_close m)"

lemma mean_price_Ok [simp]: "mean_price m = Ok (price m)"
proof -
  have "float_of_int 4 = Fin 4"
    using float_of_int_exact[of 4] by simp
  then show ?thesis
    by (simp add: mean_price_def stats_mean_def price_def mean4_def)
qed

lemma price_nonneg:
  assumes "fnonneg (cs_open m)" "fnonneg (cs_high m)" "fnonneg (cs_low m)" "fnonneg (cs_close m)"
  shows "fnonneg (price m)"
proof -
  have s: "fnonneg (foldl fadd (Fin 0) [cs_open m, cs_high m, cs_low m, cs_close m])"
    using assms by (simp add: fadd_nonneg)
  then have "fdiv (foldl fadd (Fin 0) [cs_open m, cs_high m, cs_low m, cs_close m]) (Fin 4) \<noteq> NaN"
    by (cases "foldl fadd (Fin 0) [cs_open m, cs_high m, cs_low m, cs_close m]")
      (auto simp: fdiv_def finf_def)
  with s show ?thesis
    unfolding price_def mean4_def by (intro fdiv_nonneg) auto
qed

lemma price_ok: "f64_ok (price m)"
  by (simp add: price_def mean4_def)

end
