(* ===== verification/Candlesticks.thy ===== *)
theory Candlesticks
  imports Market
begin

text \<open>
  \<open>pkg/vespyr/candlesticks.go\<close>: buckets of time, the candlestick builder, validation and
  reprojection. The two feeds of the builder (exchange messages and smaller candlesticks)
  share one contract, the locale \<open>ohlc_feed\<close>, in which the shape of the built candlestick
  is proved once; both handlers interpret it.
\<close>

section \<open>Buckets\<close>

definition candlestickBaseTime :: time where
  "candlestickBaseTime = unix_time 1223424000"

definition tick_duration :: "int \<Rightarrow> duration" where
  "tick_duration tickSizeMinutes = duration_mul (wrap64 tickSizeMinutes) minute"

text \<open>A zero divisor is Go's run-time panic.\<close>

definition CandlestickBucket :: "time \<Rightarrow> int \<Rightarrow> time go_result" where
  "CandlestickBucket t tickSizeMinutes =
    (let den = wrap64 (tickSizeMinutes * 60) in
     if den = 0 then Panic ''integer divide by zero''
     else
       let divide = wrap64 (go_quot (int64_of_float (duration_seconds (time_sub t candlestickBaseTime))) den)
       in Ok (time_add candlestickBaseTime
            (duration_mul (duration_mul divide (wrap64 tickSizeMinutes)) minute)))"

section \<open>Validation\<close>

fun validate_loop :: "time set \<Rightarrow> 'a list \<Rightarrow> time \<Rightarrow> duration \<Rightarrow> unit go_result" where
  "validate_loop seen [] initial d = Ok ()"
| "validate_loop seen (_ # cs) initial d =
     (if initial \<notin> seen then Err ErrMissingCandlestick
      else validate_loop seen cs (time_add initial d) d)"

definition ValidateCandlesticks :: "candlestick list \<Rightarrow> int \<Rightarrow> unit go_result" where
  "ValidateCandlesticks candles tickSizeMinutes =
    (case candles of
       [] \<Rightarrow> Panic ''index out of range''
     | c # _ \<Rightarrow> validate_loop (set (map cs_start candles)) candles (cs_start c)
                 (tick_duration tickSizeMinutes))"

section \<open>The builder\<close>

record candlestick_builder =
  cb_product :: product
  cb_start :: time
  cb_end :: time
  cb_low :: f64
  cb_high :: f64
  cb_open :: f64
  cb_close :: f64
  cb_volume :: f64

definition NewCandlestickBuilder :: "product \<Rightarrow> time \<Rightarrow> time \<Rightarrow> candlestick_builder" where
  "NewCandlestickBuilder p s e = \<lparr>cb_product = p, cb_start = s, cb_end = e, cb_low = Fin 0,
     cb_high = Fin 0, cb_open = Fin 0, cb_close = Fin 0, cb_volume = Fin 0\<rparr>"

definition Build :: "candlestick_builder \<Rightarrow> candlestick" where
  "Build c = zero_candlestick\<lparr>cs_start := cb_start c, cs_end := cb_end c, cs_low := cb_low c,
     cs_high := cb_high c, cs_open := cb_open c, cs_close := cb_close c,
     cs_volume := cb_volume c, cs_product := cb_product c,
     cs_direction := (if fle (cb_open c) (cb_close c) then CandlestickDirectionUp
                      else CandlestickDirectionDown)\<rparr>"

definition set_if_zero :: "f64 \<Rightarrow> f64 \<Rightarrow> f64" where
  "set_if_zero cur v = (if feq cur (Fin 0) then v else cur)"

definition ProcessCandlestickModel :: "candlestick_builder \<Rightarrow> candlestick \<Rightarrow> candlestick_builder" where
  "ProcessCandlestickModel c e =
    (if cs_product e \<noteq> cb_product c then c
     else if cs_start e > cb_end c then c
     else if cs_start e < cb_start c then c
     else if cs_end e < cb_start c then c
     else if cs_end e > cb_end c then c
     else
       let low = set_if_zero (cb_low c) (cs_low e);
           high = set_if_zero (cb_high c) (cs_high e);
           open = set_if_zero (cb_open c) (cs_open e)
       in c\<lparr>cb_volume := fadd (cb_volume c) (cs_volume e),
            cb_low := (if flt (cs_low e) low then cs_low e else low),
            cb_high := (if flt high (cs_high e) then cs_high e else high),
            cb_open := open,
            cb_close := cs_close e\<rparr>)"

definition ProcessMessage :: "candlestick_builder \<Rightarrow> exchange_message \<Rightarrow> candlestick_builder" where
  "ProcessMessage c e =
    (if em_type e \<noteq> MessageMatch then c
     else if em_product e \<noteq> cb_product c then c
     else if em_time e > cb_end c then c
     else if em_time e < cb_start c then c
     else
       let low = set_if_zero (cb_low c) (em_price e);
           high = set_if_zero (cb_high c) (em_price e);
           open = set_if_zero (cb_open c) (em_price e)
       in c\<lparr>cb_volume := fadd (cb_volume c) (em_size e),
            cb_low := (if flt (em_price e) low then em_price e else low),
            cb_high := (if flt high (em_price e) then em_price e else high),
            cb_open := open,
            cb_close := em_price e\<rparr>)"

section \<open>Reprojection\<close>

text \<open>
  The loop that lays out the buckets. It does not end when the step is not positive,
  which is the value \<open>None\<close>.
\<close>

partial_function (option) bucket_loop :: "time \<Rightarrow> time \<Rightarrow> duration \<Rightarrow> time list option" where
  "bucket_loop i end step =
    (if i < end \<or> i = end
     then Option.bind (bucket_loop (time_add i step) end step) (\<lambda>bs. Some (i # bs))
     else Some [])"

type_synonym builders = "time \<rightharpoonup> candlestick_builder"

definition make_builders :: "product \<Rightarrow> duration \<Rightarrow> time list \<Rightarrow> builders" where
  "make_builders p step bs =
     (\<lambda>b. if b \<in> set bs then Some (NewCandlestickBuilder p b (time_add b step)) else None)"

fun feed_builders :: "builders \<Rightarrow> candlestick list \<Rightarrow> int \<Rightarrow> builders go_result" where
  "feed_builders m [] tick = Ok m"
| "feed_builders m (c # cs) tick =
    bind_result (CandlestickBucket (cs_start c) tick) (\<lambda>bucket.
      case m bucket of
        None \<Rightarrow> Err (Errorf ''error: missing candlestick builder for bucket'')
      | Some b \<Rightarrow> feed_builders (m(bucket \<mapsto> ProcessCandlestickModel b c)) cs tick)"

fun build_all :: "builders \<Rightarrow> int list \<Rightarrow> candlestick list go_result" where
  "build_all m [] = Ok []"
| "build_all m (u # us) =
    (case m (unix_time u) of
       None \<Rightarrow> Panic ''invalid memory address or nil pointer dereference''
     | Some b \<Rightarrow> bind_result (build_all m us) (\<lambda>cs. Ok (Build b # cs)))"

definition ReprojectCandlesticks ::
  "candlestick list \<Rightarrow> product \<Rightarrow> int \<Rightarrow> candlestick list go_result" where
  "ReprojectCandlesticks candles product tick =
    (if candles = [] then Err (Errorf ''error: no candles provided'')
     else
       bind_result (CandlestickBucket (cs_start (hd candles)) tick) (\<lambda>start.
       bind_result (CandlestickBucket (cs_start (last candles)) tick) (\<lambda>end.
       case bucket_loop start end (tick_duration tick) of
         None \<Rightarrow> Diverge
       | Some bs \<Rightarrow>
           bind_result (feed_builders (make_builders product (tick_duration tick) bs) candles tick) (\<lambda>m.
             build_all m (sort (map time_unix bs))))))"

section \<open>Properties of buckets\<close>

text \<open>
  The instants the theorems about buckets speak of: whole seconds (as every candlestick
  boundary is) from the base time on, before the base-relative duration can overflow.
\<close>

definition bucket_window :: "time \<Rightarrow> bool" where
  "bucket_window t \<longleftrightarrow> candlestickBaseTime \<le> t \<and> t - candlestickBaseTime < 2 ^ 62 \<and> second dvd t"

text \<open>Tick sizes in minutes: positive, at most a million (about two years).\<close>

definition valid_tick :: "int \<Rightarrow> bool" where
  "valid_tick m \<longleftrightarrow> 0 < m \<and> m \<le> 10 ^ 6"

definition bucket_of :: "int \<Rightarrow> time \<Rightarrow> time" where
  "bucket_of m t = candlestickBaseTime + (t - candlestickBaseTime) div (m * minute) * (m * minute)"

lemma second_dvd_base [simp]: "second dvd candlestickBaseTime"
  by (simp add: candlestickBaseTime_def unix_time_def)

lemma tick_duration_valid: "valid_tick m \<Longrightarrow> tick_duration m = m * minute"
  by (simp add: valid_tick_def tick_duration_def duration_mul_def minute_def in_int64I)

lemma CandlestickBucket_eq:
  assumes t: "bucket_window t" and m: "valid_tick m"
  shows "CandlestickBucket t m = Ok (bucket_of m t)"
proof -
  obtain k where k: "t - candlestickBaseTime = k * second"
    using t by (metis bucket_window_def dvd_def dvd_diff mult.commute second_dvd_base)
  have "0 \<le> k * second" and "k * second < 2 ^ 62"
    using t by (simp_all add: bucket_window_def flip: k)
  then have k0: "0 \<le> k" "k * 10 ^ 9 < 2 ^ 62"
    by (auto simp: second_def zero_le_mult_iff)
  have k1: "k < 2 ^ 53"
    using k0 by simp
  define q where "q = k div (m * 60)"
  have q: "0 \<le> q" "q * (m * 60) \<le> k"
    using k0 m div_mult_mod_eq[of k "m * 60"] pos_mod_sign[of "m * 60" k]
    unfolding q_def valid_tick_def by (simp_all add: pos_imp_zdiv_nonneg_iff, linarith)
  have qm: "q * m * 60 * 10 ^ 9 \<le> k * 10 ^ 9"
    using q(2) by (simp add: mult.assoc mult.left_commute)
  have "q \<le> q * m" and "0 \<le> q * m"
    using q m by (auto simp: valid_tick_def mult_le_cancel_left1)
  then have small: "in_int64 k" "in_int64 q" "in_int64 (q * m)" "in_int64 (q * m * minute)" "in_int64 m" "in_int64 (m * 60)"
    using k0 k1 q qm m by (auto intro!: in_int64I simp: minute_def valid_tick_def)
  have "time_sub t candlestickBaseTime = k * second"
    using time_sub_exact[of t candlestickBaseTime] k0 by (simp add: k second_def)
  then have "int64_of_float (duration_seconds (time_sub t candlestickBaseTime)) = k"
    using duration_seconds_whole[of k] k0 k1 small(1) by simp
  moreover have "(t - candlestickBaseTime) div (m * minute) = q"
  proof -
    have "(t - candlestickBaseTime) div (m * minute) = k * second div (m * 60 * second)"
      by (simp add: k minute_def second_def)
    also have "\<dots> = q"
      unfolding q_def by (rule div_mult_mult2) (simp add: second_def)
    finally show ?thesis .
  qed
  ultimately show ?thesis
    using small m k0 unfolding CandlestickBucket_def bucket_of_def
    by (simp add: Let_def go_quot_pos q_def[symmetric] duration_mul_def time_add_def valid_tick_def mult.assoc)
qed

lemma bucket_of_bounds:
  assumes "valid_tick m"
  shows "bucket_of m t \<le> t" and "t < bucket_of m t + m * minute"
proof -
  have p: "0 < m * minute"
    using assms by (simp add: valid_tick_def minute_def)
  have "t - candlestickBaseTime = (t - candlestickBaseTime) div (m * minute) * (m * minute)
      + (t - candlestickBaseTime) mod (m * minute)"
    by (rule div_mult_mod_eq[symmetric])
  then show "bucket_of m t \<le> t" and "t < bucket_of m t + m * minute"
    using pos_mod_sign[OF p, of "t - candlestickBaseTime"] pos_mod_bound[OF p, of "t - candlestickBaseTime"]
    unfolding bucket_of_def by linarith+
qed

lemma bucket_of_mono:
  assumes "valid_tick m" and "s \<le> t"
  shows "bucket_of m s \<le> bucket_of m t"
  using assms by (simp add: bucket_of_def valid_tick_def minute_def zdiv_mono1 mult_right_mono)

lemma bucket_of_grid: "m * minute dvd bucket_of m t - candlestickBaseTime"
  by (simp add: bucket_of_def)

lemma bucket_of_unique:
  assumes m: "valid_tick m" and "m * minute dvd b - candlestickBaseTime" and "b \<le> t" and "t < b + m * minute"
  shows "bucket_of m t = b"
proof -
  obtain k where k: "b - candlestickBaseTime = m * minute * k"
    using assms(2) by (auto simp: dvd_def)
  have p: "0 < m * minute"
    using m by (simp add: valid_tick_def minute_def)
  have "(t - candlestickBaseTime) div (m * minute) = k"
    using assms(3,4) k p by (intro int_div_pos_eq[where r = "t - b"]) auto
  then show ?thesis
    using k by (simp add: bucket_of_def mult.commute)
qed

lemma bucket_of_idem: "valid_tick m \<Longrightarrow> bucket_of m (bucket_of m t) = bucket_of m t"
  using bucket_of_unique[OF _ bucket_of_grid, of m t "bucket_of m t"] by (simp add: valid_tick_def minute_def)

lemma second_dvd_bucket: "second dvd bucket_of m t"
proof -
  have "second dvd m * minute"
    by (simp add: minute_def second_def)
  then show ?thesis
    unfolding bucket_of_def by (intro dvd_add) auto
qed

section \<open>What a builder holds\<close>

text \<open>
  The abstract contract of a builder: of the entries it accepted, the first open, the
  last close, the least low, the greatest high and the sum of the volumes (in the order
  of arrival, in binary64).
\<close>

definition is_least :: "f64 \<Rightarrow> f64 list \<Rightarrow> bool" where
  "is_least x xs \<longleftrightarrow> x \<in> set xs \<and> (\<forall>y \<in> set xs. fle x y)"

definition is_greatest :: "f64 \<Rightarrow> f64 list \<Rightarrow> bool" where
  "is_greatest x xs \<longleftrightarrow> x \<in> set xs \<and> (\<forall>y \<in> set xs. fle y x)"

definition ohlc_of ::
  "candlestick_builder \<Rightarrow> f64 list \<Rightarrow> f64 list \<Rightarrow> f64 list \<Rightarrow> f64 list \<Rightarrow> f64 list \<Rightarrow> bool" where
  "ohlc_of b los his ops cls vols \<longleftrightarrow>
     cb_volume b = foldl fadd (Fin 0) vols \<and>
     (if vols = [] then cb_low b = Fin 0 \<and> cb_high b = Fin 0 \<and> cb_open b = Fin 0 \<and> cb_close b = Fin 0
      else is_least (cb_low b) los \<and> is_greatest (cb_high b) his \<and>
           cb_open b = hd ops \<and> cb_close b = last cls)"

definition absorb :: "candlestick_builder \<Rightarrow> f64 \<Rightarrow> f64 \<Rightarrow> f64 \<Rightarrow> f64 \<Rightarrow> f64 \<Rightarrow> candlestick_builder" where
  "absorb c lo hi op cl vol =
     (let low = set_if_zero (cb_low c) lo; high = set_if_zero (cb_high c) hi
      in c\<lparr>cb_volume := fadd (cb_volume c) vol,
           cb_low := (if flt lo low then lo else low),
           cb_high := (if flt high hi then hi else high),
           cb_open := set_if_zero (cb_open c) op, cb_close := cl\<rparr>)"

lemma fpos_not_zero: "fpos x \<Longrightarrow> \<not> feq x (Fin 0)"
  by (cases x) (auto simp: feq_def)

lemma set_if_zero_pos [simp]: "fpos x \<Longrightarrow> set_if_zero x v = x"
  by (simp add: set_if_zero_def fpos_not_zero)

lemma set_if_zero_zero [simp]: "set_if_zero (Fin 0) v = v"
  by (simp add: set_if_zero_def)

lemma is_least_snoc:
  assumes "is_least x xs" and "y \<noteq> NaN"
  shows "is_least (if flt y x then y else x) (xs @ [y])"
proof -
  have x: "x \<noteq> NaN" "\<forall>z \<in> set xs. fle x z"
    using assms(1) fle_not_NaN by (auto simp: is_least_def)
  show ?thesis
    using assms x flt_fle_trans[THEN flt_fle] by (auto simp: is_least_def not_flt_iff)
qed

lemma is_greatest_snoc:
  assumes "is_greatest x xs" and "y \<noteq> NaN"
  shows "is_greatest (if flt x y then y else x) (xs @ [y])"
proof -
  have x: "x \<noteq> NaN" "\<forall>z \<in> set xs. fle z x"
    using assms(1) fle_not_NaN by (auto simp: is_greatest_def)
  show ?thesis
    using assms x fle_flt_trans[THEN flt_fle] by (auto simp: is_greatest_def not_flt_iff)
qed

locale ohlc_feed =
  fixes feed :: "candlestick_builder \<Rightarrow> 'e \<Rightarrow> candlestick_builder"
    and accepts :: "product \<Rightarrow> time \<Rightarrow> time \<Rightarrow> 'e \<Rightarrow> bool"
    and lo hi op cl vol :: "'e \<Rightarrow> f64"
  assumes reject: "\<not> accepts (cb_product b) (cb_start b) (cb_end b) e \<Longrightarrow> feed b e = b"
    and accept: "accepts (cb_product b) (cb_start b) (cb_end b) e \<Longrightarrow>
      feed b e = absorb b (lo e) (hi e) (op e) (cl e) (vol e)"
begin

lemma frame:
  "cb_product (feed b e) = cb_product b" "cb_start (feed b e) = cb_start b" "cb_end (feed b e) = cb_end b"
  using accept[of b e] reject[of b e]
  by (cases "accepts (cb_product b) (cb_start b) (cb_end b) e"; simp add: absorb_def Let_def)+

lemma frame_all:
  "cb_product (foldl feed b es) = cb_product b" "cb_start (foldl feed b es) = cb_start b"
  "cb_end (foldl feed b es) = cb_end b"
  by (induction es arbitrary: b) (simp_all add: frame)

lemma feed_all_filter:
  "foldl feed b es = foldl feed b (filter (accepts (cb_product b) (cb_start b) (cb_end b)) es)"
proof (induction es arbitrary: b)
  case (Cons e es)
  show ?case
    using Cons.IH[of "feed b e"] by (cases "accepts (cb_product b) (cb_start b) (cb_end b) e") (simp_all add: frame reject)
qed simp

lemma summary_accepted:
  assumes "\<forall>e \<in> set es. accepts p s t e \<and> fpos (lo e) \<and> fpos (hi e) \<and> fpos (op e)"
  shows "ohlc_of (foldl feed (NewCandlestickBuilder p s t) es)
    (map lo es) (map hi es) (map op es) (map cl es) (map vol es)"
  using assms
proof (induction es rule: rev_induct)
  case Nil
  show ?case by (simp add: ohlc_of_def NewCandlestickBuilder_def)
next
  case (snoc e es)
  define b where "b = foldl feed (NewCandlestickBuilder p s t) es"
  have IH: "ohlc_of b (map lo es) (map hi es) (map op es) (map cl es) (map vol es)"
    using snoc by (simp add: b_def)
  have pos: "fpos (lo e)" "fpos (hi e)" "fpos (op e)"
    using snoc.prems by simp_all
  then have nn: "lo e \<noteq> NaN" "hi e \<noteq> NaN"
    by auto
  have "accepts (cb_product b) (cb_start b) (cb_end b) e"
    using snoc.prems unfolding b_def frame_all by (simp add: NewCandlestickBuilder_def)
  then have f: "foldl feed (NewCandlestickBuilder p s t) (es @ [e]) = absorb b (lo e) (hi e) (op e) (cl e) (vol e)"
    by (simp add: accept flip: b_def)
  show ?case
  proof (cases "es = []")
    case True
    then show ?thesis
      using IH nn unfolding f by (simp add: ohlc_of_def absorb_def is_least_def is_greatest_def)
  next
    case False
    then have bs: "is_least (cb_low b) (map lo es)" "is_greatest (cb_high b) (map hi es)"
        "cb_open b = op (hd es)"
      using IH by (simp_all add: ohlc_of_def hd_map)
    then have "fpos (cb_low b)" "fpos (cb_high b)" "fpos (cb_open b)"
      using snoc.prems False by (auto simp: is_least_def is_greatest_def)
    then show ?thesis
      using IH False bs is_least_snoc[OF bs(1) nn(1)] is_greatest_snoc[OF bs(2) nn(2)]
      unfolding f by (simp add: ohlc_of_def absorb_def Let_def hd_append hd_map)
  qed
qed

lemma summary:
  assumes "\<forall>e \<in> set es. accepts p s t e \<longrightarrow> fpos (lo e) \<and> fpos (hi e) \<and> fpos (op e)"
    and "xs = filter (accepts p s t) es"
  shows "ohlc_of (foldl feed (NewCandlestickBuilder p s t) es)
    (map lo xs) (map hi xs) (map op xs) (map cl xs) (map vol xs)"
  using summary_accepted[of xs p s t] feed_all_filter[of "NewCandlestickBuilder p s t" es] assms
  by (simp add: NewCandlestickBuilder_def)

end

definition accepts_message :: "product \<Rightarrow> time \<Rightarrow> time \<Rightarrow> exchange_message \<Rightarrow> bool" where
  "accepts_message p s t e \<longleftrightarrow> em_type e = MessageMatch \<and> em_product e = p \<and> em_time e \<le> t \<and> s \<le> em_time e"

definition accepts_candle :: "product \<Rightarrow> time \<Rightarrow> time \<Rightarrow> candlestick \<Rightarrow> bool" where
  "accepts_candle p s t e \<longleftrightarrow> cs_product e = p \<and> cs_start e \<le> t \<and> s \<le> cs_start e \<and> s \<le> cs_end e \<and> cs_end e \<le> t"

interpretation msg: ohlc_feed ProcessMessage accepts_message em_price em_price em_price em_price em_size
  by unfold_locales (auto simp: ProcessMessage_def accepts_message_def absorb_def Let_def)

interpretation cndl: ohlc_feed ProcessCandlestickModel accepts_candle cs_low cs_high cs_open cs_close cs_volume
  by unfold_locales (auto simp: ProcessCandlestickModel_def accepts_candle_def absorb_def Let_def)

section \<open>The bucket loop\<close>

definition consecutive :: "time \<Rightarrow> duration \<Rightarrow> nat \<Rightarrow> time list" where
  "consecutive start step n = map (\<lambda>k. start + int k * step) [0..<n]"

lemma consecutive_Suc: "consecutive i step (Suc n) = i # consecutive (i + step) step n"
proof -
  have "[0..<Suc n] = 0 # map Suc [0..<n]"
    by (simp add: map_Suc_upt upt_conv_Cons)
  then show ?thesis
    by (simp add: consecutive_def algebra_simps comp_def)
qed

lemma set_consecutive: "set (consecutive start step n) = {start + int k * step | k. k < n}"
  by (auto simp: consecutive_def)

lemma sorted_consecutive: "0 \<le> step \<Longrightarrow> sorted (consecutive start step n)"
  by (auto simp: consecutive_def sorted_iff_nth_mono intro: mult_right_mono)

definition bucket_count :: "time \<Rightarrow> time \<Rightarrow> duration \<Rightarrow> nat" where
  "bucket_count i end step = (if i \<le> end then nat ((end - i) div step) + 1 else 0)"

lemma bucket_loop_terminates:
  assumes "0 < step"
  shows "bucket_loop i end step = Some (consecutive i step (bucket_count i end step))"
proof (induction "nat (end + 1 - i)" arbitrary: i rule: less_induct)
  case less
  show ?case
  proof (cases "i \<le> end")
    case False
    then show ?thesis
      by (simp add: bucket_loop.simps bucket_count_def consecutive_def)
  next
    case True
    then have "nat (end + 1 - (i + step)) < nat (end + 1 - i)"
      using assms by simp
    note IH = less[OF this]
    have "bucket_count i end step = Suc (bucket_count (i + step) end step)"
    proof (cases "i + step \<le> end")
      case le: True
      have "(end - i) div step = (end - (i + step)) div step + 1"
        using assms div_pos_geq[of step "end - i"] le by (simp add: algebra_simps)
      moreover have "0 \<le> (end - (i + step)) div step"
        using assms le by (simp add: pos_imp_zdiv_nonneg_iff)
      ultimately show ?thesis
        using True le by (simp add: bucket_count_def nat_add_distrib)
    next
      case lt: False
      then have "(end - i) div step = 0"
        using True by (intro div_pos_pos_trivial) auto
      then show ?thesis
        using lt True by (simp add: bucket_count_def)
    qed
    then show ?thesis
      using True IH by (subst bucket_loop.simps) (auto simp: time_add_def consecutive_Suc)
  qed
qed

lemma bucket_loop_diverges:
  assumes "step \<le> 0" and "i \<le> end"
  shows "bucket_loop i end step = None"
proof (rule ccontr)
  assume "bucket_loop i end step \<noteq> None"
  then obtain bs where "bucket_loop i end step = Some bs"
    by auto
  then have "i \<le> end \<longrightarrow> \<not> step \<le> 0"
  proof (rule bucket_loop.raw_induct[where P = "\<lambda>i end step _. i \<le> end \<longrightarrow> \<not> step \<le> 0", rotated])
    fix f i "end" step bs
    assume IH: "\<And>i end step bs. f i end step = Some bs \<Longrightarrow> i \<le> end \<longrightarrow> \<not> step \<le> 0"
      and eq: "(if i < end \<or> i = end then Option.bind (f (time_add i step) end step) (\<lambda>bs. Some (i # bs)) else Some []) = Some bs"
    show "i \<le> end \<longrightarrow> \<not> step \<le> 0"
      using eq IH[of "time_add i step" "end" step]
      by (auto simp: time_add_def bind_eq_Some_conv split: if_splits)
  qed
  with assms show False by simp
qed

section \<open>Reprojection, bucket by bucket\<close>

lemma sorted_hd_last_bounds:
  assumes "sorted (map f xs)" and "x \<in> set xs"
  shows "f (hd xs) \<le> f x \<and> f x \<le> f (last xs)"
  using assms by (induction xs) auto

definition in_bucket :: "int \<Rightarrow> time \<Rightarrow> candlestick \<Rightarrow> bool" where
  "in_bucket tick b c \<longleftrightarrow> bucket_of tick (cs_start c) = b"

definition projected :: "candlestick list \<Rightarrow> product \<Rightarrow> int \<Rightarrow> time \<Rightarrow> candlestick" where
  "projected candles p tick b =
     Build (foldl ProcessCandlestickModel (NewCandlestickBuilder p b (b + tick * minute))
       (filter (in_bucket tick b) candles))"

lemma feed_builders_Ok:
  assumes "\<forall>c \<in> set cs. bucket_window (cs_start c) \<and> bucket_of tick (cs_start c) \<in> dom m"
    and "valid_tick tick"
  shows "feed_builders m cs tick =
    Ok (\<lambda>b. map_option (\<lambda>x. foldl ProcessCandlestickModel x (filter (in_bucket tick b) cs)) (m b))"
  using assms(1)
proof (induction cs arbitrary: m)
  case Nil
  show ?case by (simp add: option.map_ident)
next
  case (Cons c cs)
  obtain x where x: "m (bucket_of tick (cs_start c)) = Some x"
    using Cons.prems by (auto simp: dom_def)
  define m' where "m' = m(bucket_of tick (cs_start c) \<mapsto> ProcessCandlestickModel x c)"
  have "feed_builders m (c # cs) tick = feed_builders m' cs tick"
    using Cons.prems x by (simp add: CandlestickBucket_eq assms(2) m'_def)
  also have "\<dots> = Ok (\<lambda>b. map_option (\<lambda>x. foldl ProcessCandlestickModel x (filter (in_bucket tick b) cs)) (m' b))"
    using Cons.prems by (intro Cons.IH) (auto simp: m'_def)
  also have "(\<lambda>b. map_option (\<lambda>x. foldl ProcessCandlestickModel x (filter (in_bucket tick b) cs)) (m' b)) =
      (\<lambda>b. map_option (\<lambda>x. foldl ProcessCandlestickModel x (filter (in_bucket tick b) (c # cs))) (m b))"
    using x by (auto simp: m'_def in_bucket_def)
  finally show ?case .
qed

lemma build_all_Ok:
  assumes "\<forall>u \<in> set us. m (unix_time u) = Some (f (unix_time u))"
  shows "build_all m us = Ok (map (\<lambda>u. Build (f (unix_time u))) us)"
  using assms by (induction us) auto

lemma sort_unix:
  assumes "sorted bs" and "\<forall>b \<in> set bs. second dvd b"
  shows "sort (map time_unix bs) = map time_unix bs" and "map unix_time (map time_unix bs) = bs"
proof -
  have "sorted (map time_unix bs)"
    using assms(1) by (induction bs) (auto simp: time_unix_def second_def intro: zdiv_mono1)
  then show "sort (map time_unix bs) = map time_unix bs"
    by (rule sorted_sort_id)
  show "map unix_time (map time_unix bs) = bs"
    using assms(2) by (simp add: unix_time_def time_unix_def map_idI)
qed

lemma bucket_covered:
  assumes srt: "sorted (map cs_start candles)" and c: "c \<in> set candles" and tick: "valid_tick tick"
    and first: "first = bucket_of tick (cs_start (hd candles))" and final: "final = bucket_of tick (cs_start (last candles))"
  shows "bucket_of tick (cs_start c) \<in> set (consecutive first (tick * minute) (bucket_count first final (tick * minute)))"
proof -
  define d b where "d = tick * minute" and "b = bucket_of tick (cs_start c)"
  have d: "0 < d"
    using tick by (simp add: d_def valid_tick_def minute_def)
  have "cs_start (hd candles) \<le> cs_start c" and "cs_start c \<le> cs_start (last candles)"
    using srt c sorted_hd_last_bounds[of cs_start candles] by auto
  then have fb: "first \<le> b" "b \<le> final"
    unfolding first final b_def by (simp_all add: bucket_of_mono[OF tick])
  have "d dvd b - first"
    using dvd_diff[OF bucket_of_grid[of tick "cs_start c"] bucket_of_grid[of tick "cs_start (hd candles)"]]
    by (simp add: d_def b_def first)
  then obtain k where k: "b - first = k * d"
    by (metis dvd_def mult.commute)
  then have "0 \<le> k * d" and "k * d \<le> final - first"
    using fb by linarith+
  then have "0 \<le> k" "k \<le> (final - first) div d"
    using d zdiv_mono1[of "k * d" "final - first" d] by (auto simp: zero_le_mult_iff)
  then have "b = first + int (nat k) * d" "nat k < bucket_count first final d"
    using k fb by (auto simp: bucket_count_def)
  then show ?thesis
    unfolding set_consecutive d_def[symmetric] b_def[symmetric] by blast
qed

lemma reproject_buckets:
  assumes ne: "candles \<noteq> []" and srt: "sorted (map cs_start candles)"
    and win: "\<forall>c \<in> set candles. bucket_window (cs_start c)" and tick: "valid_tick tick"
    and first: "first = bucket_of tick (cs_start (hd candles))"
    and final: "final = bucket_of tick (cs_start (last candles))"
    and bs: "bs = consecutive first (tick * minute) (bucket_count first final (tick * minute))"
  shows "ReprojectCandlesticks candles p tick = Ok (map (projected candles p tick) bs)"
    and "\<forall>c \<in> set candles. bucket_of tick (cs_start c) \<in> set bs"
proof -
  define d where "d = tick * minute"
  have d: "0 < d" "tick_duration tick = d"
    using tick by (simp_all add: d_def valid_tick_def minute_def tick_duration_valid)
  show cover: "\<forall>c \<in> set candles. bucket_of tick (cs_start c) \<in> set bs"
    unfolding bs by (intro ballI bucket_covered[OF srt _ tick first final])
  have sec: "\<forall>b \<in> set bs. second dvd b"
  proof -
    have "second dvd first" and "second dvd d"
      unfolding first d_def by (rule second_dvd_bucket) (simp add: minute_def second_def)
    then show ?thesis
      unfolding bs set_consecutive d_def[symmetric] by auto
  qed
  have so: "sorted bs"
    unfolding bs using d by (simp add: sorted_consecutive d_def)
  define m where "m = make_builders p d bs"
  define m' where "m' = (\<lambda>b. map_option (\<lambda>x. foldl ProcessCandlestickModel x (filter (in_bucket tick b) candles)) (m b))"
  have "feed_builders m candles tick = Ok m'"
    unfolding m'_def using win cover tick by (intro feed_builders_Ok) (auto simp: m_def make_builders_def dom_def)
  moreover have "build_all m' (map time_unix bs) = Ok (map (projected candles p tick) bs)"
  proof -
    have "m' b = Some (foldl ProcessCandlestickModel (NewCandlestickBuilder p b (b + tick * minute)) (filter (in_bucket tick b) candles))"
      if "b \<in> set bs" for b
      using that by (simp add: m'_def m_def make_builders_def time_add_def d_def)
    moreover have "unix_time (time_unix b) = b" if "b \<in> set bs" for b
      using sec that by (simp add: unix_time_def time_unix_def)
    ultimately show ?thesis
      by (subst build_all_Ok[where f = "\<lambda>b. foldl ProcessCandlestickModel (NewCandlestickBuilder p b (b + tick * minute)) (filter (in_bucket tick b) candles)"])
        (auto simp: projected_def)
  qed
  moreover have "bucket_loop first final d = Some bs"
    unfolding bs d_def[symmetric] by (rule bucket_loop_terminates[OF d(1)])
  moreover have "bucket_window (cs_start (hd candles))" "bucket_window (cs_start (last candles))"
    using win ne by auto
  ultimately show "ReprojectCandlesticks candles p tick = Ok (map (projected candles p tick) bs)"
    unfolding ReprojectCandlesticks_def
    using ne d CandlestickBucket_eq[OF _ tick] sort_unix[OF so sec]
    by (simp add: first[symmetric] final[symmetric] m_def)
qed

text \<open>
  Candlesticks of the right product that end inside their bucket are all accepted by the
  builder of that bucket.
\<close>

definition fits_bucket :: "product \<Rightarrow> int \<Rightarrow> candlestick \<Rightarrow> bool" where
  "fits_bucket p tick c \<longleftrightarrow> cs_product c = p \<and> cs_start c \<le> cs_end c \<and>
     cs_end c \<le> bucket_of tick (cs_start c) + tick * minute"

definition positive_candle :: "candlestick \<Rightarrow> bool" where
  "positive_candle c \<longleftrightarrow> fpos (cs_low c) \<and> fpos (cs_high c) \<and> fpos (cs_open c)"

lemma projected_times:
  "cs_start (projected cs p tick b) = b" "cs_end (projected cs p tick b) = b + tick * minute"
  "cs_product (projected cs p tick b) = p"
  by (simp_all add: projected_def Build_def cndl.frame_all NewCandlestickBuilder_def)

lemma projected_ohlc:
  assumes "valid_tick tick"
    and "\<forall>c \<in> set candles. fits_bucket p tick c \<and> positive_candle c"
    and xs: "xs = filter (in_bucket tick b) candles"
  shows "ohlc_of (foldl ProcessCandlestickModel (NewCandlestickBuilder p b (b + tick * minute)) xs)
    (map cs_low xs) (map cs_high xs) (map cs_open xs) (map cs_close xs) (map cs_volume xs)"
proof (rule cndl.summary)
  show "\<forall>e \<in> set xs. accepts_candle p b (b + tick * minute) e \<longrightarrow>
      fpos (cs_low e) \<and> fpos (cs_high e) \<and> fpos (cs_open e)"
    using assms(2) by (auto simp: xs positive_candle_def)
  have "accepts_candle p b (b + tick * minute) c" if "c \<in> set xs" for c
    using that assms bucket_of_bounds[OF assms(1), of "cs_start c"]
    by (force simp: accepts_candle_def fits_bucket_def in_bucket_def)
  then show "xs = filter (accepts_candle p b (b + tick * minute)) xs"
    by (simp add: filter_id_conv)
qed

section \<open>Validation\<close>

lemma validate_loop_Ok_iff:
  "validate_loop seen cs t d = Ok () \<longleftrightarrow> (\<forall>i < length cs. t + int i * d \<in> seen)"
proof (induction cs arbitrary: t)
  case (Cons c cs)
  have "(\<forall>i < Suc n. P i) \<longleftrightarrow> P 0 \<and> (\<forall>i < n. P (Suc i))" for P and n :: nat
    using less_Suc_eq_0_disj by auto
  then show ?case
    using Cons.IH[of "time_add t d"] by (simp add: time_add_def algebra_simps)
qed simp

lemma validate_loop_cases:
  "validate_loop seen cs t d = Ok () \<or> validate_loop seen cs t d = Err ErrMissingCandlestick"
  by (induction cs arbitrary: t) auto

end
