(* ===== verification/Candlestick_Specs.thy ===== *)
theory Candlestick_Specs
  imports Candlesticks
begin

text \<open>
  The properties of \<open>candlesticks.go\<close>: the bucket of an instant, what a builder holds
  after a stream of exchange messages, reprojection onto a coarser tick, validation.
\<close>

text \<open>Buckets: for a whole second from the base time on, \<open>CandlestickBucket\<close> returns the grid
  point of the tick at or before it and less than one tick away, and that grid point is its own
  bucket.\<close>

theorem bucket_is_floor:
  assumes "bucket_window t" and "valid_tick m"
  shows "\<exists>b. CandlestickBucket t m = Ok b \<and> b \<le> t \<and> t < b + tick_duration m \<and>
    tick_duration m dvd b - candlestickBaseTime \<and> CandlestickBucket b m = Ok b"
proof (intro exI conjI)
  show "CandlestickBucket t m = Ok (bucket_of m t)"
    by (rule CandlestickBucket_eq[OF assms])
  show "bucket_of m t \<le> t" "t < bucket_of m t + tick_duration m"
    using bucket_of_bounds[OF assms(2), of t] by (simp_all add: tick_duration_valid[OF assms(2)])
  show "tick_duration m dvd bucket_of m t - candlestickBaseTime"
    using bucket_of_grid[of m t] by (simp add: tick_duration_valid[OF assms(2)])
  have "bucket_window (bucket_of m t)"
  proof -
    have "0 \<le> (t - candlestickBaseTime) div (m * minute) * (m * minute)"
      using assms by (simp add: bucket_window_def valid_tick_def minute_def pos_imp_zdiv_nonneg_iff)
    then show ?thesis
      using assms(1) bucket_of_bounds(1)[OF assms(2), of t] second_dvd_bucket[of m t]
      unfolding bucket_window_def bucket_of_def by linarith
  qed
  then show "CandlestickBucket (bucket_of m t) m = Ok (bucket_of m t)"
    using CandlestickBucket_eq[OF _ assms(2)] bucket_of_idem[OF assms(2)] by simp
qed

lemma bucket_is_floor_witness:
  "\<exists>b. CandlestickBucket (unix_time 1500000000) 15 = Ok b \<and> b \<le> unix_time 1500000000 \<and>
    unix_time 1500000000 < b + tick_duration 15 \<and> tick_duration 15 dvd b - candlestickBaseTime \<and>
    CandlestickBucket b 15 = Ok b"
  by (rule bucket_is_floor)
    (simp_all add: bucket_window_def valid_tick_def candlestickBaseTime_def unix_time_def second_def)

text \<open>Buckets of instants between seconds: the seconds since the base time are rounded to
  binary64 before they are truncated, so from April 2017 on the last nanoseconds of a minute
  round up. The bucket of such an instant lies after it.\<close>

theorem bucket_after_instant:
  "\<exists>t b. t = candlestickBaseTime + 268435500 * second - 1 \<and> CandlestickBucket t 1 = Ok b \<and> t < b"
proof (intro exI conjI)
  show "CandlestickBucket (candlestickBaseTime + 268435500 * second - 1) 1 = Ok (candlestickBaseTime + 268435500 * second)"
    by code_simp
qed (simp_all add: second_def)

text \<open>Builder over exchange messages: after any messages, in any order, a new builder holds of
  the trades of its product within its bounds the first price as open, the last as close, the
  least and the greatest, and the volumes summed in order; without any such trade it is all
  zeros. Everything else is ignored. Prices must be above zero, as the builder takes a zero
  for a field that is not set yet.\<close>

theorem builder_summarises_messages:
  assumes "\<forall>e \<in> set es. accepts_message p s t e \<longrightarrow> fpos (em_price e)"
    and "xs = filter (accepts_message p s t) es"
  shows "ohlc_of (foldl ProcessMessage (NewCandlestickBuilder p s t) es)
    (map em_price xs) (map em_price xs) (map em_price xs) (map em_price xs) (map em_size xs)"
  using assms by (intro msg.summary) auto

definition trade :: "time \<Rightarrow> rat \<Rightarrow> rat \<Rightarrow> exchange_message" where
  "trade t p s = \<lparr>em_price = Fin p, em_product = ProductBTCUSD, em_size = Fin s, em_type = MessageMatch, em_time = t\<rparr>"

lemma builder_summarises_messages_witness:
  "ohlc_of (foldl ProcessMessage (NewCandlestickBuilder ProductBTCUSD 0 60) [trade 1 5 2, trade 2 3 1, trade 61 9 9, trade 3 4 1])
    [Fin 5, Fin 3, Fin 4] [Fin 5, Fin 3, Fin 4] [Fin 5, Fin 3, Fin 4] [Fin 5, Fin 3, Fin 4] [Fin 2, Fin 1, Fin 1]"
  using builder_summarises_messages[of "[trade 1 5 2, trade 2 3 1, trade 61 9 9, trade 3 4 1]" ProductBTCUSD 0 60
      "[trade 1 5 2, trade 2 3 1, trade 3 4 1]"]
  by (simp add: trade_def accepts_message_def)

text \<open>What the two properties of reprojection share with the proofs about the candlesticks a bot
  finds: each candlestick has its bucket in the result, and each bucket has its shape.\<close>

lemma reprojected_cover:
  assumes "candles \<noteq> []" and "sorted (map cs_start candles)"
    and "\<forall>c \<in> set candles. bucket_window (cs_start c)" and "valid_tick tick"
  obtains out where "ReprojectCandlesticks candles p tick = Ok out"
    and "\<forall>c \<in> set candles. \<exists>o' \<in> set out. in_bucket tick (cs_start o') c"
  using reproject_buckets[OF assms refl refl refl] by (auto simp: in_bucket_def projected_times)

lemma reprojected_shape:
  assumes "ReprojectCandlesticks candles p tick = Ok out" and "o' \<in> set out"
    and "candles \<noteq> []" and "sorted (map cs_start candles)"
    and "\<forall>c \<in> set candles. bucket_window (cs_start c) \<and> fits_bucket p tick c \<and> positive_candle c"
    and "valid_tick tick" and "xs = filter (in_bucket tick (cs_start o')) candles"
  shows "cs_volume o' = foldl fadd (Fin 0) (map cs_volume xs) \<and>
    (if xs = [] then cs_low o' = Fin 0 \<and> cs_high o' = Fin 0 \<and> cs_open o' = Fin 0 \<and> cs_close o' = Fin 0
     else is_least (cs_low o') (map cs_low xs) \<and> is_greatest (cs_high o') (map cs_high xs) \<and>
       cs_open o' = cs_open (hd xs) \<and> cs_close o' = cs_close (last xs))"
proof -
  have win: "\<forall>c \<in> set candles. bucket_window (cs_start c)"
    using assms(5) by blast
  from reproject_buckets(1)[OF assms(3,4) win assms(6) refl refl refl]
  obtain b where b: "o' = projected candles p tick b"
    using assms(1,2) by auto
  then have xs: "xs = filter (in_bucket tick b) candles"
    by (simp add: assms(7) projected_times)
  have "ohlc_of (foldl ProcessCandlestickModel (NewCandlestickBuilder p b (b + tick * minute)) xs)
      (map cs_low xs) (map cs_high xs) (map cs_open xs) (map cs_close xs) (map cs_volume xs)"
    using assms(5) by (intro projected_ohlc[OF assms(6) _ xs]) blast
  then show ?thesis
    by (auto simp: b projected_def Build_def ohlc_of_def hd_map last_map simp flip: xs)
qed

text \<open>C19. Reprojection: candlesticks in order of time, none before the base time, become one
  candlestick per tick, from the bucket of the first to the bucket of the last without a gap;
  each of them is built from exactly the candlesticks that start in its bucket, and carries
  the product and the bounds of the bucket.\<close>

theorem reproject_one_per_bucket:
  assumes "candles \<noteq> []" and "sorted (map cs_start candles)"
    and "\<forall>c \<in> set candles. bucket_window (cs_start c)" and "valid_tick tick"
  shows "\<exists>out. ReprojectCandlesticks candles p tick = Ok out \<and>
    map cs_start out = consecutive (bucket_of tick (cs_start (hd candles))) (tick_duration tick) (length out) \<and>
    cs_start (last out) = bucket_of tick (cs_start (last candles)) \<and>
    (\<forall>c \<in> set candles. \<exists>o' \<in> set out. in_bucket tick (cs_start o') c) \<and>
    (\<forall>o' \<in> set out. cs_end o' = cs_start o' + tick_duration tick \<and> cs_product o' = p \<and>
       o' = Build (foldl ProcessCandlestickModel (NewCandlestickBuilder p (cs_start o') (cs_end o'))
              (filter (in_bucket tick (cs_start o')) candles)))"
proof -
  define first final d where "first = bucket_of tick (cs_start (hd candles))"
    and "final = bucket_of tick (cs_start (last candles))" and "d = tick * minute"
  define n bs where "n = bucket_count first final d" and "bs = consecutive first d n"
  have d: "0 < d" "tick_duration tick = d"
    using assms(4) by (simp_all add: d_def valid_tick_def minute_def tick_duration_valid)
  define out where "out = map (projected candles p tick) bs"
  have out: "ReprojectCandlesticks candles p tick = Ok out"
    and cover: "\<forall>c \<in> set candles. bucket_of tick (cs_start c) \<in> set bs"
    unfolding out_def
    by (rule reproject_buckets[OF assms first_def final_def bs_def[unfolded n_def d_def]])+
  have starts: "map cs_start out = bs" and len: "length out = n"
    by (simp_all add: out_def comp_def projected_times bs_def consecutive_def)
  have fl: "first \<le> final"
    unfolding first_def final_def using sorted_hd_last_bounds[OF assms(2), of "last candles"] assms(1)
    by (intro bucket_of_mono[OF assms(4)]) simp
  have "d dvd final - first"
    using dvd_diff[OF bucket_of_grid[of tick "cs_start (last candles)"] bucket_of_grid[of tick "cs_start (hd candles)"]]
    by (simp add: d_def first_def final_def)
  then have "first + (final - first) div d * d = final"
    by simp
  moreover have n: "0 < n" "int (n - 1) = (final - first) div d"
    using fl d(1) by (simp_all add: n_def bucket_count_def pos_imp_zdiv_nonneg_iff)
  ultimately have "last bs = final"
    by (simp add: bs_def consecutive_def last_map last_upt)
  then have last: "cs_start (last out) = final"
    using n(1) starts len last_map[of out cs_start] by (cases out) auto
  show ?thesis
  proof (intro exI conjI)
    show "\<forall>c \<in> set candles. \<exists>o' \<in> set out. in_bucket tick (cs_start o') c"
      using cover by (auto simp: out_def in_bucket_def projected_times)
    show "\<forall>o' \<in> set out. cs_end o' = cs_start o' + tick_duration tick \<and> cs_product o' = p \<and>
       o' = Build (foldl ProcessCandlestickModel (NewCandlestickBuilder p (cs_start o') (cs_end o'))
              (filter (in_bucket tick (cs_start o')) candles))"
      using d(2) by (auto simp: out_def projected_times d_def) (simp add: projected_def)
  qed (use out starts len last d in \<open>simp_all add: bs_def first_def final_def\<close>)
qed

definition minute_candle :: "int \<Rightarrow> rat \<Rightarrow> candlestick" where
  "minute_candle k p = zero_candlestick\<lparr>cs_start := candlestickBaseTime + k * minute,
     cs_end := candlestickBaseTime + (k + 1) * minute, cs_low := Fin p, cs_high := Fin p,
     cs_open := Fin p, cs_close := Fin p, cs_volume := Fin 1, cs_product := ProductBTCUSD\<rparr>"

lemma minute_candle_window [simp]:
  assumes "0 \<le> k" and "k < 1000"
  shows "bucket_window (cs_start (minute_candle k p))"
proof -
  have "second dvd candlestickBaseTime + k * minute"
    by (intro dvd_add second_dvd_base dvd_mult) (simp add: minute_def second_def)
  then show ?thesis
    using assms by (simp add: minute_candle_def bucket_window_def) (simp add: minute_def)
qed

lemma minute_candle_order [simp]:
  "cs_start (minute_candle j p) \<le> cs_start (minute_candle k q) \<longleftrightarrow> j \<le> k"
  by (simp add: minute_candle_def minute_def)

lemma reproject_one_per_bucket_witness:
  "\<exists>out. ReprojectCandlesticks [minute_candle 0 5, minute_candle 1 7, minute_candle 4 6] ProductBTCUSD 2 = Ok out \<and>
    map cs_start out = consecutive (bucket_of 2 (cs_start (hd [minute_candle 0 5, minute_candle 1 7, minute_candle 4 6])))
      (tick_duration 2) (length out) \<and>
    cs_start (last out) = bucket_of 2 (cs_start (last [minute_candle 0 5, minute_candle 1 7, minute_candle 4 6])) \<and>
    (\<forall>c \<in> set [minute_candle 0 5, minute_candle 1 7, minute_candle 4 6]. \<exists>o' \<in> set out. in_bucket 2 (cs_start o') c) \<and>
    (\<forall>o' \<in> set out. cs_end o' = cs_start o' + tick_duration 2 \<and> cs_product o' = ProductBTCUSD \<and>
       o' = Build (foldl ProcessCandlestickModel (NewCandlestickBuilder ProductBTCUSD (cs_start o') (cs_end o'))
              (filter (in_bucket 2 (cs_start o')) [minute_candle 0 5, minute_candle 1 7, minute_candle 4 6])))"
  by (rule reproject_one_per_bucket)
    (auto simp: valid_tick_def)

text \<open>C20. Reprojection keeps the shape of the market: when the candlesticks are of the product, end
  inside their bucket and have positive prices, each candlestick of the result has the first
  open, the last close, the least low, the greatest high and the volumes, summed in order, of
  those that start in its bucket; an empty bucket gives a candlestick without volume.\<close>

theorem reproject_ohlc:
  assumes "ReprojectCandlesticks candles p tick = Ok out" and "o' \<in> set out"
    and "candles \<noteq> []" and "sorted (map cs_start candles)"
    and "\<forall>c \<in> set candles. bucket_window (cs_start c) \<and> fits_bucket p tick c \<and> positive_candle c"
    and "valid_tick tick" and "xs = filter (in_bucket tick (cs_start o')) candles"
  shows "cs_volume o' = foldl fadd (Fin 0) (map cs_volume xs) \<and>
    (if xs = [] then cs_low o' = Fin 0 \<and> cs_high o' = Fin 0 \<and> cs_open o' = Fin 0 \<and> cs_close o' = Fin 0
     else is_least (cs_low o') (map cs_low xs) \<and> is_greatest (cs_high o') (map cs_high xs) \<and>
       cs_open o' = cs_open (hd xs) \<and> cs_close o' = cs_close (last xs))"
  using assms by (rule reprojected_shape)

lemma reproject_ohlc_witness:
  "cs_volume (projected [minute_candle 0 5, minute_candle 1 7] ProductBTCUSD 2 candlestickBaseTime) = Fin 2 \<and>
   cs_open (projected [minute_candle 0 5, minute_candle 1 7] ProductBTCUSD 2 candlestickBaseTime) = Fin 5 \<and>
   cs_close (projected [minute_candle 0 5, minute_candle 1 7] ProductBTCUSD 2 candlestickBaseTime) = Fin 7"
proof -
  define cs where "cs = [minute_candle 0 5, minute_candle 1 7]"
  define out where "out = projected cs ProductBTCUSD 2 candlestickBaseTime"
  have b: "bucket_of 2 (cs_start (minute_candle 0 5)) = candlestickBaseTime"
    "bucket_of 2 (cs_start (minute_candle 1 7)) = candlestickBaseTime"
    by code_simp+
  have st: "cs_start out = candlestickBaseTime"
    by (simp add: out_def projected_times)
  have "ReprojectCandlesticks cs ProductBTCUSD 2 = Ok [out]"
  proof -
    have "ReprojectCandlesticks cs ProductBTCUSD 2 = Ok (map (projected cs ProductBTCUSD 2)
        (consecutive candlestickBaseTime (2 * minute) (bucket_count candlestickBaseTime candlestickBaseTime (2 * minute))))"
      using b by (intro reproject_buckets(1))
        (auto simp: cs_def valid_tick_def)
    then show ?thesis
      by (simp add: bucket_count_def consecutive_def out_def)
  qed
  from reproject_ohlc[OF this, of out cs]
  have "cs_volume out = foldl fadd (Fin 0) (map cs_volume cs) \<and>
      (is_least (cs_low out) (map cs_low cs) \<and> is_greatest (cs_high out) (map cs_high cs) \<and>
       cs_open out = cs_open (hd cs) \<and> cs_close out = cs_close (last cs))"
    using b by (simp add: cs_def valid_tick_def in_bucket_def st fits_bucket_def positive_candle_def)
      (simp add: minute_candle_def minute_def)
  moreover have "foldl fadd (Fin 0) (map cs_volume cs) = Fin 2"
    unfolding cs_def by code_simp
  ultimately show ?thesis
    by (simp add: out_def cs_def minute_candle_def)
qed

text \<open>Validation: on a list that is not empty \<open>ValidateCandlesticks\<close> succeeds exactly when the
  starting times include every tick from the first candlestick's on, as many as there are
  candlesticks, and otherwise answers \<open>ErrMissingCandlestick\<close>; the empty list panics.\<close>

theorem validate_iff_no_gap:
  "ValidateCandlesticks candles tick =
    (if candles = [] then Panic ''index out of range''
     else if (\<lambda>i. cs_start (hd candles) + int i * tick_duration tick) ` {0..<length candles} \<subseteq> cs_start ` set candles
     then Ok () else Err ErrMissingCandlestick)"
proof (cases candles)
  case (Cons c cs)
  have "(\<lambda>i. cs_start (hd candles) + int i * tick_duration tick) ` {0..<length candles} \<subseteq> cs_start ` set candles \<longleftrightarrow>
      (\<forall>i < length candles. cs_start (hd candles) + int i * tick_duration tick \<in> cs_start ` set candles)"
    by (auto simp: image_subset_iff)
  then show ?thesis
    using validate_loop_Ok_iff[of "cs_start ` set candles" candles "cs_start (hd candles)" "tick_duration tick"]
      validate_loop_cases[of "cs_start ` set candles" candles "cs_start (hd candles)" "tick_duration tick"]
    by (simp only: ValidateCandlesticks_def Cons list.sel list.simps(3) if_False) auto
qed (simp add: ValidateCandlesticks_def)

text \<open>Reprojection ends in a list that validates: whatever gaps the candlesticks had, the
  result has none.\<close>

theorem reproject_validates:
  assumes "candles \<noteq> []" and "sorted (map cs_start candles)"
    and "\<forall>c \<in> set candles. bucket_window (cs_start c)" and "valid_tick tick"
  shows "\<exists>out. ReprojectCandlesticks candles p tick = Ok out \<and> ValidateCandlesticks out tick = Ok ()"
proof -
  define first d n where "first = bucket_of tick (cs_start (hd candles))" and "d = tick * minute"
    and "n = bucket_count first (bucket_of tick (cs_start (last candles))) d"
  have d: "tick_duration tick = d"
    by (simp add: d_def tick_duration_valid[OF assms(4)])
  define out where "out = map (projected candles p tick) (consecutive first d n)"
  have out: "ReprojectCandlesticks candles p tick = Ok out"
    unfolding out_def by (rule reproject_buckets(1)[OF assms first_def refl]) (simp add: n_def d_def)
  have starts: "map cs_start out = consecutive first d n"
    by (simp add: out_def comp_def projected_times)
  have "bucket_of tick (cs_start (hd candles)) \<in> set (consecutive first d n)"
    using reproject_buckets(2)[OF assms first_def refl refl] assms(1) by (simp add: n_def d_def)
  then obtain c cs where oc: "out = c # cs"
    by (cases out) (auto simp flip: starts)
  have "validate_loop (set (consecutive first d n)) out first d = Ok ()"
    using starts by (auto simp: validate_loop_Ok_iff set_consecutive out_def consecutive_def)
  moreover have "cs_start c = first"
    using starts oc by (cases n) (auto simp: consecutive_Suc, simp add: consecutive_def)
  ultimately have "ValidateCandlesticks out tick = Ok ()"
    using starts oc d by (simp add: ValidateCandlesticks_def)
  with out show ?thesis by blast
qed

lemma reproject_validates_witness:
  "\<exists>out. ReprojectCandlesticks [minute_candle 0 5, minute_candle 9 7] ProductBTCUSD 2 = Ok out \<and>
    ValidateCandlesticks out 2 = Ok ()"
  by (rule reproject_validates)
    (auto simp: valid_tick_def)

text \<open>The loop that lays out the buckets ends exactly when the tick is longer than zero or there
  is nothing to lay out, and then its result is the evenly spaced list up to the last bucket.\<close>

theorem bucket_loop_ends_iff:
  "bucket_loop i end step =
    (if 0 < step \<or> end < i then Some (consecutive i step (bucket_count i end step)) else None)"
proof (cases "0 < step")
  case True
  then show ?thesis by (simp add: bucket_loop_terminates)
next
  case False
  then show ?thesis
    using bucket_loop_diverges[of step i "end"]
    by (auto simp: bucket_loop.simps[of i] bucket_count_def consecutive_def)
qed

end
