(* ===== verification/Indicators.thy ===== *)
theory Indicators
  imports Candlesticks
begin

text \<open>
  The technical indicators: \<open>ema.go\<close> (simple and exponential moving averages and their
  normalised difference), \<open>rsi.go\<close> and \<open>macd.go\<close>. An indicator is a mutable object of
  the source: \<open>AddCandlestick\<close> returns the new state beside the outcome, since a Go
  method keeps what it wrote even when it returns an error. The locale \<open>indicator_law\<close>
  is the interface \<open>Indicator\<close> with the laws the trading code relies on; all five
  implementations and their sum interpret it.
\<close>

record indicator_value =
  iv_time :: time
  iv_value :: f64
  iv_name :: string

abbreviation IndicatorEMA :: string where "IndicatorEMA \<equiv> ''ema''"
abbreviation IndicatorDEMA :: string where "IndicatorDEMA \<equiv> ''dema''"
abbreviation IndicatorRSI :: string where "IndicatorRSI \<equiv> ''rsi''"
abbreviation IndicatorMACD :: string where "IndicatorMACD \<equiv> ''macd''"
abbreviation IndicatorMACDWithSignal :: string where "IndicatorMACDWithSignal \<equiv> ''macd-with-signal''"

section \<open>Moving averages\<close>

fun sma_loop :: "f64 list \<Rightarrow> int list \<Rightarrow> f64 \<Rightarrow> int \<Rightarrow> (f64 \<times> int) go_result" where
  "sma_loop vs [] acc num = Ok (acc, num)"
| "sma_loop vs (i # is) acc num =
    (if i < 0 then sma_loop vs is acc num
     else if int (length vs) \<le> i then Panic ''index out of range''
     else sma_loop vs is (fadd acc (vs ! nat i)) (wrap64 (num + 1)))"

definition SMA :: "u64 \<Rightarrow> f64 list \<Rightarrow> u64 \<Rightarrow> f64 go_result" where
  "SMA period vs index =
    bind_result
      (sma_loop vs [wrap64 (wrap64 (sint index - sint period) + 1)..sint index] (Fin 0) 0)
      (\<lambda>(acc, num). Ok (fdiv acc (float_of_int num)))"

fun FloatDiff :: "f64 list \<Rightarrow> f64 list \<Rightarrow> f64 list go_result" where
  "FloatDiff [] b = Ok []"
| "FloatDiff (v # a) [] = Panic ''index out of range''"
| "FloatDiff (v # a) (w # b) = bind_result (FloatDiff a b) (\<lambda>r. Ok (fsub v w # r))"

record ema_indicator =
  ema_last_time :: time
  ema_last :: f64
  ema_values :: "f64 list"
  ema_period :: u64

definition NewEMAIndicator :: "u64 \<Rightarrow> ema_indicator" where
  "NewEMAIndicator period =
     \<lparr>ema_last_time = zero_time, ema_last = Fin 0, ema_values = [], ema_period = period\<rparr>"

text \<open>The recurrence \<open>constant*(price-last) + last\<close> with \<open>constant = 2 / (period + 1)\<close>.\<close>

definition ema_step :: "u64 \<Rightarrow> f64 \<Rightarrow> f64 \<Rightarrow> f64" where
  "ema_step period prev p =
    (let constant = fdiv (Fin 2) (fadd (float_of_int (uint period)) (Fin 1))
     in fadd (fmul constant (fsub p prev)) prev)"

definition ema_add :: "ema_indicator \<Rightarrow> candlestick \<Rightarrow> ema_indicator \<times> unit go_result" where
  "ema_add e c =
    (if feq (cs_volume c) (Fin 0) then (e, Ok ())
     else case mean_price c of
       Err err \<Rightarrow> (e, Err (Wrapf err ''error calculating mean candlestick price''))
     | Panic s \<Rightarrow> (e, Panic s)
     | Diverge \<Rightarrow> (e, Diverge)
     | Ok p \<Rightarrow>
       let e1 = e\<lparr>ema_last_time := cs_start c\<rparr>;
           n = word_of_nat (length (ema_values e1));
           step = (e1\<lparr>ema_last := ema_step (ema_period e1) (ema_last e1) p\<rparr>, Ok ())
       in if feq (ema_last e1) (Fin 0) then
            if n < ema_period e1 - 1 then (e1\<lparr>ema_values := ema_values e1 @ [p]\<rparr>, Ok ())
            else if n = ema_period e1 - 1 then
              let e2 = e1\<lparr>ema_values := ema_values e1 @ [p]\<rparr>
              in case SMA (ema_period e2) (ema_values e2) (ema_period e2 - 1) of
                   Ok v \<Rightarrow> (e2\<lparr>ema_last := v, ema_values := []\<rparr>, Ok ())
                 | Err err \<Rightarrow> (e2, Err err)
                 | Panic s \<Rightarrow> (e2, Panic s)
                 | Diverge \<Rightarrow> (e2, Diverge)
            else step
          else step)"

definition ema_name :: "ema_indicator \<Rightarrow> string" where
  "ema_name e = IndicatorEMA @ ''-'' @ show_u64 (ema_period e)"

definition ema_value :: "ema_indicator \<Rightarrow> indicator_value go_result" where
  "ema_value e =
    (if feq (ema_last e) (Fin 0) then Err ErrNotEnoughData
     else Ok \<lparr>iv_time = ema_last_time e, iv_value = ema_last e, iv_name = ema_name e\<rparr>)"

record dema_indicator =
  dema_last_time :: time
  dema_short :: ema_indicator
  dema_long :: ema_indicator

definition NewDEMAIndicator :: "u64 \<Rightarrow> u64 \<Rightarrow> dema_indicator" where
  "NewDEMAIndicator shortPeriod longPeriod =
     \<lparr>dema_last_time = zero_time, dema_short = NewEMAIndicator shortPeriod,
      dema_long = NewEMAIndicator longPeriod\<rparr>"

definition dema_name :: "dema_indicator \<Rightarrow> string" where
  "dema_name d = IndicatorDEMA @ ''-'' @ show_u64 (ema_period (dema_short d)) @ ''-'' @
     show_u64 (ema_period (dema_long d))"

definition dema_add :: "dema_indicator \<Rightarrow> candlestick \<Rightarrow> dema_indicator \<times> unit go_result" where
  "dema_add d c =
    (if feq (cs_volume c) (Fin 0) then (d, Ok ())
     else case ema_add (dema_short d) c of
       (s, Ok _) \<Rightarrow>
         (case ema_add (dema_long d) c of
            (l, Ok _) \<Rightarrow> (d\<lparr>dema_short := s, dema_long := l, dema_last_time := cs_start c\<rparr>, Ok ())
          | (l, r) \<Rightarrow> (d\<lparr>dema_short := s, dema_long := l\<rparr>, wrap_err ''error adding candlestick to long EMA'' r))
     | (s, r) \<Rightarrow> (d\<lparr>dema_short := s\<rparr>, wrap_err ''error adding candlestick to short EMA'' r))"

definition dema_value :: "dema_indicator \<Rightarrow> indicator_value go_result" where
  "dema_value d =
    bind_result (wrap_err ''error calculating short EMA'' (ema_value (dema_short d))) (\<lambda>short.
    bind_result (wrap_err ''error calculating long EMA'' (ema_value (dema_long d))) (\<lambda>long.
      Ok \<lparr>iv_time = dema_last_time d,
          iv_value = fdiv (fdiv (fsub (iv_value short) (iv_value long))
                                (fadd (iv_value short) (iv_value long))) (Fin 2),
          iv_name = dema_name d\<rparr>))"

section \<open>RSI\<close>

record rsi_indicator =
  rsi_iterations :: u64
  rsi_periods :: u64
  rsi_last_value :: f64
  rsi_sum_gains :: f64
  rsi_sum_losses :: f64
  rsi_average_gain :: f64
  rsi_average_loss :: f64
  rsi_current :: f64
  rsi_last_time :: time

definition NewRSIIndicator :: "u64 \<Rightarrow> rsi_indicator" where
  "NewRSIIndicator periods =
     \<lparr>rsi_iterations = 0, rsi_periods = periods, rsi_last_value = Fin 0, rsi_sum_gains = Fin 0,
      rsi_sum_losses = Fin 0, rsi_average_gain = Fin 0, rsi_average_loss = Fin 0,
      rsi_current = Fin 0, rsi_last_time = zero_time\<rparr>"

definition rsiFromRS :: "f64 \<Rightarrow> f64" where
  "rsiFromRS rs = fsub (Fin 100) (fdiv (Fin 100) (fadd (Fin 1) rs))"

text \<open>The case distinction on the averages, which the source writes twice.\<close>

definition rsi_of_averages :: "f64 \<Rightarrow> f64 \<Rightarrow> f64" where
  "rsi_of_averages gain loss =
    (if feq gain (Fin 0) \<and> feq loss (Fin 0) then Fin 50
     else if feq gain (Fin 0) then Fin 0
     else if feq loss (Fin 0) then Fin 100
     else rsiFromRS (fdiv gain loss))"

text \<open>\<open>AddCandlestick\<close> after the deferred function is registered, without the deferred part.\<close>

definition rsi_body :: "rsi_indicator \<Rightarrow> f64 \<Rightarrow> rsi_indicator" where
  "rsi_body r p =
    (if rsi_iterations r = 0 then r
     else
       let diff = fsub p (rsi_last_value r);
           r1 = (if fle (Fin 0) diff then r\<lparr>rsi_sum_gains := fadd (rsi_sum_gains r) diff\<rparr>
                 else r\<lparr>rsi_sum_losses := fsub (rsi_sum_losses r) diff\<rparr>);
           periods = float_of_int (uint (rsi_periods r1));
           set_averages = (\<lambda>g l. r1\<lparr>rsi_average_gain := g, rsi_average_loss := l,
                                   rsi_current := rsi_of_averages g l\<rparr>)
       in if rsi_iterations r1 < rsi_periods r1 then r1
          else if rsi_iterations r1 = rsi_periods r1 then
            set_averages (fdiv (rsi_sum_gains r1) periods) (fdiv (rsi_sum_losses r1) periods)
          else
            set_averages
              (if fle (Fin 0) diff
               then fdiv (fadd (fmul (rsi_average_gain r1) (fsub periods (Fin 1))) diff) (Fin 14)
               else fdiv (fmul (rsi_average_gain r1) (fsub periods (Fin 1))) (Fin 14))
              (if flt diff (Fin 0)
               then fdiv (fsub (fmul (rsi_average_loss r1) (fsub periods (Fin 1))) diff) (Fin 14)
               else fdiv (fmul (rsi_average_loss r1) (fsub periods (Fin 1))) (Fin 14)))"

definition rsi_add :: "rsi_indicator \<Rightarrow> candlestick \<Rightarrow> rsi_indicator \<times> unit go_result" where
  "rsi_add r c =
    (if feq (cs_volume c) (Fin 0) then (r, Ok ())
     else case mean_price c of
       Err err \<Rightarrow> (r, Err (Wrapf err ''error calculating mean price''))
     | Panic s \<Rightarrow> (r, Panic s)
     | Diverge \<Rightarrow> (r, Diverge)
     | Ok p \<Rightarrow>
       let r1 = rsi_body r p
       in (r1\<lparr>rsi_iterations := rsi_iterations r1 + 1, rsi_last_value := p,
              rsi_last_time := cs_start c\<rparr>, Ok ()))"

definition rsi_name :: "rsi_indicator \<Rightarrow> string" where
  "rsi_name r = IndicatorRSI @ ''-'' @ show_u64 (rsi_periods r)"

definition rsi_value :: "rsi_indicator \<Rightarrow> indicator_value go_result" where
  "rsi_value r =
    (if rsi_iterations r \<le> rsi_periods r then Err ErrNotEnoughData
     else Ok \<lparr>iv_time = rsi_last_time r, iv_value = rsi_current r, iv_name = rsi_name r\<rparr>)"

section \<open>MACD\<close>

record macd_indicator =
  macd_short_period :: u64
  macd_long_period :: u64
  macd_short :: ema_indicator
  macd_long :: ema_indicator
  macd_last_time :: time

definition NewMACDIndicator :: "u64 \<Rightarrow> u64 \<Rightarrow> macd_indicator" where
  "NewMACDIndicator shortPeriod longPeriod =
     \<lparr>macd_short_period = shortPeriod, macd_long_period = longPeriod,
      macd_short = NewEMAIndicator shortPeriod, macd_long = NewEMAIndicator longPeriod,
      macd_last_time = zero_time\<rparr>"

definition macd_add :: "macd_indicator \<Rightarrow> candlestick \<Rightarrow> macd_indicator \<times> unit go_result" where
  "macd_add m c =
    (if feq (cs_volume c) (Fin 0) then (m, Ok ())
     else case ema_add (macd_short m) c of
       (s, Ok _) \<Rightarrow>
         (case ema_add (macd_long m) c of
            (l, Ok _) \<Rightarrow> (m\<lparr>macd_short := s, macd_long := l, macd_last_time := cs_start c\<rparr>, Ok ())
          | (l, r) \<Rightarrow> (m\<lparr>macd_short := s, macd_long := l\<rparr>,
                       wrap_err ''error adding candlestick to MACD long EMA'' r))
     | (s, r) \<Rightarrow> (m\<lparr>macd_short := s\<rparr>, wrap_err ''error adding candlestick to MACD short EMA'' r))"

definition macd_name :: "macd_indicator \<Rightarrow> string" where
  "macd_name m = IndicatorMACD @ ''-'' @ show_u64 (macd_short_period m) @ ''-'' @
     show_u64 (macd_long_period m)"

definition macd_value :: "macd_indicator \<Rightarrow> indicator_value go_result" where
  "macd_value m =
    (if is_zero_time (macd_last_time m) then Err ErrNotEnoughData
     else
       bind_result (wrap_err ''error getting MACD short EMA value'' (ema_value (macd_short m))) (\<lambda>short.
       bind_result (wrap_err ''error getting MACD long EMA value'' (ema_value (macd_long m))) (\<lambda>long.
         Ok \<lparr>iv_time = macd_last_time m, iv_value = fsub (iv_value short) (iv_value long),
             iv_name = macd_name m\<rparr>)))"

record macds_indicator =
  macds_short_period :: u64
  macds_long_period :: u64
  macds_signal_period :: u64
  macds_signal :: ema_indicator
  macds_macd :: macd_indicator
  macds_last_time :: time

definition NewMACDWithSignal :: "u64 \<Rightarrow> u64 \<Rightarrow> u64 \<Rightarrow> macds_indicator" where
  "NewMACDWithSignal shortPeriod longPeriod signalPeriod =
     \<lparr>macds_short_period = shortPeriod, macds_long_period = longPeriod,
      macds_signal_period = signalPeriod, macds_signal = NewEMAIndicator signalPeriod,
      macds_macd = NewMACDIndicator shortPeriod longPeriod, macds_last_time = zero_time\<rparr>"

definition macds_name :: "macds_indicator \<Rightarrow> string" where
  "macds_name m = IndicatorMACDWithSignal @ ''-'' @ show_u64 (macds_signal_period m) @ ''-ema-'' @
     show_u64 (macds_short_period m) @ ''-'' @ show_u64 (macds_long_period m)"

text \<open>The candlestick that carries a MACD value to the signal average.\<close>

definition signal_candlestick :: "f64 \<Rightarrow> candlestick" where
  "signal_candlestick v = zero_candlestick\<lparr>cs_low := v, cs_high := v, cs_open := v,
     cs_close := v, cs_volume := v\<rparr>"

definition macds_add :: "macds_indicator \<Rightarrow> candlestick \<Rightarrow> macds_indicator \<times> unit go_result" where
  "macds_add m c =
    (if feq (cs_volume c) (Fin 0) then (m, Ok ())
     else case macd_add (macds_macd m) c of
       (md, Ok _) \<Rightarrow>
         let m1 = m\<lparr>macds_macd := md\<rparr>;
             finish = (\<lambda>m2. (m2\<lparr>macds_last_time := cs_start c\<rparr>, Ok ()))
         in (case macd_value md of
               Err err \<Rightarrow>
                 if cause err \<noteq> ErrNotEnoughData
                 then (m1, Err (Wrapf err ''error getting MACD value'')) else finish m1
             | Panic s \<Rightarrow> (m1, Panic s)
             | Diverge \<Rightarrow> (m1, Diverge)
             | Ok v \<Rightarrow>
                 (case ema_add (macds_signal m1) (signal_candlestick (iv_value v)) of
                    (s, Ok _) \<Rightarrow> finish (m1\<lparr>macds_signal := s\<rparr>)
                  | (s, r) \<Rightarrow> (m1\<lparr>macds_signal := s\<rparr>,
                               wrap_err ''error adding candlestick to signal EMA'' r)))
     | (md, r) \<Rightarrow> (m\<lparr>macds_macd := md\<rparr>, wrap_err ''error adding candlestick to MACD'' r))"

definition macds_value :: "macds_indicator \<Rightarrow> indicator_value go_result" where
  "macds_value m =
    (if is_zero_time (macds_last_time m) then Err ErrNotEnoughData
     else
       bind_result (wrap_err ''error getting signal EMA value'' (ema_value (macds_signal m))) (\<lambda>signal.
       bind_result (wrap_err ''error getting MACD value'' (macd_value (macds_macd m))) (\<lambda>macd.
         Ok \<lparr>iv_time = macds_last_time m, iv_value = fsub (iv_value macd) (iv_value signal),
             iv_name = macds_name m\<rparr>)))"

section \<open>The interface\<close>

datatype indicator =
    IEMA ema_indicator
  | IDEMA dema_indicator
  | IRSI rsi_indicator
  | IMACD macd_indicator
  | IMACDS macds_indicator

fun AddCandlestick :: "indicator \<Rightarrow> candlestick \<Rightarrow> indicator \<times> unit go_result" where
  "AddCandlestick (IEMA e) c = map_prod IEMA id (ema_add e c)"
| "AddCandlestick (IDEMA d) c = map_prod IDEMA id (dema_add d c)"
| "AddCandlestick (IRSI r) c = map_prod IRSI id (rsi_add r c)"
| "AddCandlestick (IMACD m) c = map_prod IMACD id (macd_add m c)"
| "AddCandlestick (IMACDS m) c = map_prod IMACDS id (macds_add m c)"

fun IndicatorValueOf :: "indicator \<Rightarrow> indicator_value go_result" where
  "IndicatorValueOf (IEMA e) = ema_value e"
| "IndicatorValueOf (IDEMA d) = dema_value d"
| "IndicatorValueOf (IRSI r) = rsi_value r"
| "IndicatorValueOf (IMACD m) = macd_value m"
| "IndicatorValueOf (IMACDS m) = macds_value m"

fun IndicatorName :: "indicator \<Rightarrow> string" where
  "IndicatorName (IEMA e) = ema_name e"
| "IndicatorName (IDEMA d) = dema_name d"
| "IndicatorName (IRSI r) = rsi_name r"
| "IndicatorName (IMACD m) = macd_name m"
| "IndicatorName (IMACDS m) = macds_name m"

text \<open>
  The laws of the interface: a candlestick without volume changes nothing; adding never
  fails and never changes the name; a value that is not available is
  \<open>ErrNotEnoughData\<close>, and one that is carries the indicator's name and the start of the
  candlestick just added.
\<close>

locale indicator_law =
  fixes add :: "'i \<Rightarrow> candlestick \<Rightarrow> 'i \<times> unit go_result"
    and val :: "'i \<Rightarrow> indicator_value go_result"
    and name :: "'i \<Rightarrow> string"
  assumes skip: "feq (cs_volume c) (Fin 0) \<Longrightarrow> add i c = (i, Ok ())"
    and total: "snd (add i c) = Ok ()"
    and name_frame: "name (fst (add i c)) = name i"
    and val_cases: "(\<exists>v. val i = Ok v) \<or> (\<exists>e. val i = Err e \<and> cause e = ErrNotEnoughData)"
    and val_name: "val i = Ok v \<Longrightarrow> iv_name v = name i"
    and val_time: "\<not> feq (cs_volume c) (Fin 0) \<Longrightarrow> val (fst (add i c)) = Ok v \<Longrightarrow> iv_time v = cs_start c"
begin

lemma add_pair: "add i c = (fst (add i c), Ok ())"
  using total[of i c] by (metis prod.collapse)

lemma run_skip:
  "foldl (\<lambda>i c. fst (add i c)) i cs =
   foldl (\<lambda>i c. fst (add i c)) i (filter (\<lambda>c. \<not> feq (cs_volume c) (Fin 0)) cs)"
  by (induction cs arbitrary: i) (auto simp: skip)

lemma run_name: "name (foldl (\<lambda>i c. fst (add i c)) i cs) = name i"
  by (induction cs arbitrary: i) (simp_all add: name_frame)

lemma run_time:
  assumes "filter (\<lambda>c. \<not> feq (cs_volume c) (Fin 0)) cs = xs @ [x]"
    and "val (foldl (\<lambda>i c. fst (add i c)) i cs) = Ok v"
  shows "iv_time v = cs_start x"
proof -
  have "x \<in> set (filter (\<lambda>c. \<not> feq (cs_volume c) (Fin 0)) cs)"
    by (simp add: assms(1))
  then have x: "\<not> feq (cs_volume x) (Fin 0)"
    by simp
  show ?thesis
    using assms(2) val_time[OF x] unfolding run_skip[of i cs] assms(1) by simp
qed

end

subsection \<open>The moving average in its buffer\<close>

lemma sma_loop_ok:
  assumes "\<forall>i \<in> set is. i < int (length vs)"
  shows "\<exists>r. sma_loop vs is acc num = Ok r"
  using assms by (induction vs "is" acc num rule: sma_loop.induct) auto

lemma sma_loop_upto:
  assumes "0 \<le> k" and "k + int n \<le> int (length vs)" and "num + int n < 2 ^ 63" and "0 \<le> num"
  shows "sma_loop vs [k..k + int n - 1] acc num = Ok (foldl fadd acc (take n (drop (nat k) vs)), num + int n)"
  using assms
proof (induction n arbitrary: k acc num)
  case 0
  then show ?case by simp
next
  case (Suc n)
  have k: "[k..k + int (Suc n) - 1] = k # [k + 1..k + 1 + int n - 1]"
    by (subst upto_rec1) simp_all
  have "nat (k + 1) = Suc (nat k)"
    using Suc.prems by simp
  then have d: "drop (nat k) vs = vs ! nat k # drop (nat (k + 1)) vs"
    using Suc.prems by (simp add: Cons_nth_drop_Suc)
  have "wrap64 (num + 1) = num + 1"
    using Suc.prems by (intro wrap64_id in_int64I) auto
  then show ?case
    using Suc.prems Suc.IH[of "k + 1" "num + 1" "fadd acc (vs ! nat k)"] unfolding k d by simp
qed

lemma SMA_full:
  assumes "0 < period" and "unat period < 2 ^ 63" and "length vs = unat period"
  shows "SMA period vs (period - 1) = Ok (fdiv (foldl fadd (Fin 0) vs) (float_of_int (int (length vs))))"
proof -
  have u: "unat (period - 1) = unat period - 1" "0 < unat period"
    using assms(1) by (simp_all add: unat_minus_one unat_gt_0 word_neq_0_conv)
  note s = sint_u64_small
  have lo: "wrap64 (wrap64 (sint (period - 1) - sint period) + 1) = 0"
    using assms(2) u by (simp add: s wrap64_def of_nat_diff)
  have hi: "sint (period - 1) = 0 + int (length vs) - 1"
    using assms(2,3) u by (simp add: s of_nat_diff)
  have "int (length vs) < int (2 ^ 63)"
    using assms(2,3) by (simp only: of_nat_less_iff)
  then have loop: "sma_loop vs [0..0 + int (length vs) - 1] (Fin 0) 0 =
      Ok (foldl fadd (Fin 0) vs, int (length vs))"
    using sma_loop_upto[of 0 "length vs" vs 0 "Fin 0"] by simp
  show ?thesis
    by (simp only: SMA_def lo) (simp only: hi loop bind_result.simps prod.case)
qed

text \<open>The buffer is filled exactly when its average is taken, so the loop stays in range.\<close>

lemma SMA_in_range:
  assumes "unat (period - 1) < length vs"
  shows "\<exists>v. SMA period vs (period - 1) = Ok v"
proof -
  have "i < int (length vs)" if "i \<le> sint (period - 1)" for i
  proof -
    have "sint (period - 1) \<le> int (unat (period - 1))"
    proof (cases "unat (period - 1) < 2 ^ 63")
      case True
      then show ?thesis by (simp add: sint_u64_small)
    next
      case False
      have "sint (period - 1) < 2 ^ 63"
        using sint_lt[of "period - 1"] by simp
      moreover have "int (2 ^ 63) \<le> int (unat (period - 1))"
        using False by (simp only: of_nat_le_iff not_less)
      ultimately show ?thesis by simp
    qed
    with that assms show ?thesis by linarith
  qed
  then obtain r where "sma_loop vs [wrap64 (wrap64 (sint (period - 1) - sint period) + 1)..sint (period - 1)] (Fin 0) 0 = Ok r"
    using sma_loop_ok[of _ vs] by force
  then show ?thesis
    by (cases r) (simp add: SMA_def)
qed

lemma ema_sma_ok:
  assumes "word_of_nat (length vs) = (period - 1 :: u64)"
  shows "\<exists>v. SMA period (vs @ [p]) (period - 1) = Ok v"
proof (rule SMA_in_range)
  have "unat (period - 1) = length vs mod 2 ^ 64"
    unfolding assms[symmetric] by (simp add: unat_of_nat)
  also have "\<dots> \<le> length vs"
    by (rule mod_less_eq_dividend)
  finally show "unat (period - 1) < length (vs @ [p])"
    by simp
qed

lemma ema_add_total: "snd (ema_add e c) = Ok ()"
  using ema_sma_ok[of "ema_values e" "ema_period e" "price c"]
  by (auto simp: ema_add_def Let_def)

lemma ema_add_frame: "ema_period (fst (ema_add e c)) = ema_period e"
  by (auto simp: ema_add_def Let_def split: go_result.splits)

lemma ema_add_time: "\<not> feq (cs_volume c) (Fin 0) \<Longrightarrow> ema_last_time (fst (ema_add e c)) = cs_start c"
  by (auto simp: ema_add_def Let_def split: go_result.splits)

lemma ema_add_skip: "feq (cs_volume c) (Fin 0) \<Longrightarrow> ema_add e c = (e, Ok ())"
  by (simp add: ema_add_def)

lemma ema_name_frame: "ema_name (fst (ema_add e c)) = ema_name e"
  by (simp add: ema_name_def ema_add_frame)

interpretation ema: indicator_law ema_add ema_value ema_name
  by unfold_locales
    (auto simp: ema_add_skip ema_add_total ema_add_time ema_name_frame ema_value_def split: if_splits)

lemma dema_add_eq:
  "\<not> feq (cs_volume c) (Fin 0) \<Longrightarrow> dema_add d c =
     (d\<lparr>dema_short := fst (ema_add (dema_short d) c), dema_long := fst (ema_add (dema_long d) c),
        dema_last_time := cs_start c\<rparr>, Ok ())"
  by (subst dema_add_def, subst ema.add_pair[of "dema_short d" c], subst ema.add_pair[of "dema_long d" c]) simp

lemma dema_add_skip: "feq (cs_volume c) (Fin 0) \<Longrightarrow> dema_add d c = (d, Ok ())"
  by (simp add: dema_add_def)

lemma ema_value_cases:
  obtains v where "ema_value e = Ok v" | "ema_value e = Err ErrNotEnoughData"
  by (cases "feq (ema_last e) (Fin 0)"; simp add: ema_value_def)

interpretation dema: indicator_law dema_add dema_value dema_name
proof unfold_locales
  fix d c
  show "feq (cs_volume c) (Fin 0) \<Longrightarrow> dema_add d c = (d, Ok ())"
    by (rule dema_add_skip)
  show "snd (dema_add d c) = Ok ()" "dema_name (fst (dema_add d c)) = dema_name d"
    by (cases "feq (cs_volume c) (Fin 0)"; simp add: dema_add_skip dema_add_eq dema_name_def ema_add_frame)+
  show "(\<exists>v. dema_value d = Ok v) \<or> (\<exists>e. dema_value d = Err e \<and> cause e = ErrNotEnoughData)"
    by (cases "dema_short d" rule: ema_value_cases; cases "dema_long d" rule: ema_value_cases)
      (simp_all add: dema_value_def)
  show "dema_value d = Ok v \<Longrightarrow> iv_name v = dema_name d" for v
    by (auto simp: dema_value_def result_simps)
  show "\<not> feq (cs_volume c) (Fin 0) \<Longrightarrow> dema_value (fst (dema_add d c)) = Ok v \<Longrightarrow> iv_time v = cs_start c" for v
    by (auto simp: dema_value_def dema_add_eq result_simps)
qed

lemma rsi_body_frame:
  "rsi_periods (rsi_body r p) = rsi_periods r" "rsi_iterations (rsi_body r p) = rsi_iterations r"
  by (simp_all add: rsi_body_def Let_def)

lemma rsi_add_eq:
  "\<not> feq (cs_volume c) (Fin 0) \<Longrightarrow> rsi_add r c =
     ((rsi_body r (price c))\<lparr>rsi_iterations := rsi_iterations r + 1, rsi_last_value := price c,
        rsi_last_time := cs_start c\<rparr>, Ok ())"
  by (simp add: rsi_add_def rsi_body_frame)

lemma rsi_add_skip: "feq (cs_volume c) (Fin 0) \<Longrightarrow> rsi_add r c = (r, Ok ())"
  by (simp add: rsi_add_def)

interpretation rsi: indicator_law rsi_add rsi_value rsi_name
proof unfold_locales
  fix r c
  show "feq (cs_volume c) (Fin 0) \<Longrightarrow> rsi_add r c = (r, Ok ())"
    by (rule rsi_add_skip)
  show "snd (rsi_add r c) = Ok ()" "rsi_name (fst (rsi_add r c)) = rsi_name r"
    by (cases "feq (cs_volume c) (Fin 0)"; simp add: rsi_add_skip rsi_add_eq rsi_name_def rsi_body_frame)+
qed (auto simp: rsi_value_def rsi_add_eq split: if_splits)

lemma macd_add_eq:
  "\<not> feq (cs_volume c) (Fin 0) \<Longrightarrow> macd_add m c =
     (m\<lparr>macd_short := fst (ema_add (macd_short m) c), macd_long := fst (ema_add (macd_long m) c),
        macd_last_time := cs_start c\<rparr>, Ok ())"
  by (subst macd_add_def, subst ema.add_pair[of "macd_short m" c], subst ema.add_pair[of "macd_long m" c]) simp

lemma macd_add_skip: "feq (cs_volume c) (Fin 0) \<Longrightarrow> macd_add m c = (m, Ok ())"
  by (simp add: macd_add_def)

interpretation macd: indicator_law macd_add macd_value macd_name
proof unfold_locales
  fix m c
  show "feq (cs_volume c) (Fin 0) \<Longrightarrow> macd_add m c = (m, Ok ())"
    by (rule macd_add_skip)
  show "snd (macd_add m c) = Ok ()" "macd_name (fst (macd_add m c)) = macd_name m"
    by (cases "feq (cs_volume c) (Fin 0)"; simp add: macd_add_skip macd_add_eq macd_name_def)+
  show "(\<exists>v. macd_value m = Ok v) \<or> (\<exists>e. macd_value m = Err e \<and> cause e = ErrNotEnoughData)"
    by (cases "macd_short m" rule: ema_value_cases; cases "macd_long m" rule: ema_value_cases)
      (simp_all add: macd_value_def)
  show "macd_value m = Ok v \<Longrightarrow> iv_name v = macd_name m" for v
    by (auto simp: macd_value_def result_simps split: if_splits)
  show "\<not> feq (cs_volume c) (Fin 0) \<Longrightarrow> macd_value (fst (macd_add m c)) = Ok v \<Longrightarrow> iv_time v = cs_start c" for v
    by (auto simp: macd_value_def macd_add_eq result_simps split: if_splits)
qed

text \<open>What \<open>MACDWithSignal\<close> does with a candlestick, without its unreachable branches.\<close>

lemma macds_add_eq:
  "\<not> feq (cs_volume c) (Fin 0) \<Longrightarrow> macds_add m c =
     (m\<lparr>macds_macd := fst (macd_add (macds_macd m) c),
        macds_signal := (case macd_value (fst (macd_add (macds_macd m) c)) of
            Ok v \<Rightarrow> fst (ema_add (macds_signal m) (signal_candlestick (iv_value v)))
          | _ \<Rightarrow> macds_signal m),
        macds_last_time := cs_start c\<rparr>, Ok ())"
proof -
  assume vol: "\<not> feq (cs_volume c) (Fin 0)"
  define md where "md = fst (macd_add (macds_macd m) c)"
  have md: "macd_add (macds_macd m) c = (md, Ok ())"
    unfolding md_def by (rule macd.add_pair)
  from macd.val_cases[of md] show ?thesis
  proof (elim disjE exE conjE)
    fix v assume v: "macd_value md = Ok v"
    have "ema_add (macds_signal m) (signal_candlestick (iv_value v)) =
        (fst (ema_add (macds_signal m) (signal_candlestick (iv_value v))), Ok ())"
      by (rule ema.add_pair)
    then show ?thesis
      using vol v md by (cases "ema_add (macds_signal m) (signal_candlestick (iv_value v))") (simp add: macds_add_def)
  next
    fix e assume "macd_value md = Err e" "cause e = ErrNotEnoughData"
    then show ?thesis
      using vol md by (simp add: macds_add_def)
  qed
qed

lemma macds_add_skip: "feq (cs_volume c) (Fin 0) \<Longrightarrow> macds_add m c = (m, Ok ())"
  by (simp add: macds_add_def)

interpretation macds: indicator_law macds_add macds_value macds_name
proof unfold_locales
  fix m c
  show "feq (cs_volume c) (Fin 0) \<Longrightarrow> macds_add m c = (m, Ok ())"
    by (rule macds_add_skip)
  show "snd (macds_add m c) = Ok ()" "macds_name (fst (macds_add m c)) = macds_name m"
    by (cases "feq (cs_volume c) (Fin 0)"; simp add: macds_add_skip macds_add_eq macds_name_def)+
  show "(\<exists>v. macds_value m = Ok v) \<or> (\<exists>e. macds_value m = Err e \<and> cause e = ErrNotEnoughData)"
    using macd.val_cases[of "macds_macd m"]
    by (cases "macds_signal m" rule: ema_value_cases) (auto simp: macds_value_def)
  show "macds_value m = Ok v \<Longrightarrow> iv_name v = macds_name m" for v
    by (auto simp: macds_value_def result_simps split: if_splits)
  show "\<not> feq (cs_volume c) (Fin 0) \<Longrightarrow> macds_value (fst (macds_add m c)) = Ok v \<Longrightarrow> iv_time v = cs_start c" for v
    by (auto simp: macds_value_def macds_add_eq result_simps split: if_splits)
qed

interpretation ind: indicator_law AddCandlestick IndicatorValueOf IndicatorName
proof unfold_locales
  fix i c
  show "feq (cs_volume c) (Fin 0) \<Longrightarrow> AddCandlestick i c = (i, Ok ())"
    by (cases i) (simp_all add: ema_add_skip dema_add_skip rsi_add_skip macd_add_skip macds_add_skip)
  show "snd (AddCandlestick i c) = Ok ()"
    by (cases i) (simp_all add: ema.total dema.total rsi.total macd.total macds.total)
  show "IndicatorName (fst (AddCandlestick i c)) = IndicatorName i"
    by (cases i) (simp_all add: ema.name_frame dema.name_frame rsi.name_frame macd.name_frame macds.name_frame)
  show "(\<exists>v. IndicatorValueOf i = Ok v) \<or> (\<exists>e. IndicatorValueOf i = Err e \<and> cause e = ErrNotEnoughData)"
    by (cases i) (simp_all only: IndicatorValueOf.simps ema.val_cases dema.val_cases rsi.val_cases macd.val_cases macds.val_cases)
  show "IndicatorValueOf i = Ok v \<Longrightarrow> iv_name v = IndicatorName i" for v
    by (cases i) (simp_all add: ema.val_name dema.val_name rsi.val_name macd.val_name macds.val_name)
  show "\<not> feq (cs_volume c) (Fin 0) \<Longrightarrow> IndicatorValueOf (fst (AddCandlestick i c)) = Ok v \<Longrightarrow> iv_time v = cs_start c" for v
    by (cases i) (simp_all add: ema.val_time dema.val_time rsi.val_time macd.val_time macds.val_time)
qed

section \<open>The exponential average against its definition\<close>

text \<open>
  Seeded with the plain mean of the first \<open>period\<close> prices, then the recurrence over the
  rest.
\<close>

definition ema_seed :: "f64 list \<Rightarrow> f64" where
  "ema_seed ps = fdiv (foldl fadd (Fin 0) ps) (float_of_int (int (length ps)))"

definition ema_reference :: "u64 \<Rightarrow> f64 list \<Rightarrow> f64" where
  "ema_reference period ps =
     foldl (ema_step period) (ema_seed (take (unat period) ps)) (drop (unat period) ps)"

abbreviation traded :: "candlestick \<Rightarrow> bool" where
  "traded c \<equiv> \<not> feq (cs_volume c) (Fin 0)"

abbreviation ema_run :: "ema_indicator \<Rightarrow> candlestick list \<Rightarrow> ema_indicator" where
  "ema_run \<equiv> foldl (\<lambda>e c. fst (ema_add e c))"

lemma word_of_nat_less_pred:
  assumes "k < unat period" and "unat (period :: u64) < 2 ^ 63"
  shows "word_of_nat k < period - 1 \<longleftrightarrow> k + 1 < unat period"
    and "word_of_nat k = period - 1 \<longleftrightarrow> k + 1 = unat period"
proof -
  have p: "unat (period - 1) = unat period - 1"
    using assms(1) by (intro unat_minus_one) auto
  have "k < 2 ^ 64"
    using assms by (rule less_trans[OF _ less_trans]) simp
  then have k: "unat (word_of_nat k :: u64) = k"
    by (simp add: unat_of_nat)
  show "word_of_nat k < period - 1 \<longleftrightarrow> k + 1 < unat period"
    using p k by (simp add: word_less_nat_alt less_diff_conv)
  show "word_of_nat k = period - 1 \<longleftrightarrow> k + 1 = unat period"
    using p k assms(1) by (auto simp: word_unat_eq_iff)
qed

lemma ema_run_warmup:
  assumes "\<forall>c \<in> set cs. traded c" and "length cs < unat period" and "unat period < 2 ^ 63"
  shows "ema_last (ema_run (NewEMAIndicator period) cs) = Fin 0 \<and>
    ema_values (ema_run (NewEMAIndicator period) cs) = map price cs \<and>
    ema_period (ema_run (NewEMAIndicator period) cs) = period"
  using assms
proof (induction cs rule: rev_induct)
  case Nil
  show ?case by (simp add: NewEMAIndicator_def)
next
  case (snoc c cs)
  define e where "e = ema_run (NewEMAIndicator period) cs"
  have e: "ema_last e = Fin 0" "ema_values e = map price cs" "ema_period e = period"
    using snoc by (simp_all add: e_def)
  have "word_of_nat (length cs) < period - 1"
    using word_of_nat_less_pred(1)[of "length cs" period] snoc.prems by simp
  then have "fst (ema_add e c) = e\<lparr>ema_last_time := cs_start c, ema_values := map price cs @ [price c]\<rparr>"
    using snoc.prems by (simp add: ema_add_def e Let_def)
  then show ?case
    by (simp add: e flip: e_def)
qed

lemma ema_run_live:
  assumes "\<forall>c \<in> set cs. traded c" and "0 < period" and "unat period < 2 ^ 63"
    and "unat period \<le> length cs"
    and "\<forall>k. unat period \<le> k \<and> k < length cs \<longrightarrow>
           \<not> is_zero (ema_reference period (take k (map price cs)))"
  shows "ema_last (ema_run (NewEMAIndicator period) cs) = ema_reference period (map price cs) \<and>
    ema_period (ema_run (NewEMAIndicator period) cs) = period"
  using assms
proof (induction cs rule: rev_induct)
  case Nil
  then show ?case by (simp add: word_neq_0_conv unat_eq_zero)
next
  case (snoc c cs)
  define e where "e = ema_run (NewEMAIndicator period) cs"
  have vol: "traded c" and vols: "\<forall>c \<in> set cs. traded c"
    using snoc.prems(1) by simp_all
  show ?case
  proof (cases "length cs < unat period")
    case True
    then have len: "length cs + 1 = unat period"
      using snoc.prems(4) by simp
    have e: "ema_last e = Fin 0" "ema_values e = map price cs" "ema_period e = period"
      using ema_run_warmup[OF vols True snoc.prems(3)] by (simp_all add: e_def)
    have "word_of_nat (length cs) = period - 1" "\<not> word_of_nat (length cs) < period - 1"
      using word_of_nat_less_pred[OF True snoc.prems(3)] len by simp_all
    moreover have "uint period = 1 + int (length cs)"
      using arg_cong[OF len, of int] by simp
    ultimately have "ema_last (fst (ema_add e c)) = ema_seed (map price (cs @ [c])) \<and> ema_period (fst (ema_add e c)) = period"
      using vol SMA_full[OF snoc.prems(2,3), of "map price (cs @ [c])"] len
      by (simp add: ema_add_def e Let_def ema_seed_def)
    then show ?thesis
      using len by (simp add: ema_reference_def flip: e_def)
  next
    case False
    have e: "ema_last e = ema_reference period (map price cs)" "ema_period e = period"
    proof -
      have "\<forall>k. unat period \<le> k \<and> k < length cs \<longrightarrow> \<not> is_zero (ema_reference period (take k (map price cs)))"
        using snoc.prems(5) by (auto dest!: spec)
      then show "ema_last e = ema_reference period (map price cs)" "ema_period e = period"
        using snoc.IH[OF vols snoc.prems(2,3)] False by (simp_all add: e_def)
    qed
    have "\<not> is_zero (ema_reference period (map price cs))"
      using snoc.prems(5)[rule_format, of "length cs"] False by simp
    then have "fst (ema_add e c) = e\<lparr>ema_last_time := cs_start c, ema_last := ema_step period (ema_last e) (price c)\<rparr>"
      using vol e by (simp add: ema_add_def Let_def feq_zero_iff)
    then show ?thesis
      using False e by (simp add: ema_reference_def flip: e_def)
  qed
qed

text \<open>Period zero: the buffer never reaches the wrapped-around length \<open>2^64 - 1\<close>.\<close>

lemma ema_run_period_zero:
  assumes "length cs < 2 ^ 64 - 1"
  shows "ema_last (ema_run (NewEMAIndicator 0) cs) = Fin 0 \<and>
    length (ema_values (ema_run (NewEMAIndicator 0) cs)) \<le> length cs \<and>
    ema_period (ema_run (NewEMAIndicator 0) cs) = 0"
  using assms
proof (induction cs rule: rev_induct)
  case Nil
  show ?case by (simp add: NewEMAIndicator_def)
next
  case (snoc c cs)
  define e where "e = ema_run (NewEMAIndicator 0) cs"
  have e: "ema_last e = Fin 0" "length (ema_values e) \<le> length cs" "ema_period e = 0"
    using snoc by (simp_all add: e_def)
  then have "length (ema_values e) < 2 ^ 64 - 1"
    using snoc.prems by simp
  moreover have "unat (- 1 :: u64) = 2 ^ 64 - 1"
    by (simp add: unsigned_minus_1_eq_mask mask_eq_exp_minus_1)
  ultimately have "unat (word_of_nat (length (ema_values e)) :: u64) < unat (- 1 :: u64)"
    by (simp add: unat_of_nat)
  then have "word_of_nat (length (ema_values e)) < (- 1 :: u64)"
    by (simp add: word_less_nat_alt)
  then have "ema_last (fst (ema_add e c)) = Fin 0 \<and>
      length (ema_values (fst (ema_add e c))) \<le> Suc (length cs) \<and> ema_period (fst (ema_add e c)) = 0"
    using e by (simp add: ema_add_def Let_def)
  then show ?case
    by (simp flip: e_def)
qed

section \<open>Ranges\<close>

text \<open>The normalised difference stays within a half of zero.\<close>

lemma dema_quotient_bound:
  assumes "fpos s" and "fpos l" and "f64_ok s" and "is_fin s" and "is_fin l" and "is_fin (fadd s l)"
  shows "fle (Fin (- (1 / 2))) (fdiv (fdiv (fsub s l) (fadd s l)) (Fin 2)) \<and>
    fle (fdiv (fdiv (fsub s l) (fadd s l)) (Fin 2)) (Fin (1 / 2))"
proof -
  define a d where "a = fadd s l" and "d = fsub s l"
  have pos: "0 < fval s" "0 < fval l" and s: "rnd64 (fval s) = fval s"
    using assms by (cases s; cases l; simp)+
  have va: "fval a = rnd64 (fval s + fval l)"
    unfolding a_def using assms(4-6) fadd_fin_val[of s l] by (simp add: round64_fin_val)
  have a: "is_fin a" "0 < fval a"
    using assms(6) r64.ge_fixed[of "fval s" "fval s + fval l"] pos s va by (simp_all add: a_def)
  have ok: "f64_ok (Fin (fval a))"
    using a(1) assms(4,5) fadd_fin_val[of s l] round64_ok[of False "fval s + fval l"]
    unfolding a_def by (cases "round64 False (fval s + fval l)") auto
  have "\<bar>rnd64 (fval s - fval l)\<bar> \<le> rnd64 (fval s + fval l)"
    using rnd64_mono[of "fval s - fval l" "fval s + fval l"] rnd64_mono[of "- (fval s + fval l)" "fval s - fval l"] pos
      rnd64_neg[of "fval s + fval l"] by linarith
  then have "is_fin (round64 False (rnd64 (fval s - fval l)))" and le: "\<bar>rnd64 (fval s - fval l)\<bar> \<le> fval a"
    using round64_abs_le(1)[OF _ ok] by (simp_all add: va)
  then have "is_fin (round64 False (fval s - fval l))"
    by (simp add: round64_def)
  then have d: "is_fin d" "\<bar>fval d\<bar> \<le> fval a"
    using fadd_fin_val[of s "fneg l"] assms(4,5) le by (simp_all add: d_def fsub_def round64_fin_val)
  have na: "\<not> is_zero a"
    using a by (cases a) auto
  have "\<bar>fval d / fval a\<bar> \<le> 1"
    using d a by (simp add: abs_divide)
  note q = round64_abs_le[OF this f64_ok_simps(2), of "fsign d \<noteq> fsign a", folded fdiv_fin[OF d(1) a(1) na]]
  have "\<bar>fval (fdiv d a) / 2\<bar> \<le> 1 / 2"
    using q by (simp add: abs_divide)
  note h = round64_abs_le[OF this f64_ok_half, of "fsign (fdiv d a) \<noteq> fsign (Fin 2)"]
  have "fdiv (fdiv d a) (Fin 2) = round64 (fsign (fdiv d a) \<noteq> fsign (Fin 2)) (fval (fdiv d a) / 2)"
    using q(1) fdiv_fin[of "fdiv d a" "Fin 2"] by simp
  then show ?thesis
    using h fle_abs[of _ "1 / 2"] by (simp add: a_def d_def)
qed

text \<open>RSI is a percentage, or not a number.\<close>

definition percentage_or_NaN :: "f64 \<Rightarrow> bool" where
  "percentage_or_NaN x \<longleftrightarrow> x = NaN \<or> fle (Fin 0) x \<and> fle x (Fin 100)"

lemma rsiFromRS_range:
  assumes "nan_or_nonneg rs"
  shows "percentage_or_NaN (rsiFromRS rs)"
proof (cases "rs = NaN")
  case True
  then show ?thesis by (simp add: rsiFromRS_def percentage_or_NaN_def)
next
  case False
  then have rs: "fnonneg rs"
    using assms by simp
  define b q where "b = fadd (Fin 1) rs" and "q = fdiv (Fin 100) b"
  have "b \<noteq> NaN"
    using fadd_nonneg[of "Fin 1" rs] rs by (auto simp: b_def)
  then have b: "fle (Fin 1) b"
    using fadd_ge[of "Fin 1" rs] rs by (simp add: b_def)
  then have pb: "fpos b"
    by (rule flt_fle_trans[rotated]) simp
  have nq: "q \<noteq> NaN"
    using pb by (cases b) (auto simp: q_def fdiv_def finf_def fzero_def)
  have q: "fnonneg q" "fle q (Fin 100)"
    using fdiv_nonneg[OF _ pb, of "Fin 100"] fdiv_ge_one[of "Fin 100" b] nq b by (simp_all add: q_def)
  then have "fsub (Fin 100) q \<noteq> NaN"
    by (cases q) (auto simp: fsub_def fadd_def)
  moreover have "fsub (Fin 100) (Fin 100) = Fin 0"
    by (simp add: fsub_def fadd_def round64_0 fzero_def)
  ultimately have "fnonneg (fsub (Fin 100) q)" and "fle (fsub (Fin 100) q) (Fin 100)"
    using fsub_mono[of "Fin 100" "Fin 100" q "Fin 100"] fsub_le[of "Fin 100" q] q by simp_all
  then show ?thesis
    by (simp add: percentage_or_NaN_def rsiFromRS_def q_def b_def)
qed

lemma rsi_of_averages_range:
  assumes "nan_or_nonneg g" and "nan_or_nonneg l"
  shows "percentage_or_NaN (rsi_of_averages g l)"
proof (cases "feq g (Fin 0) \<or> feq l (Fin 0)")
  case True
  then show ?thesis
    by (auto simp: rsi_of_averages_def percentage_or_NaN_def)
next
  case False
  then have "l = NaN \<or> fpos l"
    using assms(2) by (cases l) (auto simp: feq_def)
  then have "nan_or_nonneg (fdiv g l)"
    using assms(1) nan_or_nonneg_div by auto
  then show ?thesis
    using False rsiFromRS_range by (simp add: rsi_of_averages_def)
qed

definition rsi_inv :: "rsi_indicator \<Rightarrow> bool" where
  "rsi_inv r \<longleftrightarrow> 0 < rsi_periods r \<and> nan_or_nonneg (rsi_sum_gains r) \<and> nan_or_nonneg (rsi_sum_losses r) \<and>
     nan_or_nonneg (rsi_average_gain r) \<and> nan_or_nonneg (rsi_average_loss r) \<and>
     percentage_or_NaN (rsi_current r)"

lemma at_least_one:
  assumes "fle (Fin 1) n"
  shows "fpos n" and "fnonneg (fsub n (Fin 1))"
proof -
  show "fpos n"
    by (rule flt_fle_trans[OF _ assms]) simp
  have "fsub (Fin 1) (Fin 1) = Fin 0"
    by (simp add: fsub_def fadd_def round64_0 fzero_def)
  then show "fnonneg (fsub n (Fin 1))"
    using fsub_mono[of "Fin 1" n "Fin 1" "Fin 1"] assms by (cases n) (auto simp: fsub_def fadd_def)
qed

lemma rsi_inv_body:
  assumes "rsi_inv r"
  shows "rsi_inv (rsi_body r p)"
proof -
  define n diff where "n = float_of_int (uint (rsi_periods r))" and "diff = fsub p (rsi_last_value r)"
  have "1 \<le> uint (rsi_periods r)"
    using assms by (simp add: rsi_inv_def word_less_def)
  then have "fle (Fin 1) n"
    unfolding n_def by (rule float_of_int_ge_one)
  note n = at_least_one[OF this]
  define up where "up = fle (Fin 0) diff"
  define gs ls where "gs = (if up then fadd (rsi_sum_gains r) diff else rsi_sum_gains r)"
    and "ls = (if up then rsi_sum_losses r else fsub (rsi_sum_losses r) diff)"
  have i: "nan_or_nonneg (rsi_sum_gains r)" "nan_or_nonneg (rsi_sum_losses r)"
    "nan_or_nonneg (rsi_average_gain r)" "nan_or_nonneg (rsi_average_loss r)"
    "percentage_or_NaN (rsi_current r)" "0 < rsi_periods r"
    using assms by (simp_all add: rsi_inv_def)
  have sums: "nan_or_nonneg gs" "nan_or_nonneg ls"
    using i nan_or_nonneg_add[of "rsi_sum_gains r" diff] nan_or_nonneg_sub[of "rsi_sum_losses r" diff]
    by (simp_all add: gs_def ls_def up_def)
  have g: "nan_or_nonneg (fdiv gs n)" "nan_or_nonneg (fdiv ls n)"
    using sums n(1) by (intro nan_or_nonneg_div; simp)+
  define ga la where "ga = fmul (rsi_average_gain r) (fsub n (Fin 1))"
    and "la = fmul (rsi_average_loss r) (fsub n (Fin 1))"
  have ga: "nan_or_nonneg ga" "nan_or_nonneg la"
    using i n(2) by (simp_all add: ga_def la_def nan_or_nonneg_mul)
  have up: "nan_or_nonneg (if up then fdiv (fadd ga diff) (Fin 14) else fdiv ga (Fin 14))"
    using nan_or_nonneg_div[OF nan_or_nonneg_add[OF ga(1), of diff], of "Fin 14"] nan_or_nonneg_div[OF ga(1), of "Fin 14"]
    by (simp add: up_def)
  have "\<not> fnonneg diff" if "flt diff (Fin 0)"
    using that by (simp add: not_fle_iff)
  then have down: "nan_or_nonneg (if flt diff (Fin 0) then fdiv (fsub la diff) (Fin 14) else fdiv la (Fin 14))"
    using nan_or_nonneg_div[OF nan_or_nonneg_sub[OF ga(2), of diff], of "Fin 14"] nan_or_nonneg_div[OF ga(2), of "Fin 14"]
    by simp
  note fin = i sums rsi_of_averages_range[OF g] g up down rsi_of_averages_range[OF up down]
  have "rsi_body r p =
    (if rsi_iterations r = 0 then r
     else let r1 = r\<lparr>rsi_sum_gains := gs, rsi_sum_losses := ls\<rparr>;
              set_averages = (\<lambda>g l. r1\<lparr>rsi_average_gain := g, rsi_average_loss := l, rsi_current := rsi_of_averages g l\<rparr>)
       in if rsi_iterations r < rsi_periods r then r1
          else if rsi_iterations r = rsi_periods r then set_averages (fdiv gs n) (fdiv ls n)
          else set_averages (if up then fdiv (fadd ga diff) (Fin 14) else fdiv ga (Fin 14))
              (if flt diff (Fin 0) then fdiv (fsub la diff) (Fin 14) else fdiv la (Fin 14)))"
    by (simp add: rsi_body_def Let_def gs_def ls_def ga_def la_def up_def n_def diff_def)
  then show ?thesis
    using fin by (simp add: rsi_inv_def Let_def)
qed


abbreviation rsi_run :: "rsi_indicator \<Rightarrow> candlestick list \<Rightarrow> rsi_indicator" where
  "rsi_run \<equiv> foldl (\<lambda>r c. fst (rsi_add r c))"

lemma rsi_inv_add: "rsi_inv r \<Longrightarrow> rsi_inv (fst (rsi_add r c))"
  using rsi_inv_body[of r "price c"]
  by (cases "feq (cs_volume c) (Fin 0)") (simp_all add: rsi_add_skip rsi_add_eq rsi_inv_def)

lemma rsi_inv_run: "rsi_inv r \<Longrightarrow> rsi_inv (rsi_run r cs)"
  by (rule foldl_invariant[of rsi_inv]) (simp_all add: rsi_inv_add)

lemma rsi_inv_new: "0 < periods \<Longrightarrow> rsi_inv (NewRSIIndicator periods)"
  by (simp add: rsi_inv_def NewRSIIndicator_def percentage_or_NaN_def)

end
