(* ===== verification/Indicator_Specs.thy ===== *)
theory Indicator_Specs
  imports Indicators
begin

text \<open>
  What the indicators compute, said without their state: the relative strength of a list of
  prices, the availability of each indicator's value, and the properties of the five
  indicators of \<open>ema.go\<close>, \<open>rsi.go\<close> and \<open>macd.go\<close>.
\<close>

section \<open>RSI against its definition\<close>

text \<open>
  The price changes of a series, the averages over the first \<open>periods\<close> of them, and the
  smoothing of the rest. The divisor of the smoothing is the constant of the source.
\<close>

fun changes :: "f64 list \<Rightarrow> f64 list" where
  "changes (p # q # ps) = fsub q p # changes (q # ps)"
| "changes _ = []"

definition sum_of_gains :: "f64 list \<Rightarrow> f64" where
  "sum_of_gains ds = foldl fadd (Fin 0) (filter fnonneg ds)"

definition sum_of_losses :: "f64 list \<Rightarrow> f64" where
  "sum_of_losses ds = foldl fsub (Fin 0) (filter (\<lambda>d. \<not> fnonneg d) ds)"

definition smooth_gain :: "f64 \<Rightarrow> f64 \<Rightarrow> f64 \<Rightarrow> f64" where
  "smooth_gain n a d = (if fnonneg d then fdiv (fadd (fmul a (fsub n (Fin 1))) d) (Fin 14)
     else fdiv (fmul a (fsub n (Fin 1))) (Fin 14))"

definition smooth_loss :: "f64 \<Rightarrow> f64 \<Rightarrow> f64 \<Rightarrow> f64" where
  "smooth_loss n a d = (if flt d (Fin 0) then fdiv (fsub (fmul a (fsub n (Fin 1))) d) (Fin 14)
     else fdiv (fmul a (fsub n (Fin 1))) (Fin 14))"

definition average_gain :: "u64 \<Rightarrow> f64 list \<Rightarrow> f64" where
  "average_gain periods ds =
    (let n = float_of_int (uint periods); k = unat periods
     in foldl (smooth_gain n) (fdiv (sum_of_gains (take k ds)) n) (drop k ds))"

definition average_loss :: "u64 \<Rightarrow> f64 list \<Rightarrow> f64" where
  "average_loss periods ds =
    (let n = float_of_int (uint periods); k = unat periods
     in foldl (smooth_loss n) (fdiv (sum_of_losses (take k ds)) n) (drop k ds))"

lemma changes_snoc: "changes (ps @ [p, q]) = changes (ps @ [p]) @ [fsub q p]"
  by (induction ps rule: changes.induct) simp_all

lemma length_changes [simp]: "length (changes ps) = length ps - 1"
  by (induction ps rule: changes.induct) simp_all

lemma sum_of_gains_snoc: "sum_of_gains (ds @ [d]) = (if fnonneg d then fadd (sum_of_gains ds) d else sum_of_gains ds)"
  by (simp add: sum_of_gains_def)

lemma sum_of_losses_snoc: "sum_of_losses (ds @ [d]) = (if fnonneg d then sum_of_losses ds else fsub (sum_of_losses ds) d)"
  by (simp add: sum_of_losses_def)

lemma average_snoc:
  "unat periods \<le> length ds \<Longrightarrow>
     average_gain periods (ds @ [d]) = smooth_gain (float_of_int (uint periods)) (average_gain periods ds) d"
  "unat periods \<le> length ds \<Longrightarrow>
     average_loss periods (ds @ [d]) = smooth_loss (float_of_int (uint periods)) (average_loss periods ds) d"
  by (simp_all add: average_gain_def average_loss_def Let_def)

text \<open>The state after a series of traded candlesticks with the given prices.\<close>

definition rsi_tracks :: "u64 \<Rightarrow> rsi_indicator \<Rightarrow> f64 list \<Rightarrow> bool" where
  "rsi_tracks periods r ps \<longleftrightarrow>
    rsi_periods r = periods \<and> rsi_iterations r = word_of_nat (length ps) \<and>
    (ps \<noteq> [] \<longrightarrow> rsi_last_value r = last ps) \<and>
    (length ps \<le> unat periods + 1 \<longrightarrow>
       rsi_sum_gains r = sum_of_gains (changes ps) \<and> rsi_sum_losses r = sum_of_losses (changes ps)) \<and>
    (unat periods < length ps \<longrightarrow>
       rsi_average_gain r = average_gain periods (changes ps) \<and>
       rsi_average_loss r = average_loss periods (changes ps) \<and>
       rsi_current r = rsi_of_averages (rsi_average_gain r) (rsi_average_loss r))"

lemma rsi_tracks_new: "rsi_tracks periods (NewRSIIndicator periods) []"
  by (simp add: rsi_tracks_def NewRSIIndicator_def sum_of_gains_def sum_of_losses_def)

lemma word_of_nat_u64:
  assumes "n < 2 ^ 64"
  shows "unat (word_of_nat n :: u64) = n"
  using assms by (simp add: unat_of_nat)

lemma rsi_tracks_body:
  assumes "rsi_tracks periods r ps" and "length ps < 2 ^ 64 - 1" and "0 < periods"
  shows "rsi_tracks periods ((rsi_body r p)\<lparr>rsi_iterations := rsi_iterations r + 1, rsi_last_value := p,
           rsi_last_time := t\<rparr>) (ps @ [p])"
proof (cases ps rule: rev_cases)
  case Nil
  then show ?thesis
    using assms(1,3) by (auto simp: rsi_tracks_def rsi_body_def unat_eq_zero)
next
  case (snoc qs q)
  define d n k where "d = fsub p q" and "n = float_of_int (uint periods)" and "k = unat periods"
  have it: "unat (rsi_iterations r) = length ps"
    using assms word_of_nat_u64[of "length ps"] by (simp add: rsi_tracks_def)
  have i0: "rsi_iterations r \<noteq> 0"
    using it snoc by auto
  have cmp: "rsi_iterations r < rsi_periods r \<longleftrightarrow> length ps < k" "rsi_iterations r = rsi_periods r \<longleftrightarrow> length ps = k"
    using assms(1) it by (simp_all add: rsi_tracks_def word_less_nat_alt word_unat_eq_iff k_def)
  have ch: "changes (ps @ [p]) = changes ps @ [d]" and len: "length (changes ps) = length qs"
    by (simp_all add: snoc changes_snoc d_def)
  have r: "rsi_periods r = periods" "rsi_last_value r = q" "rsi_iterations r = word_of_nat (length ps)"
    using assms(1) by (simp_all add: rsi_tracks_def snoc)
  have sums: "rsi_sum_gains r = sum_of_gains (changes ps)" "rsi_sum_losses r = sum_of_losses (changes ps)"
    if "length ps \<le> k + 1"
    using assms(1) that by (simp_all add: rsi_tracks_def k_def)
  have avgs: "rsi_average_gain r = average_gain periods (changes ps)"
    "rsi_average_loss r = average_loss periods (changes ps)" if "k < length ps"
    using assms(1) that by (simp_all add: rsi_tracks_def k_def)
  consider "length ps < k" | "length ps = k" | "k < length ps"
    by linarith
  then show ?thesis
  proof cases
    case 1
    then show ?thesis
      using r i0 cmp sums
      by (simp add: rsi_tracks_def rsi_body_def Let_def ch sum_of_gains_snoc sum_of_losses_snoc flip: k_def d_def)
  next
    case 2
    have avg: "average_gain periods (changes ps @ [d]) = fdiv (sum_of_gains (changes ps @ [d])) n"
      "average_loss periods (changes ps @ [d]) = fdiv (sum_of_losses (changes ps @ [d])) n"
      using 2 snoc by (simp_all add: average_gain_def average_loss_def Let_def n_def flip: k_def)
    show ?thesis
      using 2 r i0 cmp sums
      by (simp add: rsi_tracks_def rsi_body_def Let_def ch avg sum_of_gains_snoc sum_of_losses_snoc flip: k_def d_def n_def)
  next
    case 3
    have avg: "average_gain periods (changes ps @ [d]) = smooth_gain n (average_gain periods (changes ps)) d"
      "average_loss periods (changes ps @ [d]) = smooth_loss n (average_loss periods (changes ps)) d"
      using 3 snoc by (simp_all add: average_snoc n_def flip: k_def)
    show ?thesis
      using 3 r i0 cmp avgs sums
      by (simp add: rsi_tracks_def rsi_body_def Let_def ch avg smooth_gain_def smooth_loss_def
          sum_of_gains_snoc sum_of_losses_snoc flip: k_def d_def n_def)
  qed
qed

lemma rsi_tracks_run:
  assumes "\<forall>c \<in> set cs. traded c" and "length cs < 2 ^ 64" and "0 < periods"
  shows "rsi_tracks periods (rsi_run (NewRSIIndicator periods) cs) (map price cs)"
  using assms
proof (induction cs rule: rev_induct)
  case Nil
  show ?case by (simp add: rsi_tracks_new)
next
  case (snoc c cs)
  then show ?case
    using rsi_tracks_body[of periods "rsi_run (NewRSIIndicator periods) cs" "map price cs" "cs_start c" "price c"]
    by (simp add: rsi_add_eq)
qed

section \<open>Availability\<close>

lemma rsi_value_iff:
  assumes "\<forall>c \<in> set cs. traded c" and "length cs < 2 ^ 64" and "0 < periods"
  shows "is_ok (rsi_value (rsi_run (NewRSIIndicator periods) cs)) \<longleftrightarrow> unat periods < length cs"
  using rsi_tracks_run[OF assms] word_of_nat_u64[OF assms(2)]
  by (simp add: rsi_tracks_def rsi_value_def word_le_nat_alt)

lemma rsi_value_current: "rsi_value r = Ok v \<Longrightarrow> iv_value v = rsi_current r"
  by (auto simp: rsi_value_def split: if_splits)

lemma rsi_run_traded:
  "rsi_run r cs = rsi_run r (filter traded cs)"
  by (rule rsi.run_skip)

section \<open>Properties\<close>

lemma rsi_value_run:
  assumes "0 < periods" and "length cs < 2 ^ 64"
  shows "rsi_value (rsi_run (NewRSIIndicator periods) cs) =
    (let ts = filter traded cs; ds = changes (map price ts)
     in if length ts \<le> unat periods then Err ErrNotEnoughData
        else Ok \<lparr>iv_time = cs_start (last ts),
                 iv_value = rsi_of_averages (average_gain periods ds) (average_loss periods ds),
                 iv_name = IndicatorRSI @ ''-'' @ show_u64 periods\<rparr>)"
proof -
  define ts where "ts = filter traded cs"
  have ts: "\<forall>c \<in> set ts. traded c" "length ts < 2 ^ 64"
    using assms(2) le_less_trans[OF length_filter_le assms(2)] by (simp_all add: ts_def)
  define r where "r = rsi_run (NewRSIIndicator periods) ts"
  have tr: "rsi_tracks periods r (map price ts)"
    unfolding r_def by (rule rsi_tracks_run[OF ts assms(1)])
  have run: "rsi_run (NewRSIIndicator periods) cs = r"
    unfolding r_def ts_def by (rule rsi_run_traded)
  have time: "rsi_last_time r = cs_start (last ts)" if "unat periods < length ts"
    using ts(1) that unfolding r_def by (cases ts rule: rev_cases) (auto simp: rsi_add_eq)
  show ?thesis
    using tr time word_of_nat_u64[OF ts(2)] unfolding run ts_def[symmetric] Let_def
    by (cases "length ts \<le> unat periods") (simp_all add: rsi_tracks_def rsi_value_def word_le_nat_alt rsi_name_def)
qed

text \<open>C25. RSI: after candlesticks of which more than \<open>periods\<close> had volume, the value is the
  one the definition gives for their prices: the mean gain and the mean loss over the first
  \<open>periods\<close> changes, the recursive smoothing over the later ones, and the quotient of the two
  turned into a relative strength. Fewer candlesticks give \<open>ErrNotEnoughData\<close>.\<close>

theorem rsi_agrees_with_reference:
  assumes "0 < periods" and "length cs < 2 ^ 64"
  shows "rsi_value (rsi_run (NewRSIIndicator periods) cs) =
    (let ts = filter traded cs; ds = changes (map price ts)
     in if length ts \<le> unat periods then Err ErrNotEnoughData
        else Ok \<lparr>iv_time = cs_start (last ts),
                 iv_value = rsi_of_averages (average_gain periods ds) (average_loss periods ds),
                 iv_name = IndicatorRSI @ ''-'' @ show_u64 periods\<rparr>)"
  using assms by (rule rsi_value_run)

definition flat_candle :: "rat \<Rightarrow> candlestick" where
  "flat_candle p = zero_candlestick\<lparr>cs_low := Fin p, cs_high := Fin p, cs_open := Fin p,
     cs_close := Fin p, cs_volume := Fin 1\<rparr>"

lemma rsi_agrees_with_reference_witness:
  "rsi_value (rsi_run (NewRSIIndicator 2) [flat_candle 10, flat_candle 12, flat_candle 11]) =
     Ok \<lparr>iv_time = zero_time, iv_value = rsiFromRS (Fin 2), iv_name = ''rsi-2''\<rparr>"
  by (subst rsi_agrees_with_reference, simp, simp, code_simp)

text \<open>RSI stays a percentage: whatever candlesticks it is given, a value of an RSI with
  at least one period lies between 0 and 100, unless it is not a number.\<close>

theorem rsi_is_percentage:
  assumes "0 < periods" and "rsi_value (rsi_run (NewRSIIndicator periods) cs) = Ok v"
  shows "percentage_or_NaN (iv_value v)"
  using rsi_inv_run[OF rsi_inv_new[OF assms(1)], of cs] rsi_value_current[OF assms(2)]
  by (simp add: rsi_inv_def)

lemma rsi_is_percentage_witness:
  "percentage_or_NaN (iv_value \<lparr>iv_time = zero_time, iv_value = rsiFromRS (Fin 2), iv_name = ''rsi-2''\<rparr>)"
  by (rule rsi_is_percentage[of 2 "[flat_candle 10, flat_candle 12, flat_candle 11]"]; code_simp)

definition stalled_prices :: "nat \<Rightarrow> candlestick list" where
  "stalled_prices n = flat_candle 58 # flat_candle 87 # flat_candle 58 # replicate (27 + n) (flat_candle 58)"

lemma flat_candle_simps [simp]:
  "cs_volume (flat_candle p) = Fin 1" "cs_start (flat_candle p) = zero_time"
  by (simp_all add: flat_candle_def zero_candlestick_def)

lemma price_flat: "price (flat_candle 58) = Fin 58" "price (flat_candle 87) = Fin 87"
  by code_simp+

lemma stalled_changes:
  "changes (map price (stalled_prices n)) = Fin 29 # Fin (- 29) # replicate (27 + n) (Fin 0)"
proof -
  have c: "changes (Fin 58 # replicate m (Fin 58)) = replicate m (Fin 0)" for m
    by (induction m) (simp_all add: fsub_def fadd_def round64_0 fzero_def)
  have "fsub (Fin 87) (Fin 58) = Fin 29" "fsub (Fin 58) (Fin 87) = Fin (- 29)"
    by code_simp+
  then show ?thesis
    by (simp add: stalled_prices_def price_flat c del: replicate_Suc replicate.simps)
qed

lemma rnd64_scaled: "\<bar>m\<bar> < 2 ^ 53 \<Longrightarrow> rnd64 (of_int m * 2 ^ k) = of_int m * 2 ^ k"
  using rnd64_dyadic[of m "int k"] by simp

lemma round64_scaled:
  assumes "0 < m" and "m < 2 ^ 53" and "of_int m * 2 ^ k < fmax_bound"
  shows "round64 s (of_int m * 2 ^ k) = Fin (of_int m * 2 ^ k)"
  using assms by (intro round64_fixed rnd64_scaled) (auto simp: abs_mult)

lemma doubling:
  assumes "k < 1020"
  shows "fmul (Fin (2 ^ k)) (Fin 28) = Fin (28 * 2 ^ k)" and "fadd (Fin (28 * 2 ^ k)) (Fin 0) = Fin (28 * 2 ^ k)"
    and "fdiv (Fin (28 * 2 ^ k)) (Fin 14) = Fin (2 ^ Suc k)"
proof -
  have "(28 :: rat) * 2 ^ k < 2 ^ (k + 5)"
    by (simp add: power_add)
  also have "(2 :: rat) ^ (k + 5) \<le> 2 ^ 1024"
    using assms by (intro power_increasing) auto
  finally have b: "28 * 2 ^ k < fmax_bound"
    by (simp add: fmax_bound_def)
  have r: "round64 s (28 * 2 ^ k) = Fin (28 * 2 ^ k)" for s
    using round64_scaled[of 28 k] b by simp
  have "round64 s (2 ^ Suc k) = Fin (2 ^ Suc k)" for s
    using round64_scaled[of 1 "Suc k" s] fmax_bound_ge[of "Suc k"] assms by simp
  then show "fdiv (Fin (28 * 2 ^ k)) (Fin 14) = Fin (2 ^ Suc k)"
    by (simp add: fdiv_fin)
  show "fmul (Fin (2 ^ k)) (Fin 28) = Fin (28 * 2 ^ k)" "fadd (Fin (28 * 2 ^ k)) (Fin 0) = Fin (28 * 2 ^ k)"
    using r by (simp_all add: fmul_def fadd_def mult.commute)
qed

lemma overflow: "fmul (Fin (2 ^ 1020)) (Fin 28) = PInf"
proof -
  define x :: rat where "x = of_int 28 * 2 ^ 1020"
  have "rnd64 x = x" "fmax_bound \<le> x"
    unfolding x_def by (rule rnd64_scaled) (simp_all add: fmax_bound_def)
  then have "round64 s x = PInf" for s
    by (simp add: round64_def)
  moreover have "fval (Fin (2 ^ 1020)) * fval (Fin 28) = x"
    by (simp add: x_def)
  ultimately show ?thesis
    by (simp only: fmul_def is_inf.simps f64.distinct if_False simp_thms)
qed

lemma smooth_doubling:
  "k < 1020 \<Longrightarrow> smooth_gain (Fin 29) (Fin (2 ^ k)) (Fin 0) = Fin (2 ^ Suc k)"
  "k < 1020 \<Longrightarrow> smooth_loss (Fin 29) (Fin (2 ^ k)) (Fin 0) = Fin (2 ^ Suc k)"
proof -
  have "fsub (Fin 29) (Fin 1) = Fin 28"
    by code_simp
  then show "k < 1020 \<Longrightarrow> smooth_gain (Fin 29) (Fin (2 ^ k)) (Fin 0) = Fin (2 ^ Suc k)"
    "k < 1020 \<Longrightarrow> smooth_loss (Fin 29) (Fin (2 ^ k)) (Fin 0) = Fin (2 ^ Suc k)"
    by (simp_all only: smooth_gain_def smooth_loss_def fle_Fin flt_Fin order_refl less_irrefl if_True if_False doubling)
qed

lemma smooth_overflow:
  assumes "a = Fin (2 ^ 1020) \<or> a = PInf"
  shows "smooth_gain (Fin 29) a (Fin 0) = PInf" and "smooth_loss (Fin 29) a (Fin 0) = PInf"
proof -
  have "fsub (Fin 29) (Fin 1) = Fin 28" "fmul PInf (Fin 28) = PInf" "fadd PInf (Fin 0) = PInf" "fdiv PInf (Fin 14) = PInf"
    by code_simp+
  then show "smooth_gain (Fin 29) a (Fin 0) = PInf" and "smooth_loss (Fin 29) a (Fin 0) = PInf"
    using assms overflow
    by (auto simp only: smooth_gain_def smooth_loss_def fle_Fin flt_Fin order_refl less_irrefl if_True if_False)
qed

lemma foldl_replicate_Suc: "foldl f a (replicate (Suc k) x) = f (foldl f a (replicate k x)) x"
  by (simp only: replicate_append_same[symmetric] replicate_Suc foldl_append foldl.simps)

lemma smooth_flat:
  assumes "k \<le> 1020"
  shows "foldl (smooth_gain (Fin 29)) (Fin 1) (replicate k (Fin 0)) = Fin (2 ^ k) \<and>
    foldl (smooth_loss (Fin 29)) (Fin 1) (replicate k (Fin 0)) = Fin (2 ^ k)"
  using assms
proof (induction k)
  case (Suc k)
  then show ?case
    by (simp only: foldl_replicate_Suc smooth_doubling Suc_le_eq less_imp_le simp_thms)
qed simp

lemma smooth_stuck:
  "foldl (smooth_gain (Fin 29)) (Fin (2 ^ 1020)) (replicate (Suc m) (Fin 0)) = PInf \<and>
   foldl (smooth_loss (Fin 29)) (Fin (2 ^ 1020)) (replicate (Suc m) (Fin 0)) = PInf"
proof (induction m)
  case 0
  show ?case
    by (simp only: foldl_replicate_Suc replicate_0 foldl.simps smooth_overflow simp_thms)
next
  case (Suc m)
  show ?case
    using Suc by (simp only: foldl_replicate_Suc[of _ _ "Suc m"] smooth_overflow simp_thms)
qed

lemma stalled_averages:
  "average_gain 29 (changes (map price (stalled_prices n))) = foldl (smooth_gain (Fin 29)) (Fin 1) (replicate n (Fin 0))"
  "average_loss 29 (changes (map price (stalled_prices n))) = foldl (smooth_loss (Fin 29)) (Fin 1) (replicate n (Fin 0))"
proof -
  have n: "float_of_int (uint (29 :: u64)) = Fin 29" "unat (29 :: u64) = 29"
    using float_of_int_exact[of 29] by simp_all
  have t: "take 29 (changes (map price (stalled_prices n))) = Fin 29 # Fin (- 29) # replicate 27 (Fin 0)"
    "drop 29 (changes (map price (stalled_prices n))) = replicate n (Fin 0)"
    by (simp_all add: stalled_changes take_Cons' drop_Cons' del: replicate.simps replicate_Suc)
  have "fdiv (sum_of_gains (Fin 29 # Fin (- 29) # replicate 27 (Fin 0))) (Fin 29) = Fin 1"
    "fdiv (sum_of_losses (Fin 29 # Fin (- 29) # replicate 27 (Fin 0))) (Fin 29) = Fin 1"
    by code_simp+
  then show "average_gain 29 (changes (map price (stalled_prices n))) = foldl (smooth_gain (Fin 29)) (Fin 1) (replicate n (Fin 0))"
    "average_loss 29 (changes (map price (stalled_prices n))) = foldl (smooth_loss (Fin 29)) (Fin 1) (replicate n (Fin 0))"
    by (simp_all only: average_gain_def average_loss_def Let_def n t)
qed

text \<open>Smoothing with the constant 14 is right for fourteen periods only. With 29 periods every
  candlestick without a price change doubles both averages, so a price that moved up and down
  by 29 once and never again takes them to infinity, and the RSI of a flat market is not a
  number from then on.\<close>

theorem rsi_lost_in_flat_market:
  assumes "1021 \<le> n" and "n < 2 ^ 63"
  shows "\<exists>v. rsi_value (rsi_run (NewRSIIndicator 29) (stalled_prices n)) = Ok v \<and> iv_value v = NaN"
proof -
  have len: "length (stalled_prices n) < 2 ^ 64" "length (stalled_prices n) > 29"
    using assms(2) by (simp_all add: stalled_prices_def)
  have all: "filter traded (stalled_prices n) = stalled_prices n"
    by (simp add: stalled_prices_def)
  define m where "m = n - 1021"
  have n: "replicate n (Fin 0) = replicate 1020 (Fin 0) @ replicate (Suc m) (Fin 0)"
    using assms(1) by (simp only: replicate_add[symmetric]) (simp add: m_def)
  have avg: "average_gain 29 (changes (map price (stalled_prices n))) = PInf"
    "average_loss 29 (changes (map price (stalled_prices n))) = PInf"
    using smooth_flat[of 1020] smooth_stuck[of m]
    by (simp_all only: stalled_averages n foldl_append order_refl simp_thms)
  have "rsi_of_averages PInf PInf = NaN"
    by code_simp
  then show ?thesis
    using rsi_value_run[OF _ len(1), of 29] len(2)
    by (simp add: all avg Let_def)
qed

lemma rsi_lost_in_flat_market_witness:
  "\<exists>v. rsi_value (rsi_run (NewRSIIndicator 29) (stalled_prices 1021)) = Ok v \<and> iv_value v = NaN"
  by (rule rsi_lost_in_flat_market) simp_all

section \<open>Properties of the moving averages\<close>

text \<open>C26. EMA: the value after any candlesticks is the plain mean of the first \<open>period\<close> traded
  prices carried through the recurrence over the later ones, with the start of the last traded
  candlestick; with fewer it is \<open>ErrNotEnoughData\<close>. An average of exactly zero is taken for
  one that is not there yet, so the series must not pass through zero.\<close>

theorem ema_agrees_with_reference:
  assumes "0 < period" and "unat period < 2 ^ 63"
    and "\<forall>k. unat period \<le> k \<and> k < length (filter traded cs) \<longrightarrow>
           \<not> is_zero (ema_reference period (take k (map price (filter traded cs))))"
  shows "ema_value (ema_run (NewEMAIndicator period) cs) =
    (let ts = filter traded cs; v = ema_reference period (map price ts)
     in if length ts < unat period then Err ErrNotEnoughData
        else if is_zero v then Err ErrNotEnoughData
        else Ok \<lparr>iv_time = cs_start (last ts), iv_value = v, iv_name = IndicatorEMA @ ''-'' @ show_u64 period\<rparr>)"
proof -
  define ts where "ts = filter traded cs"
  define e where "e = ema_run (NewEMAIndicator period) ts"
  have all: "\<forall>c \<in> set ts. traded c"
    by (simp add: ts_def)
  have run: "ema_run (NewEMAIndicator period) cs = e"
    unfolding e_def ts_def by (rule ema.run_skip)
  have warm: "ema_last e = Fin 0" if "length ts < unat period"
    using ema_run_warmup[OF all that assms(2)] by (simp add: e_def)
  have live: "ema_last e = ema_reference period (map price ts)" if "unat period \<le> length ts"
    using ema_run_live[OF all assms(1,2) that] assms(3) by (simp add: e_def ts_def)
  have period: "ema_period e = period"
    unfolding e_def by (induction ts rule: rev_induct) (simp_all add: NewEMAIndicator_def ema_add_frame)
  have time: "ema_last_time e = cs_start (last ts)" if "ts \<noteq> []"
    using that all unfolding e_def by (cases ts rule: rev_cases) (auto simp: ema_add_time)
  have "0 < unat period"
    using assms(1) by (simp add: unat_gt_0 word_neq_0_conv)
  then have "ts \<noteq> []" if "unat period \<le> length ts"
    using that by auto
  then show ?thesis
    using warm live time unfolding run ts_def[symmetric] Let_def
    by (cases "length ts < unat period") (auto simp: ema_value_def feq_zero_iff ema_name_def period)
qed

lemma unat_3_u64: "unat (3 :: u64) = 3"
  by simp

lemma ema_agrees_with_reference_witness:
  "ema_value (ema_run (NewEMAIndicator 3) (map flat_candle [58, 60, 65, 63])) =
     Ok \<lparr>iv_time = zero_time, iv_value = Fin 62, iv_name = ''ema-3''\<rparr>"
proof -
  define cs where "cs = map flat_candle [58, 60, 65, 63]"
  have ts: "filter traded cs = cs" and len: "length cs = 4"
    by (simp_all add: cs_def)
  have "\<not> is_zero (ema_reference 3 (take 3 (map price cs)))"
    unfolding cs_def by code_simp
  moreover have "k = 3" if "3 \<le> k" "k < 4" for k :: nat
    using that by simp
  ultimately have "\<forall>k. unat (3 :: u64) \<le> k \<and> k < length (filter traded cs) \<longrightarrow>
      \<not> is_zero (ema_reference 3 (take k (map price (filter traded cs))))"
    unfolding ts len by (metis unat_3_u64)
  from ema_agrees_with_reference[OF _ _ this] have "ema_value (ema_run (NewEMAIndicator 3) cs) =
      (let v = ema_reference 3 (map price cs)
       in if is_zero v then Err ErrNotEnoughData
          else Ok \<lparr>iv_time = cs_start (last cs), iv_value = v, iv_name = IndicatorEMA @ ''-'' @ show_u64 3\<rparr>)"
    by (simp add: ts len Let_def)
  also have "\<dots> = Ok \<lparr>iv_time = zero_time, iv_value = Fin 62, iv_name = ''ema-3''\<rparr>"
    unfolding cs_def by code_simp
  finally show ?thesis
    by (simp add: cs_def)
qed

text \<open>EMA with period 0, a value the genetic search can produce, never has a value, however
  many candlesticks it is given.\<close>

theorem ema_period_zero_never_ready:
  assumes "length cs < 2 ^ 64 - 1"
  shows "ema_value (ema_run (NewEMAIndicator 0) cs) = Err ErrNotEnoughData"
  using ema_run_period_zero[OF assms] by (simp add: ema_value_def)

lemma ema_period_zero_never_ready_witness:
  "ema_value (ema_run (NewEMAIndicator 0) [flat_candle 58, flat_candle 87]) = Err ErrNotEnoughData"
  by (rule ema_period_zero_never_ready) simp

text \<open>DEMA: with both averages above zero and a sum that does not overflow, the normalised
  difference lies between -1/2 and 1/2 (it divides the quotient by two where halving
  the sum was meant: the range would be -2 to 2).\<close>

theorem dema_value_range:
  assumes "dema_value d = Ok v" and "fpos (ema_last (dema_short d))" and "fpos (ema_last (dema_long d))"
    and "f64_ok (ema_last (dema_short d))" and "is_fin (ema_last (dema_short d))" and "is_fin (ema_last (dema_long d))"
    and "is_fin (fadd (ema_last (dema_short d)) (ema_last (dema_long d)))"
  shows "fle (Fin (- (1 / 2))) (iv_value v) \<and> fle (iv_value v) (Fin (1 / 2))"
proof -
  have "iv_value v = fdiv (fdiv (fsub (ema_last (dema_short d)) (ema_last (dema_long d)))
      (fadd (ema_last (dema_short d)) (ema_last (dema_long d)))) (Fin 2)"
    using assms(1) by (auto simp: dema_value_def ema_value_def result_simps split: if_splits)
  then show ?thesis
    using dema_quotient_bound[OF assms(2-)] by simp
qed

lemma dema_value_range_witness:
  "fle (Fin (- (1 / 2))) (iv_value \<lparr>iv_time = zero_time, iv_value = Fin (1 / 4), iv_name = ''dema-1-2''\<rparr>) \<and>
   fle (iv_value \<lparr>iv_time = zero_time, iv_value = Fin (1 / 4), iv_name = ''dema-1-2''\<rparr>) (Fin (1 / 2))"
  by (rule dema_value_range[of "NewDEMAIndicator 1 2\<lparr>dema_short := NewEMAIndicator 1\<lparr>ema_last := Fin 6\<rparr>,
      dema_long := NewEMAIndicator 2\<lparr>ema_last := Fin 2\<rparr>\<rparr>"]; code_simp)

text \<open>MACD: the value after any candlesticks is the difference of the two exponential averages
  the same candlesticks give, and it is there exactly when both are.\<close>

theorem macd_is_difference:
  "macd_value (foldl (\<lambda>m c. fst (macd_add m c)) (NewMACDIndicator s l) cs) = Ok v \<longleftrightarrow>
    (\<exists>a b. ema_value (ema_run (NewEMAIndicator s) cs) = Ok a \<and>
           ema_value (ema_run (NewEMAIndicator l) cs) = Ok b \<and>
           v = \<lparr>iv_time = macd_last_time (foldl (\<lambda>m c. fst (macd_add m c)) (NewMACDIndicator s l) cs),
                iv_value = fsub (iv_value a) (iv_value b),
                iv_name = IndicatorMACD @ ''-'' @ show_u64 s @ ''-'' @ show_u64 l\<rparr>) \<and>
    \<not> is_zero_time (macd_last_time (foldl (\<lambda>m c. fst (macd_add m c)) (NewMACDIndicator s l) cs))"
proof -
  define m where "m = foldl (\<lambda>m c. fst (macd_add m c)) (NewMACDIndicator s l) cs"
  have "macd_short m = ema_run (NewEMAIndicator s) cs \<and> macd_long m = ema_run (NewEMAIndicator l) cs \<and>
      macd_short_period m = s \<and> macd_long_period m = l"
    unfolding m_def
  proof (induction cs rule: rev_induct)
    case (snoc c cs)
    then show ?case
      by (cases "traded c") (simp_all add: macd_add_eq macd_add_skip ema_add_skip)
  qed (simp add: NewMACDIndicator_def)
  then show ?thesis
    unfolding m_def[symmetric] by (auto simp: macd_value_def macd_name_def result_simps)
qed

text \<open>MACD with signal: the averages feed on candlesticks with volume only, and the
  candlestick that carries a MACD value has that value for its volume. A MACD of zero, the
  crossing itself, is therefore left out of the signal line; any other value enters it.\<close>

theorem macds_signal_skips_crossing:
  assumes "traded c" and "macd_value (fst (macd_add (macds_macd m) c)) = Ok v"
  shows "macds_signal (fst (macds_add m c)) =
    (if is_zero (iv_value v) then macds_signal m
     else fst (ema_add (macds_signal m) (signal_candlestick (iv_value v))))"
  using assms by (simp add: macds_add_eq ema_add_skip signal_candlestick_def feq_zero_iff)

lemma macds_signal_skips_crossing_witness:
  "macds_signal (fst (macds_add (NewMACDWithSignal 1 1 1) (flat_candle 58\<lparr>cs_start := 60\<rparr>))) = NewEMAIndicator 1"
  by (subst macds_signal_skips_crossing[of _ _
        "\<lparr>iv_time = 60, iv_value = Fin 0, iv_name = ''macd-1-1''\<rparr>"]; code_simp)

end
