(* ===== verification/Strategies.thy ===== *)
theory Strategies
  imports Indicators
begin

text \<open>
  The three strategies (\<open>ema_crossover_strategy.go\<close>, \<open>rsi_strategy.go\<close>,
  \<open>s1_strategy.go\<close>) as the trading code sees them through \<open>StrategyInterface\<close> of
  \<open>strategy.go\<close>: the indicators they ask for and their decisions to buy and to sell on
  the history of indicator sets. A pointer to an indicator value or set that may be nil is an
  option, and using a nil one is a panic. The log and Slack calls are not modelled, but what
  they dereference on the way is. The back pointer to the stored model, which only messages
  read, is kept as the flag whether it is set.
\<close>

record indicator_set =
  is_time :: time
  is_values :: "indicator_value option list"

type_synonym history = "indicator_set option list"

section \<open>Slices and pointers\<close>

definition slice_get :: "'a list \<Rightarrow> int \<Rightarrow> 'a go_result" where
  "slice_get xs i = (if 0 \<le> i \<and> i < int (length xs) then Ok (xs ! nat i)
     else Panic ''index out of range'')"

definition deref :: "'a option \<Rightarrow> 'a go_result" where
  "deref p = (case p of Some a \<Rightarrow> Ok a
     | None \<Rightarrow> Panic ''invalid memory address or nil pointer dereference'')"

text \<open>\<open>history[i].Values\<close>\<close>

definition values_at :: "history \<Rightarrow> int \<Rightarrow> indicator_value option list go_result" where
  "values_at h i = bind_result (slice_get h i) (\<lambda>p. bind_result (deref p) (\<lambda>s. Ok (is_values s)))"

section \<open>EMA crossover\<close>

record ema_crossover =
  eco_ShortPeriod :: u64
  eco_LongPeriod :: u64
  eco_UpThreshold :: f64
  eco_DownThreshold :: f64
  eco_attached :: bool

definition eco_Indicators :: "ema_crossover \<Rightarrow> indicator list" where
  "eco_Indicators e = [IDEMA (NewDEMAIndicator (eco_ShortPeriod e) (eco_LongPeriod e)),
     IEMA (NewEMAIndicator (eco_ShortPeriod e)), IEMA (NewEMAIndicator (eco_LongPeriod e))]"

text \<open>What \<open>Buy\<close> and \<open>Sell\<close> do before they compare: the value of DEMA, and the other two
  values, whose names and numbers go into the Slack message.\<close>

definition eco_signal :: "ema_crossover \<Rightarrow> history \<Rightarrow> int \<Rightarrow> f64 go_result" where
  "eco_signal e history current =
    (if int (length history) - 1 < current then Err ErrNotEnoughData
     else
       bind_result (values_at history current) (\<lambda>currentValues.
       bind_result (slice_get currentValues 0) (\<lambda>dema.
       case dema of
         None \<Rightarrow> Err ErrNotEnoughData
       | Some d \<Rightarrow>
           if \<not> eco_attached e then Panic ''invalid memory address or nil pointer dereference''
           else
             bind_result (slice_get currentValues 1) (\<lambda>p1. bind_result (deref p1) (\<lambda>v1.
             bind_result (slice_get currentValues 2) (\<lambda>p2. bind_result (deref p2) (\<lambda>v2.
               Ok (iv_value d))))))))"

definition eco_Buy :: "ema_crossover \<Rightarrow> history \<Rightarrow> int \<Rightarrow> bool go_result" where
  "eco_Buy e history current =
     bind_result (eco_signal e history current) (\<lambda>dema. Ok (flt (eco_UpThreshold e) dema))"

definition eco_Sell :: "ema_crossover \<Rightarrow> history \<Rightarrow> int \<Rightarrow> bool go_result" where
  "eco_Sell e history current =
     bind_result (eco_signal e history current) (\<lambda>dema. Ok (flt dema (eco_DownThreshold e)))"

section \<open>RSI\<close>

record rsi_strategy =
  rs_Period :: u64
  rs_BuyThreshold :: f64
  rs_SellThreshold :: f64
  rs_attached :: bool

definition rs_Indicators :: "rsi_strategy \<Rightarrow> indicator list" where
  "rs_Indicators e = [IRSI (NewRSIIndicator (rs_Period e))]"

definition rs_Buy :: "rsi_strategy \<Rightarrow> history \<Rightarrow> int \<Rightarrow> bool go_result" where
  "rs_Buy e history current =
    (if int (length history) - 1 < current then Err ErrNotEnoughData
     else
       bind_result (values_at history current) (\<lambda>currentValues.
       bind_result (slice_get currentValues 0) (\<lambda>rsi.
       case rsi of None \<Rightarrow> Err ErrNotEnoughData
       | Some r \<Rightarrow> Ok (fle (iv_value r) (rs_BuyThreshold e)))))"

definition rs_Sell :: "rsi_strategy \<Rightarrow> history \<Rightarrow> int \<Rightarrow> bool go_result" where
  "rs_Sell e history current =
    (if int (length history) - 1 < current then Err ErrNotEnoughData
     else
       bind_result (values_at history current) (\<lambda>currentValues.
       bind_result (slice_get currentValues 0) (\<lambda>rsi.
       case rsi of None \<Rightarrow> Err ErrNotEnoughData
       | Some r \<Rightarrow> Ok (fle (rs_SellThreshold e) (iv_value r)))))"

section \<open>S1\<close>

record s1_strategy =
  s1_EMAShortPeriod :: u64
  s1_EMALongPeriod :: u64
  s1_EMAUpThreshold :: f64
  s1_EMADownThreshold :: f64
  s1_RSIExitThreshold :: f64
  s1_RSIEntranceThreshold :: f64
  s1_attached :: bool

definition rsiPeriod :: u64 where
  "rsiPeriod = 14"

definition s1_Indicators :: "s1_strategy \<Rightarrow> indicator list" where
  "s1_Indicators s = [IDEMA (NewDEMAIndicator (s1_EMAShortPeriod s) (s1_EMALongPeriod s)),
     IEMA (NewEMAIndicator (s1_EMAShortPeriod s)), IEMA (NewEMAIndicator (s1_EMALongPeriod s)),
     IRSI (NewRSIIndicator rsiPeriod)]"

text \<open>The check against reentering a trade: whether the previous tick still has both signals.\<close>

definition s1_reentering :: "s1_strategy \<Rightarrow> history \<Rightarrow> int \<Rightarrow> bool go_result" where
  "s1_reentering s history current =
    (if current - 1 \<ge> 0 then
       bind_result (values_at history (current - 1)) (\<lambda>vs.
       bind_result (slice_get vs 0) (\<lambda>lastDEMA.
       bind_result (slice_get vs 3) (\<lambda>lastRSI.
       bind_result (deref lastDEMA) (\<lambda>d.
         if fle (s1_EMAUpThreshold s) (iv_value d)
         then bind_result (deref lastRSI) (\<lambda>r. Ok (fle (s1_RSIExitThreshold s) (iv_value r)))
         else Ok False))))
     else Ok False)"

definition s1_Buy :: "s1_strategy \<Rightarrow> history \<Rightarrow> int \<Rightarrow> bool go_result" where
  "s1_Buy s history current =
    (if int (length history) - 1 < current then Err ErrNotEnoughData
     else
       bind_result (s1_reentering s history current) (\<lambda>again.
       if again then Ok False
       else
         bind_result (values_at history current) (\<lambda>currentValues.
         bind_result (slice_get currentValues 3) (\<lambda>rsi.
         bind_result (slice_get currentValues 0) (\<lambda>dema.
         bind_result (deref rsi) (\<lambda>_. bind_result (deref dema) (\<lambda>_.
         case rsi of
           None \<Rightarrow> Err ErrNotEnoughData
         | Some r \<Rightarrow>
             if fle (iv_value r) (s1_RSIEntranceThreshold s) then Ok True
             else (case dema of None \<Rightarrow> Err ErrNotEnoughData
                   | Some d \<Rightarrow> Ok (flt (s1_EMAUpThreshold s) (iv_value d))))))))))"

definition s1_Sell :: "s1_strategy \<Rightarrow> history \<Rightarrow> int \<Rightarrow> bool go_result" where
  "s1_Sell s history current =
    (if int (length history) - 1 < current then Err ErrNotEnoughData
     else
       bind_result (values_at history current) (\<lambda>currentValues.
       bind_result (slice_get currentValues 0) (\<lambda>dema.
       bind_result (slice_get currentValues 3) (\<lambda>rsi.
       bind_result (deref rsi) (\<lambda>_. bind_result (deref dema) (\<lambda>_.
       case rsi of
         None \<Rightarrow> Err ErrNotEnoughData
       | Some r \<Rightarrow>
           if fle (s1_RSIExitThreshold s) (iv_value r) then Ok True
           else (case dema of None \<Rightarrow> Err ErrNotEnoughData
                 | Some d \<Rightarrow> Ok (flt (iv_value d) (s1_EMADownThreshold s)))))))))"

section \<open>The interface\<close>

datatype strategy = SEMACrossover ema_crossover | SRSI rsi_strategy | SS1 s1_strategy

fun Indicators :: "strategy \<Rightarrow> indicator list" where
  "Indicators (SEMACrossover e) = eco_Indicators e"
| "Indicators (SRSI e) = rs_Indicators e"
| "Indicators (SS1 s) = s1_Indicators s"

fun Buy :: "strategy \<Rightarrow> history \<Rightarrow> int \<Rightarrow> bool go_result" where
  "Buy (SEMACrossover e) = eco_Buy e"
| "Buy (SRSI e) = rs_Buy e"
| "Buy (SS1 s) = s1_Buy s"

fun Sell :: "strategy \<Rightarrow> history \<Rightarrow> int \<Rightarrow> bool go_result" where
  "Sell (SEMACrossover e) = eco_Sell e"
| "Sell (SRSI e) = rs_Sell e"
| "Sell (SS1 s) = s1_Sell s"

fun SetTradingStrategy :: "strategy \<Rightarrow> strategy" where
  "SetTradingStrategy (SEMACrossover e) = SEMACrossover (e\<lparr>eco_attached := True\<rparr>)"
| "SetTradingStrategy (SRSI e) = SRSI (e\<lparr>rs_attached := True\<rparr>)"
| "SetTradingStrategy (SS1 s) = SS1 (s\<lparr>s1_attached := True\<rparr>)"

fun attached :: "strategy \<Rightarrow> bool" where
  "attached (SEMACrossover e) = eco_attached e"
| "attached (SRSI e) = rs_attached e"
| "attached (SS1 s) = s1_attached s"

section \<open>What the trading code relies on\<close>

text \<open>
  A set is complete for a strategy when it has a value for every indicator. The history is
  ready at an index when the set there is complete and so is the one before, if there is one.
\<close>

definition complete_set :: "nat \<Rightarrow> indicator_set option \<Rightarrow> bool" where
  "complete_set n s \<longleftrightarrow> (case s of None \<Rightarrow> False | Some s \<Rightarrow> length (is_values s) = n \<and> None \<notin> set (is_values s))"

definition ready_at :: "nat \<Rightarrow> history \<Rightarrow> int \<Rightarrow> bool" where
  "ready_at n h i \<longleftrightarrow> 0 \<le> i \<and> i < int (length h) \<and> complete_set n (h ! nat i) \<and>
     (0 < i \<longrightarrow> complete_set n (h ! nat (i - 1)))"

text \<open>The number at a position of a complete set.\<close>

definition reading :: "history \<Rightarrow> int \<Rightarrow> nat \<Rightarrow> f64" where
  "reading h i k = iv_value (the (is_values (the (h ! nat i)) ! k))"

lemma complete_set_D:
  assumes "complete_set n (h ! nat i)" and "0 \<le> i" and "i < int (length h)"
  obtains vs where "values_at h i = Ok vs" and "length vs = n"
    and "\<And>k. k < n \<Longrightarrow> slice_get vs (int k) = Ok (Some (the (vs ! k)))"
    and "\<And>k. k < n \<Longrightarrow> iv_value (the (vs ! k)) = reading h i k"
proof -
  obtain s where s: "h ! nat i = Some s" "length (is_values s) = n" "None \<notin> set (is_values s)"
    using assms(1) by (auto simp: complete_set_def split: option.splits)
  show thesis
  proof (rule that[of "is_values s"])
    show "values_at h i = Ok (is_values s)"
      using assms(2,3) s by (simp add: values_at_def slice_get_def deref_def)
    fix k assume k: "k < n"
    then have "is_values s ! k \<in> set (is_values s)"
      using s by simp
    then have "is_values s ! k \<noteq> None"
      using s(3) by metis
    then show "slice_get (is_values s) (int k) = Ok (Some (the (is_values s ! k)))"
      using k s(2) by (simp add: slice_get_def)
    show "iv_value (the (is_values s ! k)) = reading h i k"
      by (simp add: reading_def s)
  qed (rule s(2))
qed

text \<open>
  The contract of a strategy: no decision beyond the end of the history; on a history that is
  ready there always is a decision, and it is a function of the readings.
\<close>

locale trading_rule =
  fixes inds :: "'s \<Rightarrow> indicator list"
    and buy sell :: "'s \<Rightarrow> history \<Rightarrow> int \<Rightarrow> bool go_result"
    and usable :: "'s \<Rightarrow> bool"
    and buys sells :: "'s \<Rightarrow> history \<Rightarrow> int \<Rightarrow> bool"
  assumes beyond: "int (length h) - 1 < i \<Longrightarrow> buy s h i = Err ErrNotEnoughData \<and> sell s h i = Err ErrNotEnoughData"
    and buy_ready: "usable s \<Longrightarrow> ready_at (length (inds s)) h i \<Longrightarrow> buy s h i = Ok (buys s h i)"
    and sell_ready: "usable s \<Longrightarrow> ready_at (length (inds s)) h i \<Longrightarrow> sell s h i = Ok (sells s h i)"
begin

lemma decides:
  assumes "usable s" and "\<forall>x \<in> set h. complete_set (length (inds s)) x" and "0 \<le> i"
  shows "(\<exists>b. buy s h i = Ok b) \<or> buy s h i = Err ErrNotEnoughData"
    and "(\<exists>b. sell s h i = Ok b) \<or> sell s h i = Err ErrNotEnoughData"
proof -
  have "ready_at (length (inds s)) h i" if "\<not> int (length h) - 1 < i"
    using that assms(2,3) by (simp add: ready_at_def)
  then show "(\<exists>b. buy s h i = Ok b) \<or> buy s h i = Err ErrNotEnoughData"
    and "(\<exists>b. sell s h i = Ok b) \<or> sell s h i = Err ErrNotEnoughData"
    using beyond[of h i s] buy_ready[OF assms(1)] sell_ready[OF assms(1)] by blast+
qed

end

lemma ready_at_D:
  assumes "ready_at n h i"
  shows "complete_set n (h ! nat i)" "0 \<le> i" "i < int (length h)" "0 < i \<Longrightarrow> complete_set n (h ! nat (i - 1))"
  using assms by (simp_all add: ready_at_def)

definition eco_buys :: "ema_crossover \<Rightarrow> history \<Rightarrow> int \<Rightarrow> bool" where
  "eco_buys e h i \<longleftrightarrow> flt (eco_UpThreshold e) (reading h i 0)"

definition eco_sells :: "ema_crossover \<Rightarrow> history \<Rightarrow> int \<Rightarrow> bool" where
  "eco_sells e h i \<longleftrightarrow> flt (reading h i 0) (eco_DownThreshold e)"

lemma eco_signal_ready:
  assumes "eco_attached e" and "ready_at 3 h i"
  shows "eco_signal e h i = Ok (reading h i 0)"
proof -
  note r = ready_at_D[OF assms(2)]
  from r(1-3) obtain vs where vs: "values_at h i = Ok vs"
    "\<And>k. k < 3 \<Longrightarrow> slice_get vs (int k) = Ok (Some (the (vs ! k)))"
    "\<And>k. k < 3 \<Longrightarrow> iv_value (the (vs ! k)) = reading h i k"
    by (rule complete_set_D) blast
  then show ?thesis
    using assms(1) r vs(2)[of 0] vs(2)[of 1] vs(2)[of 2] vs(3)[of 0]
    by (simp add: eco_signal_def deref_def)
qed

lemma indicator_count [simp]:
  "length (eco_Indicators e) = 3" "length (rs_Indicators r) = 1" "length (s1_Indicators s) = 4"
  by (simp_all add: eco_Indicators_def rs_Indicators_def s1_Indicators_def)

lemma eco_ready:
  assumes "eco_attached e" and "ready_at 3 h i"
  shows "eco_Buy e h i = Ok (eco_buys e h i)" and "eco_Sell e h i = Ok (eco_sells e h i)"
  using eco_signal_ready[OF assms] by (simp_all add: eco_Buy_def eco_Sell_def eco_buys_def eco_sells_def)

lemma eco_beyond:
  "int (length h) - 1 < i \<Longrightarrow> eco_Buy e h i = Err ErrNotEnoughData \<and> eco_Sell e h i = Err ErrNotEnoughData"
  by (simp add: eco_Buy_def eco_Sell_def eco_signal_def)

interpretation eco: trading_rule eco_Indicators eco_Buy eco_Sell eco_attached eco_buys eco_sells
  by unfold_locales (simp_all only: indicator_count eco_beyond eco_ready simp_thms)

definition rs_buys :: "rsi_strategy \<Rightarrow> history \<Rightarrow> int \<Rightarrow> bool" where
  "rs_buys e h i \<longleftrightarrow> fle (reading h i 0) (rs_BuyThreshold e)"

definition rs_sells :: "rsi_strategy \<Rightarrow> history \<Rightarrow> int \<Rightarrow> bool" where
  "rs_sells e h i \<longleftrightarrow> fle (rs_SellThreshold e) (reading h i 0)"

lemma rs_ready:
  assumes "ready_at 1 h i"
  shows "rs_Buy e h i = Ok (rs_buys e h i)" and "rs_Sell e h i = Ok (rs_sells e h i)"
proof -
  note r = ready_at_D[OF assms]
  from r(1-3) obtain vs where vs: "values_at h i = Ok vs"
    "\<And>k. k < 1 \<Longrightarrow> slice_get vs (int k) = Ok (Some (the (vs ! k)))"
    "\<And>k. k < 1 \<Longrightarrow> iv_value (the (vs ! k)) = reading h i k"
    by (rule complete_set_D) blast
  then show "rs_Buy e h i = Ok (rs_buys e h i)" and "rs_Sell e h i = Ok (rs_sells e h i)"
    using r vs(2)[of 0] vs(3)[of 0] by (simp_all add: rs_Buy_def rs_Sell_def rs_buys_def rs_sells_def)
qed

lemma rs_beyond:
  "int (length h) - 1 < i \<Longrightarrow> rs_Buy e h i = Err ErrNotEnoughData \<and> rs_Sell e h i = Err ErrNotEnoughData"
  by (simp add: rs_Buy_def rs_Sell_def)

interpretation rs: trading_rule rs_Indicators rs_Buy rs_Sell "\<lambda>_. True" rs_buys rs_sells
  by unfold_locales (simp_all only: indicator_count rs_beyond rs_ready simp_thms)

definition s1_buys :: "s1_strategy \<Rightarrow> history \<Rightarrow> int \<Rightarrow> bool" where
  "s1_buys s h i \<longleftrightarrow>
    \<not> (0 < i \<and> fle (s1_EMAUpThreshold s) (reading h (i - 1) 0) \<and> fle (s1_RSIExitThreshold s) (reading h (i - 1) 3)) \<and>
    (fle (reading h i 3) (s1_RSIEntranceThreshold s) \<or> flt (s1_EMAUpThreshold s) (reading h i 0))"

definition s1_sells :: "s1_strategy \<Rightarrow> history \<Rightarrow> int \<Rightarrow> bool" where
  "s1_sells s h i \<longleftrightarrow> fle (s1_RSIExitThreshold s) (reading h i 3) \<or> flt (reading h i 0) (s1_EMADownThreshold s)"

lemma s1_reentering_ready:
  assumes "ready_at 4 h i"
  shows "s1_reentering s h i = Ok (0 < i \<and> fle (s1_EMAUpThreshold s) (reading h (i - 1) 0) \<and>
    fle (s1_RSIExitThreshold s) (reading h (i - 1) 3))"
proof (cases "0 < i")
  case True
  note r = ready_at_D[OF assms]
  have "complete_set 4 (h ! nat (i - 1))" "0 \<le> i - 1" "i - 1 < int (length h)"
    using True r by simp_all
  then obtain vs where vs: "values_at h (i - 1) = Ok vs"
    "\<And>k. k < 4 \<Longrightarrow> slice_get vs (int k) = Ok (Some (the (vs ! k)))"
    "\<And>k. k < 4 \<Longrightarrow> iv_value (the (vs ! k)) = reading h (i - 1) k"
    by (rule complete_set_D) blast
  then show ?thesis
    using True vs(2)[of 0] vs(2)[of 3] vs(3)[of 0] vs(3)[of 3]
    by (simp add: s1_reentering_def deref_def)
qed (simp add: s1_reentering_def)

lemma s1_ready:
  assumes "ready_at 4 h i"
  shows "s1_Buy s h i = Ok (s1_buys s h i)" and "s1_Sell s h i = Ok (s1_sells s h i)"
proof -
  note r = ready_at_D[OF assms]
  from r(1-3) obtain vs where vs: "values_at h i = Ok vs"
    "\<And>k. k < 4 \<Longrightarrow> slice_get vs (int k) = Ok (Some (the (vs ! k)))"
    "\<And>k. k < 4 \<Longrightarrow> iv_value (the (vs ! k)) = reading h i k"
    by (rule complete_set_D) blast
  then show "s1_Buy s h i = Ok (s1_buys s h i)" and "s1_Sell s h i = Ok (s1_sells s h i)"
    using r vs(2)[of 0] vs(2)[of 3] vs(3)[of 0] vs(3)[of 3]
    by (auto simp: s1_Buy_def s1_Sell_def s1_reentering_ready[OF assms] deref_def s1_buys_def s1_sells_def)
qed

lemma s1_beyond:
  "int (length h) - 1 < i \<Longrightarrow> s1_Buy s h i = Err ErrNotEnoughData \<and> s1_Sell s h i = Err ErrNotEnoughData"
  by (simp add: s1_Buy_def s1_Sell_def)

interpretation s1: trading_rule s1_Indicators s1_Buy s1_Sell "\<lambda>_. True" s1_buys s1_sells
  by unfold_locales (simp_all only: indicator_count s1_beyond s1_ready simp_thms)

fun buys :: "strategy \<Rightarrow> history \<Rightarrow> int \<Rightarrow> bool" where
  "buys (SEMACrossover e) = eco_buys e"
| "buys (SRSI e) = rs_buys e"
| "buys (SS1 s) = s1_buys s"

fun sells :: "strategy \<Rightarrow> history \<Rightarrow> int \<Rightarrow> bool" where
  "sells (SEMACrossover e) = eco_sells e"
| "sells (SRSI e) = rs_sells e"
| "sells (SS1 s) = s1_sells s"

interpretation rule: trading_rule Indicators Buy Sell attached buys sells
proof unfold_locales
  fix s h i
  show "int (length h) - 1 < i \<Longrightarrow> Buy s h i = Err ErrNotEnoughData \<and> Sell s h i = Err ErrNotEnoughData"
    by (cases s) (simp_all add: eco.beyond rs.beyond s1.beyond)
  show "attached s \<Longrightarrow> ready_at (length (Indicators s)) h i \<Longrightarrow> Buy s h i = Ok (buys s h i)"
    by (cases s) (simp_all add: eco.buy_ready rs.buy_ready s1.buy_ready)
  show "attached s \<Longrightarrow> ready_at (length (Indicators s)) h i \<Longrightarrow> Sell s h i = Ok (sells s h i)"
    by (cases s) (simp_all add: eco.sell_ready rs.sell_ready s1.sell_ready)
qed

section \<open>Decisions look back only\<close>

text \<open>What is added behind the current set does not change a decision.\<close>

locale causal_rule = trading_rule inds buy sell usable buys sells
  for inds :: "'s \<Rightarrow> indicator list" and buy sell usable buys sells +
  assumes buys_past: "0 \<le> i \<Longrightarrow> i < int (length h) \<Longrightarrow> buys s (h @ h') i = buys s h i"
    and sells_past: "0 \<le> i \<Longrightarrow> i < int (length h) \<Longrightarrow> sells s (h @ h') i = sells s h i"
begin

lemma no_look_ahead:
  assumes "usable s" and "ready_at (length (inds s)) h i"
  shows "buy s (h @ h') i = buy s h i" and "sell s (h @ h') i = sell s h i"
proof -
  have "0 \<le> i" "i < int (length h)" "ready_at (length (inds s)) (h @ h') i"
    using assms(2) by (auto simp: ready_at_def nth_append)
  then show "buy s (h @ h') i = buy s h i" and "sell s (h @ h') i = sell s h i"
    using assms by (simp_all add: buy_ready sell_ready buys_past sells_past)
qed

end

lemma reading_append:
  "0 \<le> i \<Longrightarrow> i < int (length h) \<Longrightarrow> reading (h @ h') i k = reading h i k"
  by (simp add: reading_def nth_append nat_less_iff)

interpretation past: causal_rule Indicators Buy Sell attached buys sells
proof unfold_locales
  fix s and i :: int and h h' :: history
  assume "0 \<le> i" "i < int (length h)"
  then show "buys s (h @ h') i = buys s h i" "sells s (h @ h') i = sells s h i"
    by (cases s, auto simp: eco_buys_def rs_buys_def s1_buys_def eco_sells_def rs_sells_def s1_sells_def reading_append)+
qed

section \<open>Properties\<close>

text \<open>Strategies decide: with the stored model attached and every set of the history complete
  for the strategy's indicators, buying and selling never panic; they answer yes or no, or
  \<open>ErrNotEnoughData\<close> beyond the end of the history.\<close>

theorem strategies_decide:
  assumes "attached s" and "\<forall>x \<in> set h. complete_set (length (Indicators s)) x" and "0 \<le> i"
  shows "((\<exists>b. Buy s h i = Ok b) \<or> Buy s h i = Err ErrNotEnoughData) \<and>
    ((\<exists>b. Sell s h i = Ok b) \<or> Sell s h i = Err ErrNotEnoughData)"
  using rule.decides[OF assms] by blast

definition test_set :: "rat list \<Rightarrow> indicator_set option" where
  "test_set qs = Some \<lparr>is_time = zero_time, is_values = map (\<lambda>q. Some \<lparr>iv_time = zero_time, iv_value = Fin q, iv_name = ''v''\<rparr>) qs\<rparr>"

definition test_s1 :: s1_strategy where
  "test_s1 = \<lparr>s1_EMAShortPeriod = 10, s1_EMALongPeriod = 20, s1_EMAUpThreshold = Fin (1 / 2),
     s1_EMADownThreshold = Fin (- 1 / 2), s1_RSIExitThreshold = Fin 70, s1_RSIEntranceThreshold = Fin 30,
     s1_attached = True\<rparr>"

lemma strategies_decide_witness:
  "((\<exists>b. Buy (SS1 test_s1) [test_set [1, 2, 3, 50]] 0 = Ok b) \<or> Buy (SS1 test_s1) [test_set [1, 2, 3, 50]] 0 = Err ErrNotEnoughData) \<and>
   ((\<exists>b. Sell (SS1 test_s1) [test_set [1, 2, 3, 50]] 0 = Ok b) \<or> Sell (SS1 test_s1) [test_set [1, 2, 3, 50]] 0 = Err ErrNotEnoughData)"
  by (rule strategies_decide) (simp_all add: test_s1_def s1_Indicators_def complete_set_def test_set_def)

text \<open>S1 buys on a complete history exactly when RSI is at most the entrance threshold or DEMA
  is above the up threshold, unless the previous set had both signals to stay out; it sells
  exactly when RSI reached the exit threshold or DEMA is below the down threshold.\<close>

theorem s1_decisions:
  assumes "ready_at 4 h i"
  shows "s1_Buy s h i = Ok (\<not> (0 < i \<and> fle (s1_EMAUpThreshold s) (reading h (i - 1) 0) \<and>
        fle (s1_RSIExitThreshold s) (reading h (i - 1) 3)) \<and>
      (fle (reading h i 3) (s1_RSIEntranceThreshold s) \<or> flt (s1_EMAUpThreshold s) (reading h i 0))) \<and>
    s1_Sell s h i = Ok (fle (s1_RSIExitThreshold s) (reading h i 3) \<or> flt (reading h i 0) (s1_EMADownThreshold s))"
  using s1_ready[OF assms, of s] by (simp only: s1_buys_def s1_sells_def simp_thms)

lemma s1_decisions_witness:
  "s1_Buy test_s1 [test_set [0, 2, 3, 50], test_set [1, 2, 3, 50]] 1 = Ok True \<and>
   s1_Sell test_s1 [test_set [0, 2, 3, 50], test_set [1, 2, 3, 50]] 1 = Ok False"
  using s1_decisions[of "[test_set [0, 2, 3, 50], test_set [1, 2, 3, 50]]" 1 test_s1]
  by (simp add: ready_at_def complete_set_def test_set_def test_s1_def reading_def)

text \<open>S1 and the first complete set: when the set before the current one has no DEMA value yet,
  which is so on the first tick after the indicators have warmed up, \<open>Buy\<close> panics. The nil
  checks that were to answer \<open>ErrNotEnoughData\<close> come after the first use of the values.\<close>

theorem s1_buy_panics_after_warmup:
  assumes "0 < i" and "i < int (length h)" and "h ! nat (i - 1) = Some prev"
    and "4 \<le> length (is_values prev)" and "is_values prev ! 0 = None"
  shows "s1_Buy s h i = Panic ''invalid memory address or nil pointer dereference''"
  using assms
  by (auto simp: s1_Buy_def s1_reentering_def values_at_def slice_get_def deref_def)

lemma s1_buy_panics_after_warmup_witness:
  "s1_Buy test_s1 [Some \<lparr>is_time = zero_time, is_values = [None, None, None, None]\<rparr>, test_set [1, 2, 3, 50]] 1 =
     Panic ''invalid memory address or nil pointer dereference''"
  by (rule s1_buy_panics_after_warmup[of _ _ "\<lparr>is_time = zero_time, is_values = [None, None, None, None]\<rparr>"]) simp_all

text \<open>EMA crossover never wants to buy and to sell on the same set when the down threshold is not
  above the up threshold.\<close>

theorem eco_never_both:
  assumes "fle (eco_DownThreshold e) (eco_UpThreshold e)"
  shows "\<not> (eco_Buy e h i = Ok True \<and> eco_Sell e h i = Ok True)"
proof
  assume "eco_Buy e h i = Ok True \<and> eco_Sell e h i = Ok True"
  then obtain d where "flt (eco_UpThreshold e) d" and "flt d (eco_DownThreshold e)"
    by (auto simp: eco_Buy_def eco_Sell_def result_simps)
  then have "flt (eco_UpThreshold e) (eco_UpThreshold e)"
    using assms flt_fle_trans fle_flt_trans flt_fle by meson
  then show False by simp
qed

lemma eco_never_both_witness:
  "\<not> (eco_Buy \<lparr>eco_ShortPeriod = 2, eco_LongPeriod = 4, eco_UpThreshold = Fin 1, eco_DownThreshold = Fin (- 1), eco_attached = True\<rparr>
        [test_set [2, 5, 5]] 0 = Ok True \<and>
      eco_Sell \<lparr>eco_ShortPeriod = 2, eco_LongPeriod = 4, eco_UpThreshold = Fin 1, eco_DownThreshold = Fin (- 1), eco_attached = True\<rparr>
        [test_set [2, 5, 5]] 0 = Ok True)"
  by (rule eco_never_both) simp

end
