(* ===== verification/Genome.thy ===== *)
theory Genome
  imports Strategies
begin

text \<open>
  The strategies as genomes of the genetic search (\<open>Rand\<close>, \<open>Clone\<close>, \<open>Mutate\<close> and
  \<open>Crossover\<close> of the three strategy files, and the two operators of the vendored \<open>gago\<close>
  they call). Go's pseudo-random generator is a parameter: a state and the two draws
  \<open>Float64\<close> and \<open>NormFloat64\<close>; \<open>rng_ok\<close> states what \<open>math/rand\<close> documents of them.
\<close>

record 'g rng_ops =
  rg_float :: "'g \<Rightarrow> f64 \<times> 'g"
  rg_norm :: "'g \<Rightarrow> f64 \<times> 'g"

definition rng_ok :: "'g rng_ops \<Rightarrow> bool" where
  "rng_ok ops \<longleftrightarrow>
    (\<forall>g. f64_ok (fst (rg_float ops g)) \<and> fnonneg (fst (rg_float ops g)) \<and> flt (fst (rg_float ops g)) (Fin 1)) \<and>
    (\<forall>g. f64_ok (fst (rg_norm ops g)) \<and> is_fin (fst (rg_norm ops g)))"

section \<open>gago\<close>

fun MutNormalFloat64 :: "'g rng_ops \<Rightarrow> f64 list \<Rightarrow> f64 \<Rightarrow> 'g \<Rightarrow> f64 list \<times> 'g" where
  "MutNormalFloat64 ops [] rate g = ([], g)"
| "MutNormalFloat64 ops (x # xs) rate g =
    (let (u, g1) = rg_float ops g;
         (y, g2) = (if flt u rate
                    then (let (n, g2) = rg_norm ops g1 in (fadd x (fmul n x), g2)) else (x, g1));
         (ys, g3) = MutNormalFloat64 ops xs rate g2
     in (y # ys, g3))"

fun CrossUniformFloat64 :: "'g rng_ops \<Rightarrow> f64 list \<Rightarrow> f64 list \<Rightarrow> 'g \<Rightarrow> ((f64 list \<times> f64 list) \<times> 'g) go_result" where
  "CrossUniformFloat64 ops [] p2 g = Ok (([], []), g)"
| "CrossUniformFloat64 ops (a # p1) [] g = Panic ''index out of range''"
| "CrossUniformFloat64 ops (a # p1) (b # p2) g =
    (let (p, g1) = rg_float ops g;
         x = fadd (fmul p a) (fmul (fsub (Fin 1) p) b);
         y = fadd (fmul (fsub (Fin 1) p) a) (fmul p b)
     in bind_result (CrossUniformFloat64 ops p1 p2 g1) (\<lambda>((xs, ys), g2). Ok ((x # xs, y # ys), g2)))"

section \<open>Pieces the strategies share\<close>

definition mutateProb :: f64 where
  "mutateProb = flit (8 / 10)"

text \<open>The block that mutates a period, written once for each period of each strategy.\<close>

definition mutate_period :: "'g rng_ops \<Rightarrow> u64 \<Rightarrow> 'g \<Rightarrow> u64 \<times> 'g" where
  "mutate_period ops p g =
    (let (u, g1) = rg_float ops g
     in if flt u mutateProb then
          let (n, g2) = rg_norm ops g1;
              x = wrap64 (sint p + int64_of_float (fmul (float_of_int (uint p)) n))
          in (if 0 < x then word_of_int x mod 100 else p, g2)
        else (p, g1))"

section \<open>EMA crossover\<close>

definition eco_Rand :: "'g rng_ops \<Rightarrow> ema_crossover \<Rightarrow> 'g \<Rightarrow> ema_crossover \<times> 'g" where
  "eco_Rand ops e g =
    (let (u, g1) = rg_float ops g;
         short = u64_of_float (fmul u (Fin 50));
         (v, g2) = rg_float ops g1;
         up = fmul v (flit (2 / 1000))
     in (e\<lparr>eco_ShortPeriod := short, eco_LongPeriod := 2 * short, eco_UpThreshold := up,
           eco_DownThreshold := fneg up\<rparr>, g2))"

definition eco_Clone :: "ema_crossover \<Rightarrow> ema_crossover" where
  "eco_Clone e = \<lparr>eco_ShortPeriod = eco_ShortPeriod e, eco_LongPeriod = eco_LongPeriod e,
     eco_UpThreshold = eco_UpThreshold e, eco_DownThreshold = eco_DownThreshold e, eco_attached = False\<rparr>"

definition eco_Mutate :: "'g rng_ops \<Rightarrow> ema_crossover \<Rightarrow> 'g \<Rightarrow> ema_crossover \<times> 'g" where
  "eco_Mutate ops e g =
    (let (ts, g1) = MutNormalFloat64 ops [eco_DownThreshold e, eco_UpThreshold e] mutateProb g;
         (short, g2) = mutate_period ops (eco_ShortPeriod e) g1;
         (long, g3) = mutate_period ops (eco_LongPeriod e) g2
     in (e\<lparr>eco_DownThreshold := ts ! 0, eco_UpThreshold := ts ! 1, eco_ShortPeriod := short,
           eco_LongPeriod := (if long < short then short else long)\<rparr>, g3))"

definition eco_of_genes :: "f64 list \<Rightarrow> ema_crossover" where
  "eco_of_genes c =
    (let short = u64_of_float (c ! 0); long = u64_of_float (c ! 1)
     in \<lparr>eco_ShortPeriod = (if long < short then long else short), eco_LongPeriod = long,
         eco_UpThreshold = c ! 2, eco_DownThreshold = c ! 3, eco_attached = False\<rparr>)"

definition eco_Crossover ::
  "'g rng_ops \<Rightarrow> ema_crossover \<Rightarrow> ema_crossover \<Rightarrow> 'g \<Rightarrow> ((ema_crossover \<times> ema_crossover) \<times> 'g) go_result" where
  "eco_Crossover ops e mate g =
    bind_result (CrossUniformFloat64 ops
      [float_of_int (uint (eco_ShortPeriod e)), float_of_int (uint (eco_LongPeriod e)),
       eco_UpThreshold e, eco_DownThreshold e]
      [float_of_int (uint (eco_ShortPeriod mate)), float_of_int (uint (eco_LongPeriod mate)),
       eco_UpThreshold mate, eco_DownThreshold mate] g)
    (\<lambda>((c1, c2), g1). Ok ((eco_of_genes c1, eco_of_genes c2), g1))"

section \<open>RSI\<close>

definition rs_Rand :: "'g rng_ops \<Rightarrow> rsi_strategy \<Rightarrow> 'g \<Rightarrow> rsi_strategy \<times> 'g" where
  "rs_Rand ops e g =
    (let (u, g1) = rg_float ops g;
         (v, g2) = rg_float ops g1;
         sell = fmul v (Fin 100)
     in (e\<lparr>rs_Period := u64_of_float (fmul u (Fin 50)), rs_SellThreshold := sell,
           rs_BuyThreshold := fdiv sell (Fin 2)\<rparr>, g2))"

definition rs_Clone :: "rsi_strategy \<Rightarrow> rsi_strategy" where
  "rs_Clone e = \<lparr>rs_Period = rs_Period e, rs_BuyThreshold = rs_BuyThreshold e,
     rs_SellThreshold = rs_SellThreshold e, rs_attached = False\<rparr>"

text \<open>The block that mutates one threshold.\<close>

definition rs_mutate_threshold :: "'g rng_ops \<Rightarrow> f64 \<Rightarrow> 'g \<Rightarrow> f64 \<times> 'g" where
  "rs_mutate_threshold ops t g =
    (let (u, g1) = rg_float ops g
     in if flt u mutateProb then
          let (n, g2) = rg_norm ops g1;
              x = fadd t (fmul t n);
              t1 = (if flt (Fin 100) x then Fin 100 else x)
          in (if flt x (Fin 0) then Fin 0 else t1, g2)
        else (t, g1))"

definition rs_Mutate :: "'g rng_ops \<Rightarrow> rsi_strategy \<Rightarrow> 'g \<Rightarrow> rsi_strategy \<times> 'g" where
  "rs_Mutate ops e g =
    (let (u, g1) = rg_float ops g;
         (period, g2) =
           (if flt u mutateProb then
              (let p = float_of_int (uint (rs_Period e));
                   (n, g2) = rg_norm ops g1;
                   x = fadd p (fmul p n)
               in (if flt x (Fin 0) then 0 else u64_of_float x, g2))
            else (rs_Period e, g1));
         (buy, g3) = rs_mutate_threshold ops (rs_BuyThreshold e) g2;
         (sell, g4) = rs_mutate_threshold ops (rs_SellThreshold e) g3
     in (e\<lparr>rs_Period := period, rs_BuyThreshold := buy, rs_SellThreshold := sell\<rparr>, g4))"

definition rs_of_genes :: "f64 list \<Rightarrow> rsi_strategy" where
  "rs_of_genes c = \<lparr>rs_Period = u64_of_float (c ! 0), rs_BuyThreshold = c ! 1,
     rs_SellThreshold = c ! 2, rs_attached = False\<rparr>"

definition rs_Crossover ::
  "'g rng_ops \<Rightarrow> rsi_strategy \<Rightarrow> rsi_strategy \<Rightarrow> 'g \<Rightarrow> ((rsi_strategy \<times> rsi_strategy) \<times> 'g) go_result" where
  "rs_Crossover ops e mate g =
    bind_result (CrossUniformFloat64 ops
      [float_of_int (uint (rs_Period e)), rs_BuyThreshold e, rs_SellThreshold e]
      [float_of_int (uint (rs_Period mate)), rs_BuyThreshold mate, rs_SellThreshold mate] g)
    (\<lambda>((c1, c2), g1). Ok ((rs_of_genes c1, rs_of_genes c2), g1))"

section \<open>S1\<close>

definition s1_Rand :: "'g rng_ops \<Rightarrow> s1_strategy \<Rightarrow> 'g \<Rightarrow> s1_strategy \<times> 'g" where
  "s1_Rand ops s g =
    (let (u, g1) = rg_float ops g;
         short = u64_of_float (fmul u (Fin 50));
         (v, g2) = rg_float ops g1;
         up = fmul v (flit (2 / 1000));
         (w, g3) = rg_float ops g2;
         (x, g4) = rg_float ops g3
     in (s\<lparr>s1_EMAShortPeriod := short, s1_EMALongPeriod := 2 * short, s1_EMAUpThreshold := up,
           s1_EMADownThreshold := fneg up, s1_RSIExitThreshold := fmul w (Fin 100),
           s1_RSIEntranceThreshold := fmul x (Fin 100)\<rparr>, g4))"

definition s1_Clone :: "s1_strategy \<Rightarrow> s1_strategy" where
  "s1_Clone s = \<lparr>s1_EMAShortPeriod = s1_EMAShortPeriod s, s1_EMALongPeriod = s1_EMALongPeriod s,
     s1_EMAUpThreshold = s1_EMAUpThreshold s, s1_EMADownThreshold = s1_EMADownThreshold s,
     s1_RSIExitThreshold = s1_RSIExitThreshold s, s1_RSIEntranceThreshold = s1_RSIEntranceThreshold s,
     s1_attached = False\<rparr>"

definition s1_mutate_threshold :: "'g rng_ops \<Rightarrow> f64 \<Rightarrow> 'g \<Rightarrow> f64 \<times> 'g" where
  "s1_mutate_threshold ops t g =
    (let (u, g1) = rg_float ops g
     in if flt u mutateProb then
          let (n, g2) = rg_norm ops g1;
              x = fadd t (fmul t n);
              t1 = (if fle (Fin 0) x then x else t)
          in (if flt (Fin 100) x then Fin 100 else t1, g2)
        else (t, g1))"

definition s1_Mutate :: "'g rng_ops \<Rightarrow> s1_strategy \<Rightarrow> 'g \<Rightarrow> s1_strategy \<times> 'g" where
  "s1_Mutate ops s g =
    (let (ts, g1) = MutNormalFloat64 ops [s1_EMADownThreshold s, s1_EMAUpThreshold s] mutateProb g;
         (short, g2) = mutate_period ops (s1_EMAShortPeriod s) g1;
         (long, g3) = mutate_period ops (s1_EMALongPeriod s) g2;
         (exit, g4) = s1_mutate_threshold ops (s1_RSIExitThreshold s) g3;
         (entrance, g5) = s1_mutate_threshold ops (s1_RSIEntranceThreshold s) g4
     in (s\<lparr>s1_EMADownThreshold := ts ! 0, s1_EMAUpThreshold := ts ! 1, s1_EMAShortPeriod := short,
           s1_EMALongPeriod := (if long < short then short else long),
           s1_RSIExitThreshold := exit, s1_RSIEntranceThreshold := entrance\<rparr>, g5))"

definition s1_of_genes :: "f64 list \<Rightarrow> s1_strategy" where
  "s1_of_genes c =
    (let short = u64_of_float (c ! 0); long = u64_of_float (c ! 1)
     in \<lparr>s1_EMAShortPeriod = (if long < short then long else short), s1_EMALongPeriod = long,
         s1_EMAUpThreshold = c ! 2, s1_EMADownThreshold = c ! 3, s1_RSIExitThreshold = c ! 4,
         s1_RSIEntranceThreshold = c ! 5, s1_attached = False\<rparr>)"

text \<open>The last gene of the mate is the receiver's own entrance threshold, as in the source.\<close>

definition s1_Crossover ::
  "'g rng_ops \<Rightarrow> s1_strategy \<Rightarrow> s1_strategy \<Rightarrow> 'g \<Rightarrow> ((s1_strategy \<times> s1_strategy) \<times> 'g) go_result" where
  "s1_Crossover ops s mate g =
    bind_result (CrossUniformFloat64 ops
      [float_of_int (uint (s1_EMAShortPeriod s)), float_of_int (uint (s1_EMALongPeriod s)),
       s1_EMAUpThreshold s, s1_EMADownThreshold s, s1_RSIExitThreshold s, s1_RSIEntranceThreshold s]
      [float_of_int (uint (s1_EMAShortPeriod mate)), float_of_int (uint (s1_EMALongPeriod mate)),
       s1_EMAUpThreshold mate, s1_EMADownThreshold mate, s1_RSIExitThreshold mate, s1_RSIEntranceThreshold s] g)
    (\<lambda>((c1, c2), g1). Ok ((s1_of_genes c1, s1_of_genes c2), g1))"

section \<open>The interface\<close>

fun Rand :: "'g rng_ops \<Rightarrow> strategy \<Rightarrow> 'g \<Rightarrow> strategy \<times> 'g" where
  "Rand ops (SEMACrossover e) g = map_prod SEMACrossover id (eco_Rand ops e g)"
| "Rand ops (SRSI e) g = map_prod SRSI id (rs_Rand ops e g)"
| "Rand ops (SS1 s) g = map_prod SS1 id (s1_Rand ops s g)"

fun Clone :: "strategy \<Rightarrow> strategy" where
  "Clone (SEMACrossover e) = SEMACrossover (eco_Clone e)"
| "Clone (SRSI e) = SRSI (rs_Clone e)"
| "Clone (SS1 s) = SS1 (s1_Clone s)"

fun Mutate :: "'g rng_ops \<Rightarrow> strategy \<Rightarrow> 'g \<Rightarrow> strategy \<times> 'g" where
  "Mutate ops (SEMACrossover e) g = map_prod SEMACrossover id (eco_Mutate ops e g)"
| "Mutate ops (SRSI e) g = map_prod SRSI id (rs_Mutate ops e g)"
| "Mutate ops (SS1 s) g = map_prod SS1 id (s1_Mutate ops s g)"

text \<open>The mate is asserted to be of the receiver's type.\<close>

fun Crossover :: "'g rng_ops \<Rightarrow> strategy \<Rightarrow> strategy \<Rightarrow> 'g \<Rightarrow> ((strategy \<times> strategy) \<times> 'g) go_result" where
  "Crossover ops (SEMACrossover e) (SEMACrossover m) g =
     bind_result (eco_Crossover ops e m g) (\<lambda>((a, b), g1). Ok ((SEMACrossover a, SEMACrossover b), g1))"
| "Crossover ops (SRSI e) (SRSI m) g =
     bind_result (rs_Crossover ops e m g) (\<lambda>((a, b), g1). Ok ((SRSI a, SRSI b), g1))"
| "Crossover ops (SS1 s) (SS1 m) g =
     bind_result (s1_Crossover ops s m g) (\<lambda>((a, b), g1). Ok ((SS1 a, SS1 b), g1))"
| "Crossover ops _ _ g = Panic ''interface conversion''"

end
