(* ===== verification/Genome_Specs.thy ===== *)
theory Genome_Specs
  imports Genome
begin

text \<open>
  What the genetic operators keep: the periods of the moving averages stay in order and at
  most 100, through any sequence of random starts, clones, mutations and crossovers; the
  locale \<open>genome_law\<close> states it once for the three strategies. Also the thresholds of RSI
  under mutation, and the gene the crossover of S1 does not take from the mate.
\<close>

section \<open>Small products and blends\<close>

lemma rnd64_error:
  assumes "\<bar>x\<bar> < 128"
  shows "\<bar>rnd64 x - x\<bar> \<le> 1 / 1024"
proof (cases "x = 0")
  case False
  have "2 powi binexp x \<le> \<bar>x\<bar>"
    using binexp_bounds(1)[OF False] .
  also have "\<bar>x\<bar> < 2 powi 7"
    using assms by simp
  finally have "binexp x < 7"
    by (simp only: powi2_less_iff)
  then have "ulp_exp x - 1 \<le> - 10"
    by (simp add: ulp_exp_def)
  then have "2 powi (ulp_exp x - 1) \<le> (2 powi (- 10) :: rat)"
    by (simp only: powi2_le_iff)
  then show ?thesis
    using rnd64_half_ulp[OF False] by (simp add: power_int_minus)
qed simp

lemma f64_ok_128: "f64_ok (Fin 128)"
  by simp

lemma round64_small:
  assumes "\<bar>x\<bar> < 128"
  shows "is_fin (round64 s x)" and "fval (round64 s x) = rnd64 x" and "\<bar>fval (round64 s x) - x\<bar> \<le> 1 / 1024"
proof -
  show f: "is_fin (round64 s x)"
    using assms by (intro round64_abs_le(1)[OF _ f64_ok_128]) simp
  then show "fval (round64 s x) = rnd64 x"
    by (rule round64_fin_val)
  then show "\<bar>fval (round64 s x) - x\<bar> \<le> 1 / 1024"
    using rnd64_error[OF assms] by simp
qed

lemma fmul_small:
  assumes "is_fin a" and "is_fin b" and "\<bar>fval a * fval b\<bar> < 128"
  shows "is_fin (fmul a b)" and "fval (fmul a b) = rnd64 (fval a * fval b)"
    and "\<bar>fval (fmul a b) - fval a * fval b\<bar> \<le> 1 / 1024"
proof -
  have "fmul a b = round64 (fsign a \<noteq> fsign b) (fval a * fval b)"
    using assms(1,2) by (cases a; cases b) (simp_all add: fmul_def)
  then show "is_fin (fmul a b)" and "fval (fmul a b) = rnd64 (fval a * fval b)"
    and "\<bar>fval (fmul a b) - fval a * fval b\<bar> \<le> 1 / 1024"
    using round64_small[OF assms(3)] by simp_all
qed

lemma fadd_small:
  assumes "is_fin a" and "is_fin b" and "\<bar>fval a + fval b\<bar> < 128"
  shows "is_fin (fadd a b)" and "fval (fadd a b) = rnd64 (fval a + fval b)"
    and "\<bar>fval (fadd a b) - (fval a + fval b)\<bar> \<le> 1 / 1024"
  using fadd_fin_val[OF assms(1,2)] round64_small[OF assms(3), of False] by simp_all

lemma is_fin_fnonneg: "is_fin a \<Longrightarrow> fnonneg a \<longleftrightarrow> 0 \<le> fval a"
  by (cases a) auto

lemma is_fin_flt: "is_fin a \<Longrightarrow> flt a (Fin q) \<longleftrightarrow> fval a < q"
  by (cases a) (auto simp: flt_def)

lemma fnonneg_flt_fin: "fnonneg a \<Longrightarrow> flt a (Fin q) \<Longrightarrow> is_fin a \<and> 0 \<le> fval a \<and> fval a < q"
  by (cases a) (auto simp: flt_def)

definition unit_draw :: "f64 \<Rightarrow> bool" where
  "unit_draw p \<longleftrightarrow> fnonneg p \<and> flt p (Fin 1)"

lemma complement_draw:
  assumes "unit_draw p"
  shows "is_fin (fsub (Fin 1) p)" and "0 \<le> fval (fsub (Fin 1) p)" and "fval (fsub (Fin 1) p) \<le> 1"
    and "\<bar>fval (fsub (Fin 1) p) - (1 - fval p)\<bar> \<le> 1 / 1024"
proof -
  have p: "is_fin p" "0 \<le> fval p" "fval p < 1"
    using assms fnonneg_flt_fin[of p 1] by (simp_all add: unit_draw_def)
  note s = fadd_small[of "Fin 1" "fneg p", folded fsub_def]
  show "is_fin (fsub (Fin 1) p)" "\<bar>fval (fsub (Fin 1) p) - (1 - fval p)\<bar> \<le> 1 / 1024"
    using s p by simp_all
  have "fval (fsub (Fin 1) p) = rnd64 (1 - fval p)"
    using s(2) p by simp
  then show "0 \<le> fval (fsub (Fin 1) p)" and "fval (fsub (Fin 1) p) \<le> 1"
    using p r64.nonneg[of "1 - fval p"] r64.le_fixed[of "1 - fval p" 1] by simp_all
qed

text \<open>A blend of two numbers up to 100 stays below 101.\<close>

lemma blend_bound:
  assumes "is_fin p" "is_fin q" "0 \<le> fval p" "fval p \<le> 1" "0 \<le> fval q" "fval q \<le> 1" "fval p + fval q \<le> 1 + 1 / 1024"
    and "0 \<le> a" "a \<le> 100" "0 \<le> b" "b \<le> 100"
  shows "fnonneg (fadd (fmul p (Fin a)) (fmul q (Fin b)))" and "flt (fadd (fmul p (Fin a)) (fmul q (Fin b))) (Fin 101)"
proof -
  have pa: "0 \<le> fval p * a" "fval p * a \<le> fval p * 100" and qb: "0 \<le> fval q * b" "fval q * b \<le> fval q * 100"
    using assms by (simp_all add: mult_left_mono)
  have "\<bar>fval p * a\<bar> < 128" "\<bar>fval q * b\<bar> < 128"
    using pa qb assms(4,6) by linarith+
  then have x: "is_fin (fmul p (Fin a))" "\<bar>fval (fmul p (Fin a)) - fval p * a\<bar> \<le> 1 / 1024" "0 \<le> fval (fmul p (Fin a))"
    and y: "is_fin (fmul q (Fin b))" "\<bar>fval (fmul q (Fin b)) - fval q * b\<bar> \<le> 1 / 1024" "0 \<le> fval (fmul q (Fin b))"
    using fmul_small[of p "Fin a"] fmul_small[of q "Fin b"] assms(1,2) pa qb r64.nonneg by simp_all
  have sum: "fval (fmul p (Fin a)) + fval (fmul q (Fin b)) \<le> 100 + 1 / 2"
    using x(2) y(2) pa(2) qb(2) assms(7) by linarith
  then have "\<bar>fval (fmul p (Fin a)) + fval (fmul q (Fin b))\<bar> < 128"
    using x(3) y(3) by linarith
  note z = fadd_small[OF x(1) y(1) this]
  show "fnonneg (fadd (fmul p (Fin a)) (fmul q (Fin b)))"
    using z x(3) y(3) r64.nonneg[of "fval (fmul p (Fin a)) + fval (fmul q (Fin b))"] by (simp add: is_fin_fnonneg)
  show "flt (fadd (fmul p (Fin a)) (fmul q (Fin b))) (Fin 101)"
    unfolding is_fin_flt[OF z(1)] using z(3) sum by linarith
qed

lemma u64_of_float_bound:
  assumes "fnonneg x" and "flt x (Fin (of_nat n + 1))" and "n < 2 ^ 62"
  shows "unat (u64_of_float x) \<le> n"
proof -
  have x: "is_fin x" "0 \<le> fval x" "fval x < of_nat n + 1"
    using fnonneg_flt_fin[OF assms(1,2)] by simp_all
  have n: "of_nat n + 1 \<le> (2 :: rat) ^ 63"
  proof -
    have "n + 1 \<le> 2 ^ 63"
      using assms(3) by simp
    then have "(of_nat (n + 1) :: rat) \<le> of_nat (2 ^ 63)"
      by (simp only: of_nat_le_iff)
    then show ?thesis by simp
  qed
  have f: "0 \<le> \<lfloor>fval x\<rfloor>" "\<lfloor>fval x\<rfloor> \<le> int n"
    using x by (simp_all add: floor_le_iff)
  have "int n < 2 ^ 62"
    using assms(3) by (simp only: of_nat_less_iff[symmetric, where 'a = int]) simp
  then have "int64_of_float x = \<lfloor>fval x\<rfloor>"
    using x f by (cases x) (auto simp: trunc_rat_def in_int64_def min_int64_def max_int64_def)
  moreover have "flt x (Fin (2 ^ 63))"
    using x n by (simp only: is_fin_flt)
  ultimately have "u64_of_float x = word_of_int \<lfloor>fval x\<rfloor>"
    by (simp add: u64_of_float_def)
  then have "uint (u64_of_float x) = \<lfloor>fval x\<rfloor>"
    using f(1) le_less_trans[OF f(2) \<open>int n < 2 ^ 62\<close>] by (simp add: uint_word_of_int)
  then have "int (unat (u64_of_float x)) \<le> int n"
    using f by simp
  then show ?thesis by (simp only: of_nat_le_iff)
qed

section \<open>Periods stay in order\<close>

definition periods_ok :: "u64 \<Rightarrow> u64 \<Rightarrow> bool" where
  "periods_ok short long \<longleftrightarrow> short \<le> long \<and> long \<le> 100"

lemma mutate_period_bound:
  assumes "p \<le> 100"
  shows "fst (mutate_period ops p g) \<le> 100"
proof -
  have "w mod 100 \<le> (100 :: u64)" for w :: u64
    using word_mod_less_divisor[of 100 w] by (simp add: less_imp_le)
  then show ?thesis
    using assms by (simp add: mutate_period_def Let_def split_beta)
qed

lemma MutNormal_length: "length (fst (MutNormalFloat64 ops xs rate g)) = length xs"
  by (induction xs arbitrary: g) (simp_all add: Let_def split_beta)

text \<open>The periods out of two blended genes.\<close>

definition period_gene :: "f64 \<Rightarrow> bool" where
  "period_gene x \<longleftrightarrow> fnonneg x \<and> flt x (Fin 101)"

lemma period_gene_bound: "period_gene x \<Longrightarrow> u64_of_float x \<le> 100"
  using u64_of_float_bound[of x 100] by (simp add: period_gene_def word_le_nat_alt)

lemma period_gene_blend:
  assumes "unit_draw p" and "a \<le> (100 :: u64)" and "b \<le> (100 :: u64)"
  shows "period_gene (fadd (fmul p (float_of_int (uint a))) (fmul (fsub (Fin 1) p) (float_of_int (uint b))))"
    and "period_gene (fadd (fmul (fsub (Fin 1) p) (float_of_int (uint a))) (fmul p (float_of_int (uint b))))"
proof -
  have p: "is_fin p" "0 \<le> fval p" "fval p \<le> 1"
    using assms(1) fnonneg_flt_fin[of p 1] by (simp_all add: unit_draw_def)
  note q = complement_draw[OF assms(1)]
  have sum: "fval p + fval (fsub (Fin 1) p) \<le> 1 + 1 / 1024"
    using q(4) by linarith
  have u: "0 \<le> uint a" "uint a \<le> 100" "0 \<le> uint b" "uint b \<le> 100"
    using assms(2,3) by (simp_all add: word_le_def)
  define A B :: rat where "A = of_int (uint a)" and "B = of_int (uint b)"
  have f: "float_of_int (uint a) = Fin A" "float_of_int (uint b) = Fin B"
    using u float_of_int_exact[of "uint a"] float_of_int_exact[of "uint b"] by (simp_all add: A_def B_def del: of_int_uint)
  have r: "0 \<le> A" "A \<le> 100" "0 \<le> B" "B \<le> 100"
    unfolding A_def B_def using u by (metis of_int_0_le_iff, metis of_int_le_iff of_int_numeral)+
  show "period_gene (fadd (fmul p (float_of_int (uint a))) (fmul (fsub (Fin 1) p) (float_of_int (uint b))))"
    unfolding f period_gene_def using blend_bound[OF p(1) q(1) p(2,3) q(2,3) sum r] by blast
  show "period_gene (fadd (fmul (fsub (Fin 1) p) (float_of_int (uint a))) (fmul p (float_of_int (uint b))))"
    unfolding f period_gene_def using blend_bound[OF q(1) p(1) q(2,3) p(2,3) _ r] sum
    by (simp only: add.commute)
qed

lemma cross_uniform_periods:
  assumes "\<forall>g. unit_draw (fst (rg_float ops g))" and "s \<le> (100 :: u64)" "l \<le> (100 :: u64)" "s' \<le> (100 :: u64)" "l' \<le> (100 :: u64)"
    and "CrossUniformFloat64 ops (float_of_int (uint s) # float_of_int (uint l) # xs)
           (float_of_int (uint s') # float_of_int (uint l') # ys) g = Ok ((c1, c2), g')"
  shows "period_gene (c1 ! 0) \<and> period_gene (c1 ! 1) \<and> period_gene (c2 ! 0) \<and> period_gene (c2 ! 1)"
proof -
  define p g1 where "p = fst (rg_float ops g)" and "g1 = snd (rg_float ops g)"
  define q where "q = fst (rg_float ops g1)"
  have "unit_draw p" "unit_draw q"
    using assms(1) by (simp_all add: p_def q_def)
  then show ?thesis
    using assms(6) period_gene_blend[of p s s'] period_gene_blend[of q l l'] assms(2-5)
    by (auto simp: Let_def split_beta result_simps p_def q_def g1_def)
qed

lemma cross_uniform_total:
  "length xs = length ys \<Longrightarrow> \<exists>c1 c2 g'. CrossUniformFloat64 ops xs ys g = Ok ((c1, c2), g')"
proof (induction ops xs ys g rule: CrossUniformFloat64.induct)
  case (3 ops a p1 b p2 g)
  obtain p g1 where u: "rg_float ops g = (p, g1)"
    by fastforce
  then show ?case
    using "3.IH"[OF u[symmetric] refl refl] "3.prems" by (auto simp: Let_def)
qed auto

lemma clamp_periods:
  assumes "s \<le> 100" "l \<le> (100 :: u64)"
  shows "periods_ok (if l < s then l else s) l" and "periods_ok s (if l < s then s else l)"
  using assms by (auto simp: periods_ok_def not_less)

fun genome_ok :: "strategy \<Rightarrow> bool" where
  "genome_ok (SEMACrossover e) = periods_ok (eco_ShortPeriod e) (eco_LongPeriod e)"
| "genome_ok (SS1 s) = periods_ok (s1_EMAShortPeriod s) (s1_EMALongPeriod s)"
| "genome_ok (SRSI r) = True"

fun same_kind :: "strategy \<Rightarrow> strategy \<Rightarrow> bool" where
  "same_kind (SEMACrossover _) (SEMACrossover _) = True"
| "same_kind (SRSI _) (SRSI _) = True"
| "same_kind (SS1 _) (SS1 _) = True"
| "same_kind _ _ = False"

section \<open>The law of a genome\<close>

text \<open>
  The interface \<open>StrategyGenome\<close>: \<open>ok\<close> is what the operators establish and keep, \<open>like\<close>
  relates genomes of one kind. A crossover of two genomes of one kind never fails.
\<close>

locale genome_law =
  fixes rand mutate :: "'g rng_ops \<Rightarrow> 's \<Rightarrow> 'g \<Rightarrow> 's \<times> 'g"
    and clone :: "'s \<Rightarrow> 's"
    and crossover :: "'g rng_ops \<Rightarrow> 's \<Rightarrow> 's \<Rightarrow> 'g \<Rightarrow> (('s \<times> 's) \<times> 'g) go_result"
    and ok :: "'s \<Rightarrow> bool"
    and like :: "'s \<Rightarrow> 's \<Rightarrow> bool"
  assumes rand_ok: "rng_ok ops \<Longrightarrow> ok (fst (rand ops s g)) \<and> like s (fst (rand ops s g))"
    and clone_ok: "ok s \<Longrightarrow> ok (clone s) \<and> like s (clone s)"
    and mutate_ok: "ok s \<Longrightarrow> ok (fst (mutate ops s g)) \<and> like s (fst (mutate ops s g))"
    and crossover_ok: "rng_ok ops \<Longrightarrow> ok s \<Longrightarrow> ok m \<Longrightarrow> like s m \<Longrightarrow>
       \<exists>a b g'. crossover ops s m g = Ok ((a, b), g') \<and> ok a \<and> ok b \<and> like s a \<and> like s b"
begin

lemma offspring_ok:
  assumes "rng_ok ops" and "ok s" and "ok m" and "like s m" and "crossover ops s m g = Ok ((a, b), g')"
  shows "ok a \<and> ok b \<and> like s a \<and> like s b"
  using crossover_ok[OF assms(1-4), of g] assms(5) by auto

end

lemma rng_ok_unit: "rng_ok ops \<Longrightarrow> unit_draw (fst (rg_float ops g))"
  by (simp add: rng_ok_def unit_draw_def)

lemma rand_period:
  assumes "unit_draw u"
  shows "periods_ok (u64_of_float (fmul u (Fin 50))) (2 * u64_of_float (fmul u (Fin 50)))"
proof -
  have u: "is_fin u" "0 \<le> fval u" "fval u < 1"
    using assms fnonneg_flt_fin[of u 1] by (simp_all add: unit_draw_def)
  then have m: "is_fin (fmul u (Fin 50))" "\<bar>fval (fmul u (Fin 50)) - fval u * 50\<bar> \<le> 1 / 1024" "0 \<le> fval (fmul u (Fin 50))"
    using fmul_small[of u "Fin 50"] r64.nonneg[of "fval u * 50"] by simp_all
  have "fval (fmul u (Fin 50)) < 51"
    using m(2) u(3) by linarith
  then have "unat (u64_of_float (fmul u (Fin 50))) \<le> 50"
    using m u64_of_float_bound[of "fmul u (Fin 50)" 50] by (simp add: is_fin_fnonneg is_fin_flt)
  moreover from this have "unat (2 * u64_of_float (fmul u (Fin 50))) = 2 * unat (u64_of_float (fmul u (Fin 50)))"
    by (simp add: unat_word_ariths)
  ultimately show ?thesis
    by (simp add: periods_ok_def word_le_nat_alt)
qed

lemma periods_ok_le: "periods_ok s l \<Longrightarrow> s \<le> 100 \<and> l \<le> 100"
  by (auto simp: periods_ok_def)

abbreviation eco_ok :: "ema_crossover \<Rightarrow> bool" where
  "eco_ok e \<equiv> periods_ok (eco_ShortPeriod e) (eco_LongPeriod e)"

abbreviation s1_ok :: "s1_strategy \<Rightarrow> bool" where
  "s1_ok s \<equiv> periods_ok (s1_EMAShortPeriod s) (s1_EMALongPeriod s)"

lemma eco_of_genes_ok: "period_gene (c ! 0) \<Longrightarrow> period_gene (c ! 1) \<Longrightarrow> eco_ok (eco_of_genes c)"
  using clamp_periods(1) period_gene_bound by (simp add: eco_of_genes_def Let_def)

lemma s1_of_genes_ok: "period_gene (c ! 0) \<Longrightarrow> period_gene (c ! 1) \<Longrightarrow> s1_ok (s1_of_genes c)"
  using clamp_periods(1) period_gene_bound by (simp add: s1_of_genes_def Let_def)

lemma mutate_periods_ok:
  assumes "periods_ok s l" and "mutate_period ops s g1 = (short, g2)" and "mutate_period ops l g2 = (long, g3)"
  shows "periods_ok short (if long < short then short else long)"
  using assms mutate_period_bound[of s ops g1] mutate_period_bound[of l ops g2] periods_ok_le[of s l]
  by (intro clamp_periods(2)) simp_all

lemma eco_Mutate_ok:
  assumes "eco_ok e"
  shows "eco_ok (fst (eco_Mutate ops e g))"
proof -
  obtain ts g1 where t: "MutNormalFloat64 ops [eco_DownThreshold e, eco_UpThreshold e] mutateProb g = (ts, g1)"
    by fastforce
  obtain short g2 where s: "mutate_period ops (eco_ShortPeriod e) g1 = (short, g2)"
    by fastforce
  obtain long g3 where l: "mutate_period ops (eco_LongPeriod e) g2 = (long, g3)"
    by fastforce
  show ?thesis
    unfolding eco_Mutate_def t Let_def prod.case s l using mutate_periods_ok[OF assms s l] by simp
qed

lemma s1_Mutate_ok:
  assumes "s1_ok e"
  shows "s1_ok (fst (s1_Mutate ops e g))"
proof -
  obtain ts g1 where t: "MutNormalFloat64 ops [s1_EMADownThreshold e, s1_EMAUpThreshold e] mutateProb g = (ts, g1)"
    by fastforce
  obtain short g2 where s: "mutate_period ops (s1_EMAShortPeriod e) g1 = (short, g2)"
    by fastforce
  obtain long g3 where l: "mutate_period ops (s1_EMALongPeriod e) g2 = (long, g3)"
    by fastforce
  show ?thesis
    unfolding s1_Mutate_def t Let_def prod.case s l using mutate_periods_ok[OF assms s l]
    by (simp add: split_beta)
qed

interpretation eco_genome: genome_law eco_Rand eco_Mutate eco_Clone eco_Crossover eco_ok "\<lambda>_ _. True"
proof unfold_locales
  fix ops :: "'a rng_ops" and s m g
  show "rng_ok ops \<Longrightarrow> eco_ok (fst (eco_Rand ops s g)) \<and> True"
    using rand_period[OF rng_ok_unit, of ops g] by (simp add: eco_Rand_def Let_def split_beta)
  show "eco_ok s \<Longrightarrow> eco_ok (eco_Clone s) \<and> True"
    by (simp add: eco_Clone_def)
  show "eco_ok s \<Longrightarrow> eco_ok (fst (eco_Mutate ops s g)) \<and> True"
    by (simp add: eco_Mutate_ok)
  show "\<exists>a b g'. eco_Crossover ops s m g = Ok ((a, b), g') \<and> eco_ok a \<and> eco_ok b \<and> True \<and> True"
    if "rng_ok ops" and s: "eco_ok s" and m: "eco_ok m"
  proof -
    define xs ys where "xs = [float_of_int (uint (eco_ShortPeriod s)), float_of_int (uint (eco_LongPeriod s)),
        eco_UpThreshold s, eco_DownThreshold s]"
      and "ys = [float_of_int (uint (eco_ShortPeriod m)), float_of_int (uint (eco_LongPeriod m)),
        eco_UpThreshold m, eco_DownThreshold m]"
    have "length xs = length ys"
      by (simp add: xs_def ys_def)
    then obtain c1 c2 g' where c: "CrossUniformFloat64 ops xs ys g = Ok ((c1, c2), g')"
      using cross_uniform_total[of xs ys ops g] by blast
    have "\<forall>g. unit_draw (fst (rg_float ops g))"
      using rng_ok_unit[OF that(1)] by blast
    from cross_uniform_periods[OF this _ _ _ _ c[unfolded xs_def ys_def]] show ?thesis
      unfolding eco_Crossover_def xs_def[symmetric] ys_def[symmetric] c
      using periods_ok_le[OF s] periods_ok_le[OF m] by (simp add: eco_of_genes_ok)
  qed
qed

interpretation s1_genome: genome_law s1_Rand s1_Mutate s1_Clone s1_Crossover s1_ok "\<lambda>_ _. True"
proof unfold_locales
  fix ops :: "'a rng_ops" and s m g
  show "rng_ok ops \<Longrightarrow> s1_ok (fst (s1_Rand ops s g)) \<and> True"
    using rand_period[OF rng_ok_unit, of ops g] by (simp add: s1_Rand_def Let_def split_beta)
  show "s1_ok s \<Longrightarrow> s1_ok (s1_Clone s) \<and> True"
    by (simp add: s1_Clone_def)
  show "s1_ok s \<Longrightarrow> s1_ok (fst (s1_Mutate ops s g)) \<and> True"
    by (simp add: s1_Mutate_ok)
  show "\<exists>a b g'. s1_Crossover ops s m g = Ok ((a, b), g') \<and> s1_ok a \<and> s1_ok b \<and> True \<and> True"
    if "rng_ok ops" and s: "s1_ok s" and m: "s1_ok m"
  proof -
    define xs ys where "xs = [float_of_int (uint (s1_EMAShortPeriod s)), float_of_int (uint (s1_EMALongPeriod s)),
        s1_EMAUpThreshold s, s1_EMADownThreshold s, s1_RSIExitThreshold s, s1_RSIEntranceThreshold s]"
      and "ys = [float_of_int (uint (s1_EMAShortPeriod m)), float_of_int (uint (s1_EMALongPeriod m)),
        s1_EMAUpThreshold m, s1_EMADownThreshold m, s1_RSIExitThreshold m, s1_RSIEntranceThreshold s]"
    have "length xs = length ys"
      by (simp add: xs_def ys_def)
    then obtain c1 c2 g' where c: "CrossUniformFloat64 ops xs ys g = Ok ((c1, c2), g')"
      using cross_uniform_total[of xs ys ops g] by blast
    have "\<forall>g. unit_draw (fst (rg_float ops g))"
      using rng_ok_unit[OF that(1)] by blast
    from cross_uniform_periods[OF this _ _ _ _ c[unfolded xs_def ys_def]] show ?thesis
      unfolding s1_Crossover_def xs_def[symmetric] ys_def[symmetric] c
      using periods_ok_le[OF s] periods_ok_le[OF m] by (simp add: s1_of_genes_ok)
  qed
qed

interpretation rs_genome: genome_law rs_Rand rs_Mutate rs_Clone rs_Crossover "\<lambda>_. True" "\<lambda>_ _. True"
proof unfold_locales
  fix ops :: "'a rng_ops" and s m g
  show "\<exists>a b g'. rs_Crossover ops s m g = Ok ((a, b), g') \<and> True \<and> True \<and> True \<and> True"
  proof -
    define xs ys where "xs = [float_of_int (uint (rs_Period s)), rs_BuyThreshold s, rs_SellThreshold s]"
      and "ys = [float_of_int (uint (rs_Period m)), rs_BuyThreshold m, rs_SellThreshold m]"
    have "length xs = length ys"
      by (simp add: xs_def ys_def)
    then obtain c1 c2 g' where c: "CrossUniformFloat64 ops xs ys g = Ok ((c1, c2), g')"
      using cross_uniform_total[of xs ys ops g] by blast
    show ?thesis
      unfolding rs_Crossover_def xs_def[symmetric] ys_def[symmetric] c by simp
  qed
qed simp_all

interpretation genome: genome_law Rand Mutate Clone Crossover genome_ok same_kind
proof unfold_locales
  fix ops :: "'a rng_ops" and s m g
  show "rng_ok ops \<Longrightarrow> genome_ok (fst (Rand ops s g)) \<and> same_kind s (fst (Rand ops s g))"
    by (cases s) (simp_all add: eco_genome.rand_ok[simplified] s1_genome.rand_ok[simplified])
  show "genome_ok s \<Longrightarrow> genome_ok (Clone s) \<and> same_kind s (Clone s)"
    by (cases s) (simp_all add: eco_genome.clone_ok[simplified] s1_genome.clone_ok[simplified])
  show "genome_ok s \<Longrightarrow> genome_ok (fst (Mutate ops s g)) \<and> same_kind s (fst (Mutate ops s g))"
    by (cases s) (simp_all add: eco_genome.mutate_ok[simplified] s1_genome.mutate_ok[simplified])
  show "\<exists>a b g'. Crossover ops s m g = Ok ((a, b), g') \<and> genome_ok a \<and> genome_ok b \<and> same_kind s a \<and> same_kind s b"
    if prems: "rng_ok ops" "genome_ok s" "genome_ok m" "same_kind s m"
  proof (cases s)
    case (SEMACrossover e)
    then obtain e' where "m = SEMACrossover e'"
      using prems(4) by (cases m) simp_all
    then show ?thesis
      using SEMACrossover prems eco_genome.crossover_ok[of ops e e' g] by auto
  next
    case (SRSI e)
    then obtain e' where "m = SRSI e'"
      using prems(4) by (cases m) simp_all
    then show ?thesis
      using SRSI prems rs_genome.crossover_ok[of ops e e' g] by auto
  next
    case (SS1 e)
    then obtain e' where "m = SS1 e'"
      using prems(4) by (cases m) simp_all
    then show ?thesis
      using SS1 prems s1_genome.crossover_ok[of ops e e' g] by auto
  qed
qed

section \<open>Evolution\<close>

text \<open>What the search can reach from a template: \<open>gago\<close> starts from random genomes and clones,
  mutates and crosses the ones it has.\<close>

inductive evolved :: "'g rng_ops \<Rightarrow> strategy \<Rightarrow> strategy \<Rightarrow> bool" for ops t where
  ev_rand: "evolved ops t (fst (Rand ops t g))"
| ev_clone: "evolved ops t s \<Longrightarrow> evolved ops t (Clone s)"
| ev_mutate: "evolved ops t s \<Longrightarrow> evolved ops t (fst (Mutate ops s g))"
| ev_left: "evolved ops t s \<Longrightarrow> evolved ops t m \<Longrightarrow> Crossover ops s m g = Ok ((a, b), g') \<Longrightarrow> evolved ops t a"
| ev_right: "evolved ops t s \<Longrightarrow> evolved ops t m \<Longrightarrow> Crossover ops s m g = Ok ((a, b), g') \<Longrightarrow> evolved ops t b"

lemma same_kind_trans: "same_kind s t \<Longrightarrow> same_kind t u \<Longrightarrow> same_kind s u"
  by (cases s; cases t; cases u) simp_all

lemma same_kind_common: "same_kind t s \<Longrightarrow> same_kind t m \<Longrightarrow> same_kind s m"
  by (cases t; cases s; cases m) simp_all

lemma evolved_ok:
  assumes "rng_ok ops" and "evolved ops t s"
  shows "genome_ok s \<and> same_kind t s"
  using assms(2)
proof induction
  case (ev_rand g)
  show ?case by (rule genome.rand_ok[OF assms(1)])
next
  case (ev_clone s)
  then show ?case using genome.clone_ok[of s] same_kind_trans by blast
next
  case (ev_mutate s g)
  then show ?case using genome.mutate_ok[of s ops g] same_kind_trans by blast
next
  case (ev_left s m g a b g')
  then show ?case
    using genome.offspring_ok[OF assms(1), of s m g a b g'] same_kind_common same_kind_trans by blast
next
  case (ev_right s m g a b g')
  then show ?case
    using genome.offspring_ok[OF assms(1), of s m g a b g'] same_kind_common same_kind_trans by blast
qed

section \<open>Properties\<close>

text \<open>C31. The genetic search keeps the moving averages sensible: from any template, through any
  sequence of random starts, clones, mutations and crossovers, with any draws of the generator,
  a crossover or S1 strategy has a short period at most its long one and a long period
  at most 100, and the search never changes the kind of strategy.\<close>

theorem evolution_keeps_periods:
  assumes "rng_ok ops" and "evolved ops t s"
  shows "same_kind t s \<and>
    (case s of SEMACrossover e \<Rightarrow> eco_ShortPeriod e \<le> eco_LongPeriod e \<and> eco_LongPeriod e \<le> 100
     | SS1 e \<Rightarrow> s1_EMAShortPeriod e \<le> s1_EMALongPeriod e \<and> s1_EMALongPeriod e \<le> 100
     | SRSI e \<Rightarrow> True)"
  using evolved_ok[OF assms] by (cases s) (simp_all add: periods_ok_def)

definition fixed_draws :: "rat \<Rightarrow> rat \<Rightarrow> unit rng_ops" where
  "fixed_draws u n = \<lparr>rg_float = (\<lambda>g. (Fin u, g)), rg_norm = (\<lambda>g. (Fin n, g))\<rparr>"

lemma fixed_draws_ok: "rng_ok (fixed_draws 0 1)"
  by (simp add: rng_ok_def fixed_draws_def)

definition some_crossover :: ema_crossover where
  "some_crossover = \<lparr>eco_ShortPeriod = 50, eco_LongPeriod = 60, eco_UpThreshold = Fin 1,
     eco_DownThreshold = Fin (- 1), eco_attached = False\<rparr>"

lemma evolution_keeps_periods_witness:
  "same_kind (SEMACrossover some_crossover) (fst (Rand (fixed_draws 0 1) (SEMACrossover some_crossover) ())) \<and>
    (case fst (Rand (fixed_draws 0 1) (SEMACrossover some_crossover) ()) of
       SEMACrossover e \<Rightarrow> eco_ShortPeriod e \<le> eco_LongPeriod e \<and> eco_LongPeriod e \<le> 100
     | SS1 e \<Rightarrow> s1_EMAShortPeriod e \<le> s1_EMALongPeriod e \<and> s1_EMALongPeriod e \<le> 100
     | SRSI e \<Rightarrow> True)"
  by (rule evolution_keeps_periods[OF fixed_draws_ok ev_rand])

text \<open>A mutation can disable a strategy: the new period is taken modulo 100, so doubling a period
  of 50 gives a period of zero, with which a moving average never has a value.\<close>

theorem mutation_can_zero_period:
  "\<exists>ops :: unit rng_ops. \<exists>e. rng_ok ops \<and> periods_ok (eco_ShortPeriod e) (eco_LongPeriod e) \<and>
     eco_ShortPeriod e = 50 \<and> eco_ShortPeriod (fst (eco_Mutate ops e ())) = 0"
proof (intro exI conjI)
  show "rng_ok (fixed_draws 0 1)"
    by (rule fixed_draws_ok)
  show "eco_ShortPeriod (fst (eco_Mutate (fixed_draws 0 1) some_crossover ())) = 0"
    by code_simp
qed (simp_all add: some_crossover_def periods_ok_def)

text \<open>A mutation of an RSI strategy keeps both thresholds between 0 and 100, whatever is drawn.\<close>

theorem rsi_mutation_keeps_thresholds:
  assumes "rng_ok ops" and "fnonneg (rs_BuyThreshold e) \<and> fle (rs_BuyThreshold e) (Fin 100)"
    and "fnonneg (rs_SellThreshold e) \<and> fle (rs_SellThreshold e) (Fin 100)"
  shows "fnonneg (rs_BuyThreshold (fst (rs_Mutate ops e g))) \<and> fle (rs_BuyThreshold (fst (rs_Mutate ops e g))) (Fin 100) \<and>
    fnonneg (rs_SellThreshold (fst (rs_Mutate ops e g))) \<and> fle (rs_SellThreshold (fst (rs_Mutate ops e g))) (Fin 100)"
proof -
  have t: "fnonneg (fst (rs_mutate_threshold ops t g)) \<and> fle (fst (rs_mutate_threshold ops t g)) (Fin 100)"
    if "fnonneg t \<and> fle t (Fin 100)" for t g
  proof -
    define n where "n = fst (rg_norm ops (snd (rg_float ops g)))"
    have n: "is_fin n"
      using assms(1) by (simp add: rng_ok_def n_def)
    have "is_fin t"
      using that by (cases t) simp_all
    then have "fmul t n \<noteq> NaN"
      using n by (cases t; cases n) (simp_all add: fmul_def)
    then have x: "fadd t (fmul t n) \<noteq> NaN"
      using \<open>is_fin t\<close> by (cases t; cases "fmul t n") (simp_all add: fadd_def)
    show ?thesis
      using that x not_flt_iff[of "fadd t (fmul t n)" "Fin 0"] not_flt_iff[of "Fin 100" "fadd t (fmul t n)"]
      by (simp add: rs_mutate_threshold_def Let_def split_beta n_def)
  qed
  show ?thesis
    using t[OF assms(2)] t[OF assms(3)] by (simp add: rs_Mutate_def Let_def split_beta)
qed

lemma rsi_mutation_keeps_thresholds_witness:
  "fnonneg (rs_BuyThreshold (fst (rs_Mutate (fixed_draws 0 1) \<lparr>rs_Period = 14, rs_BuyThreshold = Fin 30, rs_SellThreshold = Fin 70, rs_attached = False\<rparr> ()))) \<and>
   fle (rs_BuyThreshold (fst (rs_Mutate (fixed_draws 0 1) \<lparr>rs_Period = 14, rs_BuyThreshold = Fin 30, rs_SellThreshold = Fin 70, rs_attached = False\<rparr> ()))) (Fin 100) \<and>
   fnonneg (rs_SellThreshold (fst (rs_Mutate (fixed_draws 0 1) \<lparr>rs_Period = 14, rs_BuyThreshold = Fin 30, rs_SellThreshold = Fin 70, rs_attached = False\<rparr> ()))) \<and>
   fle (rs_SellThreshold (fst (rs_Mutate (fixed_draws 0 1) \<lparr>rs_Period = 14, rs_BuyThreshold = Fin 30, rs_SellThreshold = Fin 70, rs_attached = False\<rparr> ()))) (Fin 100)"
  by (rule rsi_mutation_keeps_thresholds[OF fixed_draws_ok]) simp_all

text \<open>The crossover of S1 strategies does not look at the mate's entrance threshold: it blends the
  receiver's own with itself, so that gene is not exchanged.\<close>

theorem s1_crossover_ignores_mate_entrance:
  "s1_Crossover ops s (mate\<lparr>s1_RSIEntranceThreshold := x\<rparr>) g = s1_Crossover ops s mate g"
  by (simp add: s1_Crossover_def del: CrossUniformFloat64.simps)

end
