(* ===== verification/Trading.thy ===== *)
theory Trading
  imports Strategies
begin

text \<open>
  \<open>math.go\<close>, the stored models of \<open>models.go\<close>, \<open>order_strategies.go\<close> and the
  trading engine of \<open>strategy.go\<close>. The exchange, the database and the clock are the
  interfaces \<open>Exchange\<close>, \<open>Backend\<close> and \<open>clockwork.Clock\<close> of the source: a record of
  functions over a world of any type, which later theories fill with the program's own
  implementations. An operation that calls them is a function from the world to its
  outcome and the world after it; whatever was written before an error stays written.
\<close>

section \<open>\<open>math.go\<close>\<close>

text \<open>\<open>math.Pow(10, precision)\<close> is exact for the precisions in use (8).\<close>

definition TruncateFloat :: "f64 \<Rightarrow> u64 \<Rightarrow> f64" where
  "TruncateFloat f precision =
    (let x = flit (10 ^ unat precision)
     in fdiv (float_of_int (int64_of_float (fmul f x))) x)"

definition tradeCurrencyPrecision :: u64 where
  "tradeCurrencyPrecision = 8"

definition minimumBudgetProportion :: f64 where
  "minimumBudgetProportion = flit (7 / 10)"

section \<open>Stored models\<close>

abbreviation StrategyStateTryingToBuy :: string where "StrategyStateTryingToBuy \<equiv> ''trying-to-buy''"
abbreviation StrategyStateTryingToSell :: string where "StrategyStateTryingToSell \<equiv> ''trying-to-sell''"
abbreviation TradingStrategyEMACrossover :: string where "TradingStrategyEMACrossover \<equiv> ''ema-crossover''"
abbreviation TradingStrategyRSI :: string where "TradingStrategyRSI \<equiv> ''rsi''"
abbreviation TradingStrategyS1 :: string where "TradingStrategyS1 \<equiv> ''s1''"

record market_order_model =
  mm_id :: int
  mm_created_at :: time
  mm_updated_at :: time
  mm_trading_strategy_id :: int
  mm_exchange_id :: string
  mm_product :: product
  mm_side :: string
  mm_cost :: f64
  mm_cost_currency :: string
  mm_filled_size :: f64
  mm_size_currency :: string
  mm_fees :: f64
  mm_fees_currency :: string

record trading_strategy_model =
  tm_id :: int
  tm_created_at :: time
  tm_updated_at :: time
  tm_deactivated_at :: time
  tm_last_tick_at :: time
  tm_next_tick_at :: time
  tm_product :: product
  tm_history_ticks :: u64
  tm_state :: string
  tm_initial_budget :: f64
  tm_budget :: f64
  tm_budget_currency :: string
  tm_invested :: f64
  tm_invested_currency :: string
  tm_tick_size_minutes :: u64
  tm_trading_strategy :: string
  tm_data :: string

definition Copy :: "trading_strategy_model \<Rightarrow> trading_strategy_model" where
  "Copy t = \<lparr>tm_id = tm_id t, tm_created_at = zero_time, tm_updated_at = zero_time,
     tm_deactivated_at = zero_time, tm_last_tick_at = zero_time, tm_next_tick_at = zero_time,
     tm_product = tm_product t, tm_history_ticks = tm_history_ticks t, tm_state = tm_state t,
     tm_initial_budget = tm_initial_budget t, tm_budget = tm_budget t,
     tm_budget_currency = tm_budget_currency t, tm_invested = tm_invested t,
     tm_invested_currency = tm_invested_currency t, tm_tick_size_minutes = tm_tick_size_minutes t,
     tm_trading_strategy = tm_trading_strategy t, tm_data = tm_data t\<rparr>"

text \<open>The YAML library is a parameter: one encoder, one decoder for each strategy type.\<close>

record yaml_ops =
  ym_marshal :: "strategy \<Rightarrow> string go_result"
  ym_unmarshal_eco :: "string \<Rightarrow> ema_crossover go_result"
  ym_unmarshal_rsi :: "string \<Rightarrow> rsi_strategy go_result"
  ym_unmarshal_s1 :: "string \<Rightarrow> s1_strategy go_result"

fun strategy_type :: "strategy \<Rightarrow> string" where
  "strategy_type (SEMACrossover _) = TradingStrategyEMACrossover"
| "strategy_type (SRSI _) = TradingStrategyRSI"
| "strategy_type (SS1 _) = TradingStrategyS1"

definition SetStrategy ::
  "yaml_ops \<Rightarrow> trading_strategy_model \<Rightarrow> strategy \<Rightarrow> unit go_result \<times> trading_strategy_model \<times> strategy" where
  "SetStrategy y t s =
    (let t1 = t\<lparr>tm_trading_strategy := strategy_type s\<rparr>; s1 = SetTradingStrategy s
     in case wrap_err ''error YAML marshalling trading strategy'' (ym_marshal y s1) of
          Ok b \<Rightarrow> (Ok (), t1\<lparr>tm_data := b\<rparr>, s1)
        | Err e \<Rightarrow> (Err e, t1, s1)
        | Panic p \<Rightarrow> (Panic p, t1, s1)
        | Diverge \<Rightarrow> (Diverge, t1, s1))"

definition Strategy :: "yaml_ops \<Rightarrow> trading_strategy_model \<Rightarrow> strategy go_result" where
  "Strategy y t =
    (let msg = ''error YAML unmarshaling trading strategy data'' in
     if tm_trading_strategy t = TradingStrategyEMACrossover then
       bind_result (wrap_err msg (ym_unmarshal_eco y (tm_data t))) (\<lambda>e. Ok (SetTradingStrategy (SEMACrossover e)))
     else if tm_trading_strategy t = TradingStrategyRSI then
       bind_result (wrap_err msg (ym_unmarshal_rsi y (tm_data t))) (\<lambda>e. Ok (SetTradingStrategy (SRSI e)))
     else if tm_trading_strategy t = TradingStrategyS1 then
       bind_result (wrap_err msg (ym_unmarshal_s1 y (tm_data t))) (\<lambda>e. Ok (SetTradingStrategy (SS1 e)))
     else Err (Errorf ''error: unknown trading strategy''))"

section \<open>The outside world\<close>

type_synonym ('a, 'w) act = "'w \<Rightarrow> 'a go_result \<times> 'w"

record 'w services =
  sv_exchange_order :: "market_order \<Rightarrow> (order_response, 'w) act"
  sv_store_order :: "market_order_model \<Rightarrow> (unit, 'w) act"
  sv_update_strategy :: "trading_strategy_model \<Rightarrow> (unit, 'w) act"
  sv_find_candles :: "time \<Rightarrow> time \<Rightarrow> product \<Rightarrow> int \<Rightarrow> (candlestick list, 'w) act"
  sv_active_strategies :: "product \<Rightarrow> (trading_strategy_model list, 'w) act"
  sv_recent_candle :: "product \<Rightarrow> (candlestick, 'w) act"
  sv_now :: "'w \<Rightarrow> time \<times> 'w"

definition bind_act :: "('a, 's) act \<Rightarrow> ('a \<Rightarrow> ('b, 's) act) \<Rightarrow> ('b, 's) act" where
  "bind_act m f s = (case m s of
     (Ok a, s1) \<Rightarrow> f a s1
   | (Err e, s1) \<Rightarrow> (Err e, s1)
   | (Panic p, s1) \<Rightarrow> (Panic p, s1)
   | (Diverge, s1) \<Rightarrow> (Diverge, s1))"

definition result_act :: "'a go_result \<Rightarrow> ('a, 's) act" where
  "result_act r s = (r, s)"

definition wrap_act :: "string \<Rightarrow> ('a, 's) act \<Rightarrow> ('a, 's) act" where
  "wrap_act msg m s = (case m s of (r, s1) \<Rightarrow> (wrap_err msg r, s1))"

text \<open>The model in memory beside the world: the state of an operation that updates both.\<close>

definition get_model :: "('m, 'm \<times> 'w) act" where
  "get_model s = (Ok (fst s), s)"

definition put_model :: "'m \<Rightarrow> (unit, 'm \<times> 'w) act" where
  "put_model m s = (Ok (), (m, snd s))"

definition on_world :: "('a, 'w) act \<Rightarrow> ('a, 'm \<times> 'w) act" where
  "on_world a s = (case a (snd s) of (r, w) \<Rightarrow> (r, (fst s, w)))"

section \<open>Order strategies\<close>

record perform_order_args =
  pa_product :: product
  pa_side :: string
  pa_cost :: f64
  pa_timeout :: duration
  pa_trading_strategy :: trading_strategy_model
  pa_candlestick :: "candlestick option"

record perform_order_response =
  pr_filled_size :: f64
  pr_filled_size_currency :: string
  pr_fees :: f64
  pr_fees_currency :: string

definition market_order_of :: "perform_order_args \<Rightarrow> order_response \<Rightarrow> string \<Rightarrow> market_order_model" where
  "market_order_of args response costCurrency =
     \<lparr>mm_id = 0, mm_created_at = zero_time, mm_updated_at = zero_time,
      mm_trading_strategy_id = tm_id (pa_trading_strategy args), mm_exchange_id = or_exchange_id response,
      mm_product = pa_product args, mm_side = pa_side args, mm_cost = pa_cost args,
      mm_cost_currency = costCurrency, mm_filled_size = or_filled_size response,
      mm_size_currency = or_filled_currency response, mm_fees = or_fees response,
      mm_fees_currency = or_fees_currency response\<rparr>"

definition PerformOrder :: "'w services \<Rightarrow> perform_order_args \<Rightarrow> (perform_order_response, 'w) act" where
  "PerformOrder sv args =
    (if pa_side args \<noteq> OrderBuy \<and> pa_side args \<noteq> OrderSell
     then result_act (Err (Errorf ''error: unknown order side''))
     else
       bind_act (wrap_act ''error creating market order with exchange''
         (sv_exchange_order sv (NewMarketOrder (pa_product args) (pa_side args) (pa_cost args)))) (\<lambda>response.
       bind_act (result_act (deref (ProductToMetadata (pa_product args)))) (\<lambda>md.
       let costCurrency = (if pa_side args = OrderBuy then pm_buy_currency md else pm_sell_currency md)
       in bind_act (wrap_act ''error creating market order in database''
            (sv_store_order sv (market_order_of args response costCurrency))) (\<lambda>_.
          result_act (Ok \<lparr>pr_filled_size = or_filled_size response,
            pr_filled_size_currency = or_filled_currency response,
            pr_fees = or_fees response, pr_fees_currency = or_fees_currency response\<rparr>)))))"

section \<open>The trading engine\<close>

record trading_strategy =
  ts_strategy :: strategy
  ts_indicators :: "string \<rightharpoonup> indicator"
  ts_sets :: history
  ts_names :: "string list"
  ts_current :: int
  ts_last_candle :: time

definition register_indicator :: "trading_strategy \<Rightarrow> indicator \<Rightarrow> trading_strategy" where
  "register_indicator t i = t\<lparr>ts_indicators := (ts_indicators t)(IndicatorName i \<mapsto> i),
     ts_names := ts_names t @ [IndicatorName i]\<rparr>"

definition NewTradingStrategy :: "strategy \<Rightarrow> trading_strategy" where
  "NewTradingStrategy s =
     foldl register_indicator
       \<lparr>ts_strategy = s, ts_indicators = (\<lambda>_. None), ts_sets = [], ts_names = [], ts_current = - 1,
        ts_last_candle = zero_time\<rparr>
       (Indicators s)"

text \<open>The loop of \<open>SeedIndicators\<close> over the indicator names.\<close>

fun seed_loop :: "string list \<Rightarrow> candlestick \<Rightarrow> indicator_value option list \<Rightarrow> trading_strategy \<Rightarrow>
    indicator_value option list go_result \<times> trading_strategy" where
  "seed_loop [] c vs t = (Ok vs, t)"
| "seed_loop (name # ns) c vs t =
    (let t1 = t\<lparr>ts_last_candle := cs_end c\<rparr>
     in case ts_indicators t1 name of
          None \<Rightarrow> (Panic ''invalid memory address or nil pointer dereference'', t1)
        | Some ind \<Rightarrow>
            (case AddCandlestick ind c of (ind', r) \<Rightarrow>
               let t2 = t1\<lparr>ts_indicators := (ts_indicators t1)(name \<mapsto> ind')\<rparr>
               in case wrap_err ''error seeding indicator'' r of
                    Err e \<Rightarrow> (Err e, t2)
                  | Panic p \<Rightarrow> (Panic p, t2)
                  | Diverge \<Rightarrow> (Diverge, t2)
                  | Ok _ \<Rightarrow>
                      (case IndicatorValueOf ind' of
                         Ok v \<Rightarrow> seed_loop ns c (vs @ [Some v]) t2
                       | Err e \<Rightarrow>
                           if cause e \<noteq> ErrNotEnoughData
                           then (Err (Wrapf e ''error getting indicator value''), t2)
                           else seed_loop ns c (vs @ [None]) t2
                       | Panic p \<Rightarrow> (Panic p, t2)
                       | Diverge \<Rightarrow> (Diverge, t2))))"

definition nextTick :: "trading_strategy \<Rightarrow> trading_strategy" where
  "nextTick t = t\<lparr>ts_current := wrap64 (ts_current t + 1)\<rparr>"

definition setIndicatorSets :: "trading_strategy \<Rightarrow> history \<Rightarrow> trading_strategy" where
  "setIndicatorSets t h = t\<lparr>ts_sets := h\<rparr>"

definition SeedIndicators :: "trading_strategy \<Rightarrow> candlestick \<Rightarrow> unit go_result \<times> trading_strategy" where
  "SeedIndicators t c =
    (case seed_loop (ts_names t) c [] t of
       (Ok vs, t1) \<Rightarrow>
         let set = \<lparr>is_time = (if ts_names t = [] then zero_time else cs_start c), is_values = vs\<rparr>
         in (Ok (), nextTick (t1\<lparr>ts_sets := ts_sets t1 @ [Some set]\<rparr>))
     | (Err e, t1) \<Rightarrow> (Err e, t1)
     | (Panic p, t1) \<Rightarrow> (Panic p, t1)
     | (Diverge, t1) \<Rightarrow> (Diverge, t1))"

definition ValidateIndicatorSets :: "int \<Rightarrow> int \<Rightarrow> history \<Rightarrow> unit go_result" where
  "ValidateIndicatorSets historyTicks currentTick indicatorSets =
    (if indicatorSets = [] then Err ErrNotEnoughData
     else if currentTick > int (length indicatorSets) then Err ErrNotEnoughData
     else case last indicatorSets of
       None \<Rightarrow> Err ErrNotEnoughData
     | Some lastSet \<Rightarrow>
         if is_values lastSet = [] then Err ErrNotEnoughData
         else if list_ex Option.is_none (is_values lastSet) then Err ErrNotEnoughData
         else Ok ())"

definition order_args :: "trading_strategy_model \<Rightarrow> string \<Rightarrow> f64 \<Rightarrow> perform_order_args" where
  "order_args m side cost = \<lparr>pa_product = tm_product m, pa_side = side, pa_cost = cost, pa_timeout = 0,
     pa_trading_strategy = m, pa_candlestick = None\<rparr>"

definition TryBuy :: "'w services \<Rightarrow> trading_strategy \<Rightarrow> (unit, trading_strategy_model \<times> 'w) act" where
  "TryBuy sv t =
    bind_act get_model (\<lambda>m.
    bind_act (result_act (wrap_err ''error validating indicator sets''
      (ValidateIndicatorSets (sint (tm_history_ticks m)) (ts_current t) (ts_sets t)))) (\<lambda>_.
    bind_act (result_act (wrap_err ''error using strategy'' (Buy (ts_strategy t) (ts_sets t) (ts_current t)))) (\<lambda>buy.
    if buy then
      bind_act (on_world (wrap_act ''error performing buy order''
        (PerformOrder sv (order_args m OrderBuy (tm_budget m))))) (\<lambda>response.
      let m1 = m\<lparr>tm_invested := TruncateFloat (pr_filled_size response) tradeCurrencyPrecision,
                 tm_budget := Fin 0, tm_state := StrategyStateTryingToSell\<rparr>
      in bind_act (put_model m1) (\<lambda>_.
         on_world (wrap_act ''error updating trading strategy model in database'' (sv_update_strategy sv m1))))
    else result_act (Ok ()))))"

definition TrySell :: "'w services \<Rightarrow> trading_strategy \<Rightarrow> (unit, trading_strategy_model \<times> 'w) act" where
  "TrySell sv t =
    bind_act get_model (\<lambda>m.
    bind_act (result_act (wrap_err ''error validating indicator sets''
      (ValidateIndicatorSets (sint (tm_history_ticks m)) (ts_current t) (ts_sets t)))) (\<lambda>_.
    bind_act (result_act (wrap_err ''error using strategy'' (Sell (ts_strategy t) (ts_sets t) (ts_current t)))) (\<lambda>sell.
    if sell then
      bind_act (on_world (wrap_act ''error performing sell order''
        (PerformOrder sv (order_args m OrderSell (tm_invested m))))) (\<lambda>response.
      let m1 = m\<lparr>tm_invested := Fin 0,
                 tm_budget := TruncateFloat (pr_filled_size response) tradeCurrencyPrecision,
                 tm_state := StrategyStateTryingToBuy\<rparr>
      in bind_act (put_model m1) (\<lambda>_.
         bind_act (on_world (wrap_act ''error updating ema crossover model in database'' (sv_update_strategy sv m1))) (\<lambda>_.
         if flt (fdiv (tm_budget m1) (tm_initial_budget m1)) minimumBudgetProportion then
           bind_act (on_world (\<lambda>w. case sv_now sv w of (now, w1) \<Rightarrow> (Ok now, w1))) (\<lambda>now.
           let m2 = m1\<lparr>tm_deactivated_at := now\<rparr>
           in bind_act (put_model m2) (\<lambda>_.
              on_world (wrap_act ''error updating strategy after deactivating'' (sv_update_strategy sv m2))))
         else result_act (Ok ()))))
    else result_act (Ok ()))))"

definition ProcessTick :: "'w services \<Rightarrow> trading_strategy \<Rightarrow> (unit, trading_strategy_model \<times> 'w) act" where
  "ProcessTick sv t =
    bind_act get_model (\<lambda>m.
    if tm_state m = StrategyStateTryingToBuy then wrap_act ''error trying to buy'' (TryBuy sv t)
    else if tm_state m = StrategyStateTryingToSell then wrap_act ''error trying to sell'' (TrySell sv t)
    else result_act (Err (Errorf ''error: unknown strategy state'')))"

end
