(* ===== verification/Trading_Specs.thy ===== *)
theory Trading_Specs
  imports Trading
begin

text \<open>
  What the trading engine guarantees: seeding gives every indicator the whole history (when
  no two have the same name), a tick moves the position of a strategy by at most one order
  over the whole of it, and which failures leave an order executed but not recorded.
\<close>

section \<open>Outcomes\<close>

lemma bind_act_Ok_iff [result_simps]:
  "bind_act m f s = (Ok b, s2) \<longleftrightarrow> (\<exists>a s1. m s = (Ok a, s1) \<and> f a s1 = (Ok b, s2))"
  by (cases "m s"; cases "fst (m s)") (auto simp: bind_act_def split: go_result.splits)

lemma wrap_act_Ok_iff [result_simps]: "wrap_act msg m s = (Ok a, s1) \<longleftrightarrow> m s = (Ok a, s1)"
  by (cases "m s") (simp add: wrap_act_def)

lemma snd_wrap_act [simp]: "snd (wrap_act msg m s) = snd (m s)"
  by (cases "m s") (simp add: wrap_act_def)

lemma snd_result_act [simp]: "snd (result_act r s) = s"
  by (simp add: result_act_def)

lemma fst_snd_on_world [simp]: "fst (snd (on_world a s)) = fst s"
  by (simp add: on_world_def split: prod.splits)

text \<open>What the model can be after two steps.\<close>

lemma snd_bind_act:
  "snd (bind_act m f s) = snd (m s) \<or> (\<exists>a. m s = (Ok a, snd (m s)) \<and> bind_act m f s = f a (snd (m s)))"
  by (cases "m s"; cases "fst (m s)") (auto simp: bind_act_def)

section \<open>Seeding\<close>

definition step_indicator :: "candlestick \<Rightarrow> indicator \<Rightarrow> indicator" where
  "step_indicator c i = fst (AddCandlestick i c)"

definition value_option :: "indicator \<Rightarrow> indicator_value option" where
  "value_option i = (case IndicatorValueOf i of Ok v \<Rightarrow> Some v | _ \<Rightarrow> None)"

abbreviation run_indicator :: "indicator \<Rightarrow> candlestick list \<Rightarrow> indicator" where
  "run_indicator \<equiv> foldl (\<lambda>i c. step_indicator c i)"

lemma seed_loop_Cons:
  assumes "ts_indicators t n = Some i"
  shows "seed_loop (n # ns) c vs t =
    seed_loop ns c (vs @ [value_option (step_indicator c i)])
      (t\<lparr>ts_last_candle := cs_end c, ts_indicators := (ts_indicators t)(n \<mapsto> step_indicator c i)\<rparr>)"
proof -
  have a: "AddCandlestick i c = (step_indicator c i, Ok ())"
    unfolding step_indicator_def by (rule ind.add_pair)
  from ind.val_cases[of "step_indicator c i"] show ?thesis
    using assms by (auto simp: a value_option_def)
qed

definition step_map :: "string list \<Rightarrow> candlestick \<Rightarrow> (string \<rightharpoonup> indicator) \<Rightarrow> (string \<rightharpoonup> indicator)" where
  "step_map ns c m = (\<lambda>n. if n \<in> set ns then map_option (step_indicator c) (m n) else m n)"

definition step_all :: "string list \<Rightarrow> candlestick \<Rightarrow> trading_strategy \<Rightarrow> trading_strategy" where
  "step_all ns c t = t\<lparr>ts_last_candle := (if ns = [] then ts_last_candle t else cs_end c),
     ts_indicators := step_map ns c (ts_indicators t)\<rparr>"

lemma step_map_Cons:
  "n \<notin> set ns \<Longrightarrow> m n = Some i \<Longrightarrow> step_map ns c (m(n \<mapsto> step_indicator c i)) = step_map (n # ns) c m"
  by (rule ext) (simp add: step_map_def)

lemma step_map_Nil [simp]: "step_map [] c m = m"
  by (simp add: step_map_def)

lemma step_all_frame [simp]:
  "ts_strategy (step_all ns c t) = ts_strategy t" "ts_names (step_all ns c t) = ts_names t"
  "ts_sets (step_all ns c t) = ts_sets t" "ts_current (step_all ns c t) = ts_current t"
  by (simp_all add: step_all_def)

lemma seed_loop_distinct:
  assumes "distinct ns" and "\<forall>n \<in> set ns. n \<in> dom (ts_indicators t)"
  shows "seed_loop ns c vs t =
    (Ok (vs @ map (\<lambda>n. value_option (step_indicator c (the (ts_indicators t n)))) ns), step_all ns c t)"
  using assms
proof (induction ns arbitrary: vs t)
  case Nil
  show ?case by (simp add: step_all_def)
next
  case (Cons n ns)
  obtain i where i: "ts_indicators t n = Some i"
    using Cons.prems by auto
  define t1 where "t1 = t\<lparr>ts_last_candle := cs_end c, ts_indicators := (ts_indicators t)(n \<mapsto> step_indicator c i)\<rparr>"
  have dom: "\<forall>k \<in> set ns. k \<in> dom (ts_indicators t1)"
    using Cons.prems by (simp add: t1_def)
  have "step_all ns c t1 = step_all (n # ns) c t"
    using Cons.prems(1) step_map_Cons[of n ns "ts_indicators t" i c] i by (simp add: step_all_def t1_def)
  moreover have "map (\<lambda>k. value_option (step_indicator c (the (ts_indicators t1 k)))) ns =
      map (\<lambda>k. value_option (step_indicator c (the (ts_indicators t k)))) ns"
    using Cons.prems(1) by (auto simp: t1_def)
  ultimately show ?case
    unfolding seed_loop_Cons[OF i] t1_def[symmetric] using Cons.IH[OF _ dom] Cons.prems(1) i by simp
qed

definition seed_all :: "trading_strategy \<Rightarrow> candlestick list \<Rightarrow> trading_strategy" where
  "seed_all = foldl (\<lambda>t c. snd (SeedIndicators t c))"

definition names_of :: "strategy \<Rightarrow> string list" where
  "names_of s = map IndicatorName (Indicators s)"

text \<open>The set of values after the candlesticks up to and including the last of a list.\<close>

definition set_after :: "strategy \<Rightarrow> candlestick list \<Rightarrow> indicator_set option" where
  "set_after s cs = Some \<lparr>is_time = cs_start (last cs),
     is_values = map (\<lambda>i. value_option (run_indicator i cs)) (Indicators s)\<rparr>"

definition seeded :: "strategy \<Rightarrow> candlestick list \<Rightarrow> trading_strategy \<Rightarrow> bool" where
  "seeded s cs t \<longleftrightarrow> ts_strategy t = s \<and> ts_names t = names_of s \<and>
     (\<forall>i \<in> set (Indicators s). ts_indicators t (IndicatorName i) = Some (run_indicator i cs)) \<and>
     ts_sets t = map (\<lambda>k. set_after s (take (Suc k) cs)) [0..<length cs] \<and>
     ts_current t = int (length cs) - 1 \<and>
     ts_last_candle t = (if cs = [] then zero_time else cs_end (last cs))"

lemma register_all:
  assumes "distinct (map IndicatorName is)" and "ts_names t = []"
  shows "ts_names (foldl register_indicator t is) = map IndicatorName is \<and>
    (\<forall>i \<in> set is. ts_indicators (foldl register_indicator t is) (IndicatorName i) = Some i) \<and>
    ts_strategy (foldl register_indicator t is) = ts_strategy t \<and> ts_sets (foldl register_indicator t is) = ts_sets t \<and>
    ts_current (foldl register_indicator t is) = ts_current t \<and>
    ts_last_candle (foldl register_indicator t is) = ts_last_candle t"
  using assms by (induction "is" rule: rev_induct) (auto simp: register_indicator_def image_iff)

lemma seeded_new:
  assumes "distinct (names_of s)"
  shows "seeded s [] (NewTradingStrategy s)"
  using register_all[of "Indicators s"] assms unfolding names_of_def
  by (simp add: seeded_def NewTradingStrategy_def names_of_def)

lemma Indicators_nonempty [simp]: "Indicators s \<noteq> []"
  by (cases s) (simp_all add: eco_Indicators_def rs_Indicators_def s1_Indicators_def)

lemma seeded_step:
  assumes "seeded s cs t" and "distinct (names_of s)" and "length cs < 2 ^ 62"
  shows "fst (SeedIndicators t c) = Ok ()" and "seeded s (cs @ [c]) (snd (SeedIndicators t c))"
proof -
  note S = assms(1)[unfolded seeded_def]
  have names: "ts_names t = names_of s"
    using S by simp
  have loop: "seed_loop (names_of s) c [] t =
      (Ok (map (\<lambda>n. value_option (step_indicator c (the (ts_indicators t n)))) (names_of s)), step_all (names_of s) c t)"
    using S assms(2) by (subst seed_loop_distinct) (auto simp: names_of_def)
  have vals: "map (\<lambda>n. value_option (step_indicator c (the (ts_indicators t n)))) (names_of s) =
      map (\<lambda>i. value_option (run_indicator i (cs @ [c]))) (Indicators s)"
    using S by (auto simp: names_of_def)
  have ne: "names_of s \<noteq> []"
    by (simp add: names_of_def)
  have cur: "wrap64 (ts_current t + 1) = int (length (cs @ [c])) - 1"
  proof -
    have "int (length cs) < int (2 ^ 62)"
      using assms(3) by (simp only: of_nat_less_iff)
    then show ?thesis
      using S by (simp add: wrap64_id in_int64I)
  qed
  have seed: "SeedIndicators t c = (Ok (), nextTick ((step_all (names_of s) c t)\<lparr>ts_sets := ts_sets t @ [set_after s (cs @ [c])]\<rparr>))"
    unfolding SeedIndicators_def names loop vals by (simp add: ne set_after_def Let_def)
  then show "fst (SeedIndicators t c) = Ok ()"
    by simp
  have sets: "map (\<lambda>k. set_after s (take (Suc k) (cs @ [c]))) [0..<length (cs @ [c])] =
      map (\<lambda>k. set_after s (take (Suc k) cs)) [0..<length cs] @ [set_after s (cs @ [c])]"
    by simp
  have inds: "ts_indicators (step_all (names_of s) c t) (IndicatorName i) = Some (run_indicator i (cs @ [c]))"
    if "i \<in> set (Indicators s)" for i
    using that S by (auto simp: step_all_def step_map_def names_of_def)
  have last: "ts_last_candle (step_all (names_of s) c t) = cs_end c"
    using ne by (simp add: step_all_def)
  show "seeded s (cs @ [c]) (snd (SeedIndicators t c))"
    unfolding seeded_def seed snd_conv sets nextTick_def
    using S cur inds last by simp
qed

lemma seeded_all:
  assumes "distinct (names_of s)" and "length cs < 2 ^ 62"
  shows "seeded s cs (seed_all (NewTradingStrategy s) cs)"
  using assms(2)
proof (induction cs rule: rev_induct)
  case Nil
  show ?case using seeded_new[OF assms(1)] by (simp add: seed_all_def)
next
  case (snoc c cs)
  then show ?case
    using seeded_step(2)[OF _ assms(1)] by (simp add: seed_all_def)
qed

text \<open>Names are distinct exactly when the two periods of a crossover differ.\<close>

lemma eco_names_distinct:
  "distinct (names_of (SEMACrossover e)) \<longleftrightarrow> eco_ShortPeriod e \<noteq> eco_LongPeriod e"
  using show_u64_inj[of "eco_ShortPeriod e" "eco_LongPeriod e"]
  by (auto simp: names_of_def eco_Indicators_def dema_name_def ema_name_def NewDEMAIndicator_def NewEMAIndicator_def)

lemma rs_names_distinct: "distinct (names_of (SRSI r))"
  by (simp add: names_of_def rs_Indicators_def)

section \<open>Ticks\<close>

lemma bind_result_act [simp]:
  "bind_act (result_act (Ok a)) f s = f a s"
  "bind_act (result_act (Err e)) f s = (Err e, s)"
  "bind_act (result_act (Panic p)) f s = (Panic p, s)"
  "bind_act (result_act Diverge) f s = (Diverge, s)"
  by (simp_all add: bind_act_def result_act_def)

lemma bind_get_put [simp]:
  "bind_act get_model f s = f (fst s) s"
  "bind_act (put_model m) g s = g () (m, snd s)"
  by (simp_all add: bind_act_def get_model_def put_model_def)

lemma bind_on_world:
  "bind_act (on_world a) f (m, w) = (case a w of
     (Ok x, w1) \<Rightarrow> f x (m, w1)
   | (Err e, w1) \<Rightarrow> (Err e, (m, w1))
   | (Panic p, w1) \<Rightarrow> (Panic p, (m, w1))
   | (Diverge, w1) \<Rightarrow> (Diverge, (m, w1)))"
  by (simp add: bind_act_def on_world_def split: prod.splits go_result.splits)

lemma wrap_act_case:
  "wrap_act msg a w = (wrap_err msg (fst (a w)), snd (a w))"
  by (simp add: wrap_act_def split_beta)

lemma PerformOrder_Ok:
  assumes "PerformOrder sv args w = (Ok p, w2)"
  shows "\<exists>resp w1. sv_exchange_order sv (NewMarketOrder (pa_product args) (pa_side args) (pa_cost args)) w = (Ok resp, w1) \<and>
    pr_filled_size p = or_filled_size resp"
  using assms by (auto simp: PerformOrder_def result_simps result_act_def Let_def split: if_splits)

datatype position = Cash f64 | Holding f64

definition position_of :: "trading_strategy_model \<Rightarrow> position" where
  "position_of m = (if tm_state m = StrategyStateTryingToBuy then Cash (tm_budget m) else Holding (tm_invested m))"

text \<open>A strategy is either out of the market with nothing invested or in it with no budget.\<close>

definition model_ok :: "trading_strategy_model \<Rightarrow> bool" where
  "model_ok m \<longleftrightarrow> tm_state m = StrategyStateTryingToBuy \<and> tm_invested m = Fin 0 \<or>
     tm_state m = StrategyStateTryingToSell \<and> tm_budget m = Fin 0"

fun traded_position :: "position \<Rightarrow> f64 \<Rightarrow> position" where
  "traded_position (Cash _) filled = Holding (TruncateFloat filled tradeCurrencyPrecision)"
| "traded_position (Holding _) filled = Cash (TruncateFloat filled tradeCurrencyPrecision)"

fun position_order :: "product \<Rightarrow> position \<Rightarrow> market_order" where
  "position_order p (Cash b) = NewMarketOrder p OrderBuy b"
| "position_order p (Holding i) = NewMarketOrder p OrderSell i"

definition after_buy :: "trading_strategy_model \<Rightarrow> f64 \<Rightarrow> trading_strategy_model" where
  "after_buy m filled = m\<lparr>tm_invested := TruncateFloat filled tradeCurrencyPrecision,
     tm_budget := Fin 0, tm_state := StrategyStateTryingToSell\<rparr>"

definition after_sell :: "trading_strategy_model \<Rightarrow> f64 \<Rightarrow> trading_strategy_model" where
  "after_sell m filled = m\<lparr>tm_invested := Fin 0,
     tm_budget := TruncateFloat filled tradeCurrencyPrecision, tm_state := StrategyStateTryingToBuy\<rparr>"

lemma TryBuy_model:
  assumes "TryBuy sv t (m, w) = (r, (m', w'))"
  shows "m' = m \<or> (\<exists>resp w1. sv_exchange_order sv (NewMarketOrder (tm_product m) OrderBuy (tm_budget m)) w = (Ok resp, w1) \<and>
    m' = after_buy m (or_filled_size resp))"
proof (cases "ValidateIndicatorSets (sint (tm_history_ticks m)) (ts_current t) (ts_sets t)")
  case Valid: (Ok u)
  show ?thesis
  proof (cases "Buy (ts_strategy t) (ts_sets t) (ts_current t)")
    case Decision: (Ok buy)
    show ?thesis
    proof (cases buy)
      case True
      obtain r1 w1 where P: "PerformOrder sv (order_args m OrderBuy (tm_budget m)) w = (r1, w1)"
        by fastforce
      then show ?thesis
        using PerformOrder_Ok[of sv "order_args m OrderBuy (tm_budget m)" w] assms True
        by (cases r1) (auto simp: TryBuy_def Valid Decision bind_on_world wrap_act_case after_buy_def order_args_def
            Let_def on_world_def split: prod.splits)
    qed (use assms in \<open>simp add: TryBuy_def Valid Decision result_act_def\<close>)
  qed (use assms in \<open>simp_all add: TryBuy_def Valid\<close>)
qed (use assms in \<open>simp_all add: TryBuy_def\<close>)

lemma TrySell_model:
  assumes "TrySell sv t (m, w) = (r, (m', w'))"
  shows "m' = m \<or> (\<exists>resp w1 d. sv_exchange_order sv (NewMarketOrder (tm_product m) OrderSell (tm_invested m)) w = (Ok resp, w1) \<and>
    m' = (after_sell m (or_filled_size resp))\<lparr>tm_deactivated_at := d\<rparr>)"
proof (cases "ValidateIndicatorSets (sint (tm_history_ticks m)) (ts_current t) (ts_sets t)")
  case Valid: (Ok u)
  show ?thesis
  proof (cases "Sell (ts_strategy t) (ts_sets t) (ts_current t)")
    case Decision: (Ok sell)
    show ?thesis
    proof (cases sell)
      case True
      obtain r1 w1 where P: "PerformOrder sv (order_args m OrderSell (tm_invested m)) w = (r1, w1)"
        by fastforce
      show ?thesis
      proof (cases r1)
        case (Ok p)
        then obtain resp w0 where E: "sv_exchange_order sv (NewMarketOrder (tm_product m) OrderSell (tm_invested m)) w = (Ok resp, w0)"
          and f: "pr_filled_size p = or_filled_size resp"
          using PerformOrder_Ok[of sv "order_args m OrderSell (tm_invested m)" w p w1] P by (auto simp: order_args_def)
        define m1 where "m1 = after_sell m (or_filled_size resp)"
        have "m' = m1 \<or> (\<exists>d. m' = m1\<lparr>tm_deactivated_at := d\<rparr>)"
          using assms True Ok P f
          by (auto simp: TrySell_def Valid Decision bind_on_world wrap_act_case Let_def on_world_def m1_def
              after_sell_def result_act_def split: prod.splits go_result.splits if_splits)
        moreover have "m1 = m1\<lparr>tm_deactivated_at := tm_deactivated_at m1\<rparr>"
          by simp
        ultimately have "\<exists>d. m' = m1\<lparr>tm_deactivated_at := d\<rparr>"
          by metis
        then show ?thesis
          using E by (auto simp: m1_def)
      qed (use assms True P in \<open>simp_all add: TrySell_def Valid Decision bind_on_world wrap_act_case\<close>)
    qed (use assms in \<open>simp add: TrySell_def Valid Decision result_act_def\<close>)
  qed (use assms in \<open>simp_all add: TrySell_def Valid\<close>)
qed (use assms in \<open>simp_all add: TrySell_def\<close>)

section \<open>Properties\<close>

text \<open>C1. A tick keeps the books: whatever the exchange and the database answer, errors included, a
  strategy that is either out of the market with nothing invested or in it without budget is so
  after a tick, and its position changed only by one executed order over the whole of it: the
  budget bought with, the investment sold, the size the exchange filled, cut to eight places,
  taken over.\<close>

theorem tick_keeps_books:
  assumes "model_ok m" and "ProcessTick sv t (m, w) = (r, (m', w'))"
  shows "model_ok m' \<and> (position_of m' = position_of m \<or>
    (\<exists>resp w1. sv_exchange_order sv (position_order (tm_product m) (position_of m)) w = (Ok resp, w1) \<and>
       position_of m' = traded_position (position_of m) (or_filled_size resp)))"
proof (cases "tm_state m = StrategyStateTryingToBuy")
  case True
  then have "snd (TryBuy sv t (m, w)) = (m', w')"
    using assms(2) by (simp add: ProcessTick_def wrap_act_case)
  then have "TryBuy sv t (m, w) = (fst (TryBuy sv t (m, w)), (m', w'))"
    by (metis prod.collapse)
  from TryBuy_model[OF this] show ?thesis
    using assms(1) True by (auto simp: model_ok_def position_of_def after_buy_def)
next
  case False
  then have sell: "tm_state m = StrategyStateTryingToSell"
    using assms(1) by (auto simp: model_ok_def)
  then have "snd (TrySell sv t (m, w)) = (m', w')"
    using assms(2) by (simp add: ProcessTick_def wrap_act_case)
  then have "TrySell sv t (m, w) = (fst (TrySell sv t (m, w)), (m', w'))"
    by (metis prod.collapse)
  from TrySell_model[OF this] show ?thesis
    using assms(1) sell by (auto simp: model_ok_def position_of_def after_sell_def)
qed

definition test_rsi :: rsi_strategy where
  "test_rsi = \<lparr>rs_Period = 14, rs_BuyThreshold = Fin 30, rs_SellThreshold = Fin 70, rs_attached = True\<rparr>"

definition test_trader :: "rat \<Rightarrow> trading_strategy" where
  "test_trader q = (NewTradingStrategy (SRSI test_rsi))\<lparr>ts_sets := [test_set [q]], ts_current := 0\<rparr>"

definition test_model :: trading_strategy_model where
  "test_model = \<lparr>tm_id = 1, tm_created_at = zero_time, tm_updated_at = zero_time,
     tm_deactivated_at = zero_time, tm_last_tick_at = zero_time, tm_next_tick_at = zero_time,
     tm_product = ProductBTCUSD, tm_history_ticks = 5, tm_state = StrategyStateTryingToBuy,
     tm_initial_budget = Fin 100, tm_budget = Fin 100, tm_budget_currency = CurrencyUSD,
     tm_invested = Fin 0, tm_invested_currency = CurrencyBTC, tm_tick_size_minutes = 5,
     tm_trading_strategy = TradingStrategyRSI, tm_data = []\<rparr>"

text \<open>An exchange that fills two units and a database with the given answer to storing an order;
  the world counts the orders sent.\<close>

definition test_services :: "unit go_result \<Rightarrow> nat services" where
  "test_services stored = \<lparr>
     sv_exchange_order = (\<lambda>m w. (Ok \<lparr>or_exchange_id = ''x'', or_filled_size = Fin 2,
       or_filled_currency = CurrencyBTC, or_fees = Fin 0, or_fees_currency = CurrencyUSD\<rparr>, w + 1)),
     sv_store_order = (\<lambda>m w. (stored, w)), sv_update_strategy = (\<lambda>m w. (Ok (), w)),
     sv_find_candles = (\<lambda>s e p k w. (Ok [], w)), sv_active_strategies = (\<lambda>p w. (Ok [], w)),
     sv_recent_candle = (\<lambda>p w. (Err (Errorf ''none''), w)), sv_now = (\<lambda>w. (0, w))\<rparr>"

lemma tick_keeps_books_witness:
  "model_ok (fst (snd (ProcessTick (test_services (Ok ())) (test_trader 20) (test_model, 0)))) \<and>
    (position_of (fst (snd (ProcessTick (test_services (Ok ())) (test_trader 20) (test_model, 0)))) = position_of test_model \<or>
    (\<exists>resp w1. sv_exchange_order (test_services (Ok ())) (position_order (tm_product test_model) (position_of test_model)) 0 = (Ok resp, w1) \<and>
       position_of (fst (snd (ProcessTick (test_services (Ok ())) (test_trader 20) (test_model, 0)))) =
         traded_position (position_of test_model) (or_filled_size resp)))"
  by (rule tick_keeps_books[where r = "fst (ProcessTick (test_services (Ok ())) (test_trader 20) (test_model, 0))" and
        w' = "snd (snd (ProcessTick (test_services (Ok ())) (test_trader 20) (test_model, 0)))"])
    (simp_all add: model_ok_def test_model_def)

text \<open>The same world, in which the first order sent cannot be stored.\<close>

definition failing_once :: "nat services" where
  "failing_once = (test_services (Ok ()))\<lparr>sv_store_order := (\<lambda>m w. (if w = 1 then Err (Errorf ''db'') else Ok (), w))\<rparr>"

lemma buy_tick:
  assumes "tm_state m = StrategyStateTryingToBuy" and "ProductToMetadata (tm_product m) = Some md"
    and "ValidateIndicatorSets (sint (tm_history_ticks m)) (ts_current t) (ts_sets t) = Ok ()"
    and "Buy (ts_strategy t) (ts_sets t) (ts_current t) = Ok buy"
    and "sv_exchange_order sv (NewMarketOrder (tm_product m) OrderBuy (tm_budget m)) w = (Ok resp, w1)"
    and "sv_store_order sv (market_order_of (order_args m OrderBuy (tm_budget m)) resp (pm_buy_currency md)) w1 = (Ok (), w2)"
    and "sv_update_strategy sv (after_buy m (or_filled_size resp)) w2 = (Ok (), w3)"
  shows "ProcessTick sv t (m, w) = (if buy then (Ok (), (after_buy m (or_filled_size resp), w3)) else (Ok (), (m, w)))"
proof -
  have "PerformOrder sv (order_args m OrderBuy (tm_budget m)) w =
      (Ok \<lparr>pr_filled_size = or_filled_size resp, pr_filled_size_currency = or_filled_currency resp,
        pr_fees = or_fees resp, pr_fees_currency = or_fees_currency resp\<rparr>, w2)"
    using assms(2,5,6) by (simp add: PerformOrder_def order_args_def wrap_act_case bind_act_def deref_def result_act_def)
  then show ?thesis
    using assms(1,3,4,7)
    by (simp add: ProcessTick_def TryBuy_def wrap_act_case bind_on_world after_buy_def Let_def on_world_def) (simp add: result_act_def)
qed

text \<open>A buying tick that goes well: the order for the whole budget goes to the exchange, then it is
  stored with what the exchange answered, then the model with the investment and the new state.
  When the strategy says no, nothing is called and nothing changes.\<close>

theorem buy_tick_sequence:
  assumes "tm_state m = StrategyStateTryingToBuy" and "ProductToMetadata (tm_product m) = Some md"
    and "ValidateIndicatorSets (sint (tm_history_ticks m)) (ts_current t) (ts_sets t) = Ok ()"
    and "Buy (ts_strategy t) (ts_sets t) (ts_current t) = Ok buy"
    and "sv_exchange_order sv (NewMarketOrder (tm_product m) OrderBuy (tm_budget m)) w = (Ok resp, w1)"
    and "sv_store_order sv (market_order_of (order_args m OrderBuy (tm_budget m)) resp (pm_buy_currency md)) w1 = (Ok (), w2)"
    and "sv_update_strategy sv (after_buy m (or_filled_size resp)) w2 = (Ok (), w3)"
  shows "ProcessTick sv t (m, w) = (if buy then (Ok (), (after_buy m (or_filled_size resp), w3)) else (Ok (), (m, w)))"
  by (rule buy_tick[OF assms])

lemma buy_tick_sequence_witness:
  "ProcessTick (test_services (Ok ())) (test_trader 20) (test_model, 0) =
     (if True then (Ok (), (after_buy test_model (Fin 2), 1)) else (Ok (), (test_model, 0)))"
  using buy_tick_sequence[of test_model "metadata ExchangeGDAX CurrencyBTC" "test_trader 20" True "test_services (Ok ())" 0
      "\<lparr>or_exchange_id = ''x'', or_filled_size = Fin 2, or_filled_currency = CurrencyBTC, or_fees = Fin 0, or_fees_currency = CurrencyUSD\<rparr>" 1 1 1]
  by (simp add: test_model_def ProductToMetadata_def test_trader_def test_set_def ValidateIndicatorSets_def
      NewTradingStrategy_def rs_Indicators_def register_indicator_def rs_Buy_def values_at_def slice_get_def deref_def
      test_rsi_def test_services_def)

text \<open>The engine decides to trade: its sets are complete and the strategy says yes to what the
  model's state asks it. \<open>order_of\<close> is then the order for the whole position, \<open>stored_order\<close> the
  row for what the exchange answered.\<close>

definition trades_now :: "trading_strategy_model \<Rightarrow> trading_strategy \<Rightarrow> bool" where
  "trades_now m t \<longleftrightarrow> ValidateIndicatorSets (sint (tm_history_ticks m)) (ts_current t) (ts_sets t) = Ok () \<and>
     (if tm_state m = StrategyStateTryingToBuy then Buy (ts_strategy t) (ts_sets t) (ts_current t)
      else Sell (ts_strategy t) (ts_sets t) (ts_current t)) = Ok True"

definition order_of :: "trading_strategy_model \<Rightarrow> market_order" where
  "order_of m = position_order (tm_product m) (position_of m)"

definition stored_order :: "trading_strategy_model \<Rightarrow> product_metadata \<Rightarrow> order_response \<Rightarrow> market_order_model" where
  "stored_order m md resp = (case position_of m of
     Cash b \<Rightarrow> market_order_of (order_args m OrderBuy b) resp (pm_buy_currency md)
   | Holding i \<Rightarrow> market_order_of (order_args m OrderSell i) resp (pm_sell_currency md))"

text \<open>What a tick that sends the order of the model does, whatever is answered: the model is the one
  before unless the order was both executed and stored.\<close>

definition sends_order :: "'w services \<Rightarrow> trading_strategy \<Rightarrow> trading_strategy_model \<Rightarrow> product_metadata \<Rightarrow> 'w \<Rightarrow> bool" where
  "sends_order sv t m md w = (case sv_exchange_order sv (order_of m) w of
     (Ok resp, w1) \<Rightarrow> (case sv_store_order sv (stored_order m md resp) w1 of
        (Ok _, w2) \<Rightarrow> position_of (fst (snd (ProcessTick sv t (m, w)))) =
          traded_position (position_of m) (or_filled_size resp)
      | (Err e, w2) \<Rightarrow> (\<exists>e'. cause e' = cause e \<and> ProcessTick sv t (m, w) = (Err e', (m, w2)))
      | (_, w2) \<Rightarrow> \<not> is_ok (fst (ProcessTick sv t (m, w))) \<and> snd (ProcessTick sv t (m, w)) = (m, w2))
   | (_, w1) \<Rightarrow> \<not> is_ok (fst (ProcessTick sv t (m, w))) \<and> snd (ProcessTick sv t (m, w)) = (m, w1))"

lemma PerformOrder_steps:
  assumes "ProductToMetadata (pa_product args) = Some md" and "pa_side args = OrderBuy \<or> pa_side args = OrderSell"
  shows "PerformOrder sv args w =
    (case sv_exchange_order sv (NewMarketOrder (pa_product args) (pa_side args) (pa_cost args)) w of
       (Ok resp, w1) \<Rightarrow> (case sv_store_order sv (market_order_of args resp
            (if pa_side args = OrderBuy then pm_buy_currency md else pm_sell_currency md)) w1 of
          (Ok _, w2) \<Rightarrow> (Ok \<lparr>pr_filled_size = or_filled_size resp, pr_filled_size_currency = or_filled_currency resp,
             pr_fees = or_fees resp, pr_fees_currency = or_fees_currency resp\<rparr>, w2)
        | (Err e, w2) \<Rightarrow> (Err (Wrapf e ''error creating market order in database''), w2)
        | (Panic p, w2) \<Rightarrow> (Panic p, w2)
        | (Diverge, w2) \<Rightarrow> (Diverge, w2))
     | (Err e, w1) \<Rightarrow> (Err (Wrapf e ''error creating market order with exchange''), w1)
     | (Panic p, w1) \<Rightarrow> (Panic p, w1)
     | (Diverge, w1) \<Rightarrow> (Diverge, w1))"
proof -
  obtain r w1 where E: "sv_exchange_order sv (NewMarketOrder (pa_product args) (pa_side args) (pa_cost args)) w = (r, w1)"
    by fastforce
  have side: "\<not> (pa_side args \<noteq> OrderBuy \<and> pa_side args \<noteq> OrderSell)"
    using assms(2) by blast
  show ?thesis
  proof (cases r)
    case (Ok resp)
    obtain r2 w2 where S: "sv_store_order sv (market_order_of args resp
        (if pa_side args = OrderBuy then pm_buy_currency md else pm_sell_currency md)) w1 = (r2, w2)"
      by fastforce
    show ?thesis
      unfolding PerformOrder_def if_not_P[OF side]
      by (cases r2) (simp_all add: E Ok S assms(1) wrap_act_case bind_act_def deref_def result_act_def Let_def)
  qed (simp_all only: PerformOrder_def if_not_P[OF side] bind_act_def wrap_act_def E prod.case wrap_err.simps go_result.case)
qed

text \<open>A buying tick after its order, then a selling one.\<close>

lemma TryBuy_order:
  assumes "tm_state m = StrategyStateTryingToBuy" and "trades_now m t"
    and "PerformOrder sv (order_args m OrderBuy (tm_budget m)) w = (r, w1)"
  shows "case r of
     Ok p \<Rightarrow> fst (snd (TryBuy sv t (m, w))) = after_buy m (pr_filled_size p)
   | Err e \<Rightarrow> TryBuy sv t (m, w) = (Err (Wrapf e ''error performing buy order''), (m, w1))
   | Panic q \<Rightarrow> TryBuy sv t (m, w) = (Panic q, (m, w1))
   | Diverge \<Rightarrow> TryBuy sv t (m, w) = (Diverge, (m, w1))"
  using assms by (cases r) (simp_all add: TryBuy_def trades_now_def wrap_act_case bind_on_world after_buy_def Let_def
      on_world_def split: prod.splits)

lemma TrySell_order:
  assumes "tm_state m = StrategyStateTryingToSell" and "trades_now m t"
    and "PerformOrder sv (order_args m OrderSell (tm_invested m)) w = (r, w1)"
  shows "case r of
     Ok p \<Rightarrow> (\<exists>d. fst (snd (TrySell sv t (m, w))) = (after_sell m (pr_filled_size p))\<lparr>tm_deactivated_at := d\<rparr>)
   | Err e \<Rightarrow> TrySell sv t (m, w) = (Err (Wrapf e ''error performing sell order''), (m, w1))
   | Panic q \<Rightarrow> TrySell sv t (m, w) = (Panic q, (m, w1))
   | Diverge \<Rightarrow> TrySell sv t (m, w) = (Diverge, (m, w1))"
proof (cases r)
  case (Ok p)
  define m1 where "m1 = after_sell m (pr_filled_size p)"
  have "fst (snd (TrySell sv t (m, w))) = m1 \<or> (\<exists>d. fst (snd (TrySell sv t (m, w))) = m1\<lparr>tm_deactivated_at := d\<rparr>)"
    using assms Ok by (auto simp: TrySell_def trades_now_def bind_on_world wrap_act_case Let_def on_world_def m1_def
          after_sell_def result_act_def split: prod.splits go_result.splits if_splits)
  moreover have "m1 = m1\<lparr>tm_deactivated_at := tm_deactivated_at m1\<rparr>"
    by simp
  ultimately have "\<exists>d. fst (snd (TrySell sv t (m, w))) = m1\<lparr>tm_deactivated_at := d\<rparr>"
    by metis
  then show ?thesis
    by (simp add: Ok m1_def)
qed (use assms in \<open>simp_all add: TrySell_def trades_now_def wrap_act_case bind_on_world\<close>)

lemma trading_tick_sends_order:
  assumes "model_ok m" and "ProductToMetadata (tm_product m) = Some md" and "trades_now m t"
  shows "sends_order sv t m md w"
proof (cases "tm_state m = StrategyStateTryingToBuy")
  case True
  obtain r w1 where P: "PerformOrder sv (order_args m OrderBuy (tm_budget m)) w = (r, w1)"
    by fastforce
  from TryBuy_order[OF True assms(3) P] PerformOrder_steps[of "order_args m OrderBuy (tm_budget m)" md sv w] True assms(2) P
  show ?thesis
    by (auto simp: sends_order_def order_of_def stored_order_def position_of_def order_args_def ProcessTick_def
        wrap_act_case after_buy_def split: prod.splits go_result.splits)
next
  case False
  then have S: "tm_state m = StrategyStateTryingToSell"
    using assms(1) by (auto simp: model_ok_def)
  obtain r w1 where P: "PerformOrder sv (order_args m OrderSell (tm_invested m)) w = (r, w1)"
    by fastforce
  from TrySell_order[OF S assms(3) P] PerformOrder_steps[of "order_args m OrderSell (tm_invested m)" md sv w] S assms(2) P
  show ?thesis
    by (auto simp: sends_order_def order_of_def stored_order_def position_of_def order_args_def ProcessTick_def
        wrap_act_case after_sell_def split: prod.splits go_result.splits)
qed

text \<open>C6. An order that is executed but cannot be stored is forgotten, on both sides of the market:
  the tick fails and the model is unchanged, the position in it too. So the next tick at which the
  strategy says yes, whatever candlesticks the engine has taken in between, sends the exchange the
  same order, for the whole position, again; and so on until an order is both executed and stored,
  when the position becomes what that last order filled.\<close>

theorem unstored_order_is_repeated:
  assumes "model_ok m" and "ProductToMetadata (tm_product m) = Some md" and "trades_now m t"
    and "sv_exchange_order sv (order_of m) w = (Ok resp, w1)"
    and "sv_store_order sv (stored_order m md resp) w1 = (Err e, w2)"
  shows "(\<exists>e'. cause e' = cause e \<and> ProcessTick sv t (m, w) = (Err e', (m, w2))) \<and>
    (\<forall>t' w3. trades_now m t' \<longrightarrow> sends_order sv t' m md w3)"
proof -
  have sent: "sends_order sv t' m md w3" if "trades_now m t'" for t' w3
    by (rule trading_tick_sends_order[OF assms(1,2) that])
  from sent[OF assms(3), of w] have "\<exists>e'. cause e' = cause e \<and> ProcessTick sv t (m, w) = (Err e', (m, w2))"
    by (simp add: sends_order_def assms(4,5))
  then show ?thesis
    using sent by blast
qed

lemma test_traders_trade: "trades_now test_model (test_trader 20)" "trades_now test_model (test_trader 10)"
  by (simp_all add: trades_now_def test_model_def test_trader_def test_set_def ValidateIndicatorSets_def NewTradingStrategy_def
      rs_Indicators_def register_indicator_def rs_Buy_def values_at_def slice_get_def deref_def test_rsi_def)

lemma unstored_order_is_repeated_witness:
  "(\<exists>e'. cause e' = cause (Errorf ''db'') \<and> ProcessTick failing_once (test_trader 20) (test_model, 0) = (Err e', (test_model, 1))) \<and>
   sends_order failing_once (test_trader 10) test_model (metadata ExchangeGDAX CurrencyBTC) 1"
proof -
  have "(\<exists>e'. cause e' = cause (Errorf ''db'') \<and> ProcessTick failing_once (test_trader 20) (test_model, 0) = (Err e', (test_model, 1))) \<and>
   (\<forall>t' w3. trades_now test_model t' \<longrightarrow> sends_order failing_once t' test_model (metadata ExchangeGDAX CurrencyBTC) w3)"
    by (rule unstored_order_is_repeated[OF _ _ test_traders_trade(1), of _ failing_once 0
        "\<lparr>or_exchange_id = ''x'', or_filled_size = Fin 2, or_filled_currency = CurrencyBTC, or_fees = Fin 0, or_fees_currency = CurrencyUSD\<rparr>" 1])
      (simp_all add: model_ok_def test_model_def ProductToMetadata_def order_of_def stored_order_def position_of_def failing_once_def
        test_services_def)
  then show ?thesis
    using test_traders_trade(2) by blast
qed

text \<open>The two ticks of that world: the first order is sent and lost, the second is the same and is
  stored.\<close>

lemma order_sent_twice:
  "ProcessTick failing_once (test_trader 20) (test_model, 1) = (Ok (), (after_buy test_model (Fin 2), 2))"
  by (rule buy_tick[of test_model "metadata ExchangeGDAX CurrencyBTC" "test_trader 20" True _ 1
      "\<lparr>or_exchange_id = ''x'', or_filled_size = Fin 2, or_filled_currency = CurrencyBTC, or_fees = Fin 0, or_fees_currency = CurrencyUSD\<rparr>" 2 2 2, simplified])
    (simp_all add: test_model_def ProductToMetadata_def test_trader_def test_set_def ValidateIndicatorSets_def
      NewTradingStrategy_def rs_Indicators_def register_indicator_def rs_Buy_def values_at_def slice_get_def deref_def
      test_rsi_def test_services_def failing_once_def)

text \<open>Seeding: a new engine whose indicators have distinct names, fed any candlesticks, has one set
  per candlestick, in order; the set of a candlestick holds, for each indicator of the strategy, the
  value that indicator has after the candlesticks up to it, or nil when it has none yet; no
  feeding fails, and the index stands at the last set.\<close>

theorem seeding_runs_indicators:
  assumes "distinct (map IndicatorName (Indicators s))" and "length cs < 2 ^ 62"
  shows "fst (SeedIndicators (seed_all (NewTradingStrategy s) cs) c) = Ok () \<and>
    ts_sets (seed_all (NewTradingStrategy s) cs) = map (\<lambda>k. Some \<lparr>is_time = cs_start (last (take (Suc k) cs)),
       is_values = map (\<lambda>i. value_option (run_indicator i (take (Suc k) cs))) (Indicators s)\<rparr>) [0..<length cs] \<and>
    ts_current (seed_all (NewTradingStrategy s) cs) = int (length cs) - 1"
  using seeded_all[of s cs] seeded_step(1)[of s cs "seed_all (NewTradingStrategy s) cs" c] assms
  by (simp add: seeded_def names_of_def set_after_def)

lemma seeding_runs_indicators_witness:
  "fst (SeedIndicators (seed_all (NewTradingStrategy (SRSI test_rsi)) [zero_candlestick, zero_candlestick]) zero_candlestick) = Ok () \<and>
    ts_sets (seed_all (NewTradingStrategy (SRSI test_rsi)) [zero_candlestick, zero_candlestick]) =
      map (\<lambda>k. Some \<lparr>is_time = cs_start (last (take (Suc k) [zero_candlestick, zero_candlestick])),
       is_values = map (\<lambda>i. value_option (run_indicator i (take (Suc k) [zero_candlestick, zero_candlestick]))) (Indicators (SRSI test_rsi))\<rparr>)
        [0..<length [zero_candlestick, zero_candlestick]] \<and>
    ts_current (seed_all (NewTradingStrategy (SRSI test_rsi)) [zero_candlestick, zero_candlestick]) = int (length [zero_candlestick, zero_candlestick]) - 1"
  by (rule seeding_runs_indicators) (simp_all add: rs_Indicators_def)

text \<open>A crossover with equal periods, which a mutation makes of any whose periods would be out of
  order, has two averages of one name. The engine keeps one of them and feeds it every candlestick
  twice.\<close>

theorem equal_periods_fed_twice:
  assumes "eco_ShortPeriod e = p" and "eco_LongPeriod e = p"
  shows "ts_indicators (snd (SeedIndicators (NewTradingStrategy (SEMACrossover e)) c)) (ema_name (NewEMAIndicator p)) =
    Some (IEMA (fst (ema_add (fst (ema_add (NewEMAIndicator p) c)) c)))"
proof -
  define n d where "n = ema_name (NewEMAIndicator p)" and "d = dema_name (NewDEMAIndicator p p)"
  have nd: "d \<noteq> n"
    by (simp add: n_def d_def dema_name_def ema_name_def)
  define t where "t = NewTradingStrategy (SEMACrossover e)"
  have names: "ts_names t = [d, n, n]"
    and inds: "ts_indicators t d = Some (IDEMA (NewDEMAIndicator p p))" "ts_indicators t n = Some (IEMA (NewEMAIndicator p))"
    using nd by (simp_all add: t_def NewTradingStrategy_def eco_Indicators_def assms register_indicator_def n_def d_def)
  define m where "m = (ts_indicators t)(d \<mapsto> step_indicator c (IDEMA (NewDEMAIndicator p p)))"
  have "seed_loop (ts_names t) c [] t =
      seed_loop [n, n] c [value_option (step_indicator c (IDEMA (NewDEMAIndicator p p)))] (t\<lparr>ts_last_candle := cs_end c, ts_indicators := m\<rparr>)"
    unfolding names m_def by (subst seed_loop_Cons[of _ d, OF inds(1)]) simp
  then have "ts_indicators (snd (seed_loop (ts_names t) c [] t)) n = Some (step_indicator c (step_indicator c (IEMA (NewEMAIndicator p))))
      \<and> is_ok (fst (seed_loop (ts_names t) c [] t))"
    using nd inds by (simp add: seed_loop_Cons[of _ n "IEMA (NewEMAIndicator p)"] seed_loop_Cons[of _ n "step_indicator c (IEMA (NewEMAIndicator p))"] m_def del: seed_loop.simps(2))
  then show ?thesis
    by (auto simp: SeedIndicators_def step_indicator_def nextTick_def Let_def simp flip: t_def n_def
        split: prod.splits go_result.splits)
qed

lemma equal_periods_fed_twice_witness:
  "ts_indicators (snd (SeedIndicators (NewTradingStrategy (SEMACrossover \<lparr>eco_ShortPeriod = 2, eco_LongPeriod = 2,
      eco_UpThreshold = Fin 1, eco_DownThreshold = Fin (- 1), eco_attached = True\<rparr>)) zero_candlestick)) (ema_name (NewEMAIndicator 2)) =
    Some (IEMA (fst (ema_add (fst (ema_add (NewEMAIndicator 2) zero_candlestick)) zero_candlestick)))"
  by (rule equal_periods_fed_twice) simp_all

text \<open>The check before a decision passes exactly when there is a set, the index is at most one
  beyond the last (one too far: the strategies check again), and the last set, the current one
  or not, has values and none of them is nil.\<close>

lemma validate_sets_iff:
  "ValidateIndicatorSets h current sets =
    (if sets \<noteq> [] \<and> current \<le> int (length sets) \<and>
        (\<exists>s. last sets = Some s \<and> is_values s \<noteq> [] \<and> None \<notin> set (is_values s))
     then Ok () else Err ErrNotEnoughData)"
  by (auto simp: ValidateIndicatorSets_def list_ex_iff Option.is_none_def split: option.splits)

definition yaml_roundtrips :: "yaml_ops \<Rightarrow> strategy \<Rightarrow> bool" where
  "yaml_roundtrips y s \<longleftrightarrow> (\<exists>b. ym_marshal y (SetTradingStrategy s) = Ok b \<and>
     (case s of SEMACrossover e \<Rightarrow> ym_unmarshal_eco y b = Ok (e\<lparr>eco_attached := False\<rparr>)
      | SRSI e \<Rightarrow> ym_unmarshal_rsi y b = Ok (e\<lparr>rs_attached := False\<rparr>)
      | SS1 e \<Rightarrow> ym_unmarshal_s1 y b = Ok (e\<lparr>s1_attached := False\<rparr>)))"

lemma strategy_stored:
  assumes "yaml_roundtrips y s" and "SetStrategy y t s = (r, t', s')"
  shows "r = Ok ()" and "s' = SetTradingStrategy s" and "Strategy y t' = Ok (SetTradingStrategy s)"
    and "Strategy y (Copy t') = Ok (SetTradingStrategy s)"
    and "t' = t\<lparr>tm_trading_strategy := tm_trading_strategy t', tm_data := tm_data t'\<rparr>"
  using assms by (cases s, auto simp: yaml_roundtrips_def SetStrategy_def Strategy_def Copy_def)+

text \<open>Storing a strategy in a model and reading it back, from the model or a copy of it, gives the
  strategy attached to the model, when YAML reads back the exported fields it wrote.\<close>

theorem strategy_roundtrip:
  assumes "yaml_roundtrips y s" and "SetStrategy y t s = (r, t', s')"
  shows "r = Ok () \<and> s' = SetTradingStrategy s \<and> Strategy y t' = Ok (SetTradingStrategy s) \<and>
    Strategy y (Copy t') = Ok (SetTradingStrategy s)"
  using strategy_stored[OF assms] by simp

definition one_strategy_yaml :: "rsi_strategy \<Rightarrow> yaml_ops" where
  "one_strategy_yaml r = \<lparr>ym_marshal = (\<lambda>s. Ok ''period: 14''), ym_unmarshal_eco = (\<lambda>b. Err (Errorf ''yaml'')),
     ym_unmarshal_rsi = (\<lambda>b. if b = ''period: 14'' then Ok (r\<lparr>rs_attached := False\<rparr>) else Err (Errorf ''yaml'')),
     ym_unmarshal_s1 = (\<lambda>b. Err (Errorf ''yaml''))\<rparr>"

lemma strategy_roundtrip_witness:
  "fst (SetStrategy (one_strategy_yaml test_rsi) test_model (SRSI test_rsi)) = Ok () \<and>
   snd (snd (SetStrategy (one_strategy_yaml test_rsi) test_model (SRSI test_rsi))) = SetTradingStrategy (SRSI test_rsi) \<and>
   Strategy (one_strategy_yaml test_rsi) (fst (snd (SetStrategy (one_strategy_yaml test_rsi) test_model (SRSI test_rsi)))) = Ok (SetTradingStrategy (SRSI test_rsi)) \<and>
   Strategy (one_strategy_yaml test_rsi) (Copy (fst (snd (SetStrategy (one_strategy_yaml test_rsi) test_model (SRSI test_rsi))))) = Ok (SetTradingStrategy (SRSI test_rsi))"
  by (rule strategy_roundtrip) (simp_all add: yaml_roundtrips_def one_strategy_yaml_def)

text \<open>Cutting an amount to eight places leaves whole amounts up to ninety million as they are.\<close>

theorem truncate_keeps_whole_amounts:
  assumes "\<bar>n\<bar> \<le> 9 * 10 ^ 7"
  shows "TruncateFloat (Fin (of_int n)) 8 = Fin (of_int n)"
proof -
  have n: "\<bar>n * 10 ^ 8\<bar> < 2 ^ 53" "\<bar>n\<bar> < 2 ^ 53"
    using assms by simp_all
  have x: "flit (10 ^ unat (8 :: u64)) = Fin (10 ^ 8)"
    by simp
  have "fmul (Fin (of_int n)) (Fin (10 ^ 8)) = Fin (of_int (n * 10 ^ 8)) \<or> n = 0 \<and> fmul (Fin (of_int n)) (Fin (10 ^ 8)) = fzero False"
    using f64_ok_int[OF n(1)] by (cases "n = 0") (auto simp: fmul_def round64_fixed round64_0)
  then have "int64_of_float (fmul (Fin (of_int n)) (Fin (10 ^ 8))) = n * 10 ^ 8"
    using n(1) trunc_rat_int[of "n * 10 ^ 8"] trunc_rat_int[of 0] by (auto simp: in_int64I fzero_def simp del: trunc_rat_int)
  moreover have "fdiv (Fin (of_int (n * 10 ^ 8))) (Fin (10 ^ 8)) = Fin (of_int n)"
    using f64_ok_int[OF n(2)] by (cases "n = 0") (auto simp: fdiv_def round64_fixed round64_0 fzero_def)
  ultimately show ?thesis
    using float_of_int_exact[OF n(1)] unfolding TruncateFloat_def Let_def x by simp
qed

lemma truncate_keeps_whole_amounts_witness: "TruncateFloat (Fin (of_int 1234567)) 8 = Fin (of_int 1234567)"
  by (rule truncate_keeps_whole_amounts) simp

text \<open>Cutting an amount that has eight places already can lose a unit of the last one: three
  hundred-millionths become two, as the product with the power of ten is rounded below three.\<close>

theorem truncate_loses_a_unit:
  "TruncateFloat (flit (3 / 10 ^ 8)) 8 = flit (2 / 10 ^ 8)"
  by code_simp

end
