(* ===== verification/Backtesting.thy ===== *)
theory Backtesting
  imports Trading
begin

text \<open>
  \<open>backtesting.go\<close>: the mock exchange and database, the run over historical candlesticks,
  and the figures drawn from it. The world of a backtest is the result calculator together
  with the exchange; the candlesticks come from a backend that is a parameter, as are the
  random source and the identifiers of \<open>uuid\<close>. Weekdays are those of UTC.
\<close>

definition exchangeFee :: f64 where
  "exchangeFee = flit (25 / 10000)"

definition exchangeSlippage :: f64 where
  "exchangeSlippage = Fin 0"

section \<open>The world of a backtest\<close>

record backtest_result =
  br_time :: time
  br_candle :: "candlestick option"
  br_indicator_set :: "indicator_set option"
  br_market_order :: "market_order_model option"
  br_budget :: f64
  br_invested :: f64

definition empty_result :: backtest_result where
  "empty_result = \<lparr>br_time = zero_time, br_candle = None, br_indicator_set = None,
     br_market_order = None, br_budget = Fin 0, br_invested = Fin 0\<rparr>"

record 'g backtest_world =
  bw_current :: backtest_result
  bw_results :: "backtest_result list"
  bw_candles :: "candlestick list"
  bw_slippage :: f64
  bw_index :: int
  bw_source :: 'g

record 'g backtest_env =
  be_float :: "'g \<Rightarrow> f64 \<times> 'g"
  be_uuid :: "'g \<Rightarrow> string \<times> 'g"
  be_find :: "time \<Rightarrow> time \<Rightarrow> product \<Rightarrow> int \<Rightarrow> candlestick list go_result"
  be_now :: time

definition NewBacktesterExchange :: "candlestick list \<Rightarrow> f64 \<Rightarrow> 'g backtest_world \<Rightarrow> 'g backtest_world" where
  "NewBacktesterExchange candles slippage w = w\<lparr>bw_candles := candles, bw_slippage := slippage, bw_index := - 1\<rparr>"

definition NextTick :: "'g backtest_world \<Rightarrow> 'g backtest_world" where
  "NextTick w = w\<lparr>bw_index := wrap64 (bw_index w + 1)\<rparr>"

definition CalculatePriceWithSlippage :: "'g backtest_env \<Rightarrow> 'g \<Rightarrow> f64 \<Rightarrow> f64 \<Rightarrow> f64 \<times> 'g" where
  "CalculatePriceWithSlippage env source p orderSlippage =
    (let (r, source1) = be_float env source;
         slippage = fmul r orderSlippage
     in (fmul p (fsub (Fin 1) slippage), source1))"

definition mock_response :: "string \<Rightarrow> market_order \<Rightarrow> f64 \<Rightarrow> order_response" where
  "mock_response uuid m p =
    (if mo_side m = OrderBuy then
       \<lparr>or_exchange_id = uuid,
        or_filled_size = fdiv (fmul (mo_cost m) (fsub (Fin 1) exchangeFee)) p,
        or_filled_currency = CurrencyBTC,
        or_fees = fmul (mo_cost m) exchangeFee,
        or_fees_currency = CurrencyUSD\<rparr>
     else
       let filled = fmul (mo_cost m) p
       in \<lparr>or_exchange_id = uuid,
           or_filled_size = fmul filled (fsub (Fin 1) exchangeFee),
           or_filled_currency = CurrencyUSD,
           or_fees = fmul filled exchangeFee,
           or_fees_currency = CurrencyUSD\<rparr>)"

definition backtest_order :: "'g backtest_env \<Rightarrow> market_order \<Rightarrow> (order_response, 'g backtest_world) act" where
  "backtest_order env m w =
    (case slice_get (bw_candles w) (bw_index w) of
       Ok c \<Rightarrow>
         let (p, source1) = CalculatePriceWithSlippage env (bw_source w) (cs_close c) (bw_slippage w);
             (uuid, source2) = be_uuid env source1
         in (Ok (mock_response uuid m p), w\<lparr>bw_source := source2\<rparr>)
     | Err e \<Rightarrow> (Err e, w)
     | Panic p \<Rightarrow> (Panic p, w)
     | Diverge \<Rightarrow> (Diverge, w))"

definition backtest_services :: "'g backtest_env \<Rightarrow> 'g backtest_world services" where
  "backtest_services env =
     \<lparr>sv_exchange_order = backtest_order env,
      sv_store_order = (\<lambda>m w. (Ok (), w\<lparr>bw_current := (bw_current w)\<lparr>br_market_order := Some m\<rparr>\<rparr>)),
      sv_update_strategy = (\<lambda>m w. (Ok (), w\<lparr>bw_current := (bw_current w)\<lparr>br_budget := tm_budget m,
         br_invested := tm_invested m\<rparr>\<rparr>)),
      sv_find_candles = (\<lambda>s e p k w. (be_find env s e p k, w)),
      sv_active_strategies = (\<lambda>p w. (Panic ''not used in a backtest'', w)),
      sv_recent_candle = (\<lambda>p w. (Panic ''not used in a backtest'', w)),
      sv_now = (\<lambda>w. (be_now env, w))\<rparr>"

definition next_result :: "'g backtest_world \<Rightarrow> 'g backtest_world" where
  "next_result w = w\<lparr>bw_results := bw_results w @ [bw_current w], bw_current := empty_result\<rparr>"

section \<open>Indicator sets ahead of the run\<close>

fun feed_indicators :: "indicator list \<Rightarrow> candlestick \<Rightarrow>
    (indicator list \<times> indicator_value option list \<times> bool) go_result" where
  "feed_indicators [] c = Ok ([], [], False)"
| "feed_indicators (i # is) c =
    (case AddCandlestick i c of (i1, r) \<Rightarrow>
     bind_result (wrap_err ''error adding candlestick to indicator'' r) (\<lambda>_.
       case IndicatorValueOf i1 of
         Ok v \<Rightarrow> bind_result (feed_indicators is c) (\<lambda>(js, vs, skip). Ok (i1 # js, Some v # vs, skip))
       | Err e \<Rightarrow>
           if cause e = ErrNotEnoughData
           then bind_result (feed_indicators is c) (\<lambda>(js, vs, _). Ok (i1 # js, None # vs, True))
           else Err (Wrapf e ''error calculating value for indicator'')
       | Panic p \<Rightarrow> Panic p
       | Diverge \<Rightarrow> Diverge))"

fun generateIndicatorSets :: "indicator list \<Rightarrow> candlestick list \<Rightarrow> (indicator_set list \<times> candlestick list) go_result" where
  "generateIndicatorSets inds [] = Ok ([], [])"
| "generateIndicatorSets inds (c # cs) =
    (if feq (cs_volume c) (Fin 0) then generateIndicatorSets inds cs
     else
       bind_result (feed_indicators inds c) (\<lambda>(inds1, vs, skipSet).
       bind_result (generateIndicatorSets inds1 cs) (\<lambda>(sets, valid).
         if skipSet then Ok (sets, valid)
         else Ok (\<lparr>is_time = cs_start c, is_values = vs\<rparr> # sets, c # valid))))"

section \<open>The run\<close>

record backtester =
  bt_start :: time
  bt_end :: time
  bt_model :: trading_strategy_model
  bt_strategy :: strategy

definition NewBacktester :: "yaml_ops \<Rightarrow> time \<Rightarrow> time \<Rightarrow> trading_strategy_model \<Rightarrow> backtester go_result" where
  "NewBacktester y start end model =
     bind_result (wrap_err ''error getting model strategy'' (Strategy y model)) (\<lambda>s.
       Ok \<lparr>bt_start = start, bt_end = end, bt_model = model, bt_strategy = s\<rparr>)"

definition begin_result :: "indicator_set \<Rightarrow> candlestick \<Rightarrow> trading_strategy_model \<Rightarrow> 'g backtest_world \<Rightarrow> 'g backtest_world" where
  "begin_result is c m w = w\<lparr>bw_current := (bw_current w)\<lparr>br_indicator_set := Some is, br_candle := Some c,
     br_time := cs_start c, br_budget := tm_budget m, br_invested := tm_invested m\<rparr>\<rparr>"

fun backtest_loop :: "'g backtest_env \<Rightarrow> time \<Rightarrow> (indicator_set \<times> candlestick) list \<Rightarrow> trading_strategy \<Rightarrow>
    (unit, trading_strategy_model \<times> 'g backtest_world) act" where
  "backtest_loop env startBucket [] trader s = (Ok (), s)"
| "backtest_loop env startBucket ((is, c) # xs) trader (m, w) =
    (let w1 = NextTick (begin_result is c m w);
         trader1 = nextTick trader
     in if startBucket < cs_end c then
          (case ProcessTick (backtest_services env) trader1 (m, w1) of
             (Ok _, (m2, w2)) \<Rightarrow> backtest_loop env startBucket xs trader1 (m2, next_result w2)
           | (Err e, (m2, w2)) \<Rightarrow>
               if cause e = ErrNotEnoughData then backtest_loop env startBucket xs trader1 (m2, w2)
               else (Err (Wrapf e ''error processing tick''), (m2, w2))
           | (Panic p, s2) \<Rightarrow> (Panic p, s2)
           | (Diverge, s2) \<Rightarrow> (Diverge, s2))
        else backtest_loop env startBucket xs trader1 (m, next_result w1))"

definition actualStartTime :: "backtester \<Rightarrow> trading_strategy_model \<Rightarrow> time" where
  "actualStartTime b m = time_add (bt_start b)
     (duration_mul (duration_mul (wrap64 (- sint (tm_tick_size_minutes m))) (sint (tm_history_ticks m))) minute)"

definition Backtest :: "'g backtest_env \<Rightarrow> backtester \<Rightarrow> (unit, trading_strategy_model \<times> 'g backtest_world) act" where
  "Backtest env b s =
    (let m = fst s; tick = tm_tick_size_minutes m
     in bind_act (result_act (wrap_err ''error finding candlesticks''
          (be_find env (actualStartTime b m) (bt_end b) (tm_product m) (sint tick)))) (\<lambda>candles.
        bind_act (result_act (wrap_err ''error generating indicator sets''
          (generateIndicatorSets (Indicators (bt_strategy b)) candles))) (\<lambda>(sets, valid).
        bind_act (result_act (CandlestickBucket (bt_start b) (sint tick))) (\<lambda>startBucket (m1, w).
          backtest_loop env startBucket (zip sets valid)
            (setIndicatorSets (NewTradingStrategy (bt_strategy b)) (map Some sets))
            (m1, NewBacktesterExchange valid exchangeSlippage w)))) s)"

section \<open>Figures\<close>

record backtest_results =
  rt_budget_currency :: string
  rt_initial_budget :: f64
  rt_final_budget :: f64
  rt_trade_currency :: string
  rt_initial_price :: f64
  rt_final_price :: f64
  rt_gross_profit :: f64
  rt_gross_loss :: f64
  rt_profit_trades :: u64
  rt_loss_trades :: u64
  rt_value_per_day :: "f64 list"

definition NetProfit :: "backtest_results \<Rightarrow> f64" where
  "NetProfit b = fsub (rt_gross_profit b) (rt_gross_loss b)"

definition ProfitFactor :: "backtest_results \<Rightarrow> f64" where
  "ProfitFactor b = fdiv (rt_gross_profit b) (rt_gross_loss b)"

definition float_of_u64 :: "u64 \<Rightarrow> f64" where
  "float_of_u64 n = float_of_int (uint n)"

definition ExpectedPayoff :: "backtest_results \<Rightarrow> f64" where
  "ExpectedPayoff b =
    (let totalTrades = float_of_u64 (rt_profit_trades b + rt_loss_trades b)
     in fsub
       (fmul (fdiv (float_of_u64 (rt_profit_trades b)) totalTrades)
             (fdiv (rt_gross_profit b) (float_of_u64 (rt_profit_trades b))))
       (fmul (fdiv (float_of_u64 (rt_loss_trades b)) totalTrades)
             (fdiv (rt_gross_loss b) (float_of_u64 (rt_loss_trades b)))))"

text \<open>\<open>math.Sqrt\<close>, which \<open>math.Pow(x, .5)\<close> is: correctly rounded, from the integer square root of
  a scaling that leaves more than 54 bits and a sticky bit.\<close>

fun isqrt :: "int \<Rightarrow> int" where
  "isqrt n = (if n \<le> 0 then 0 else
     let r = 2 * isqrt (n div 4) in if (r + 1) * (r + 1) \<le> n then r + 1 else r)"

declare isqrt.simps [simp del]

definition rat_sqrt64 :: "rat \<Rightarrow> rat" where
  "rat_sqrt64 q =
    (let k = 56 - binexp q div 2;
         n = \<lfloor>q * 4 powi k\<rfloor>;
         r = isqrt n
     in rnd64 ((if of_int (r * r) = q * 4 powi k then of_int r else of_int r + 1 / 2) / 2 powi k))"

fun fsqrt :: "f64 \<Rightarrow> f64" where
  "fsqrt (Fin q) = (if q = 0 then Fin 0 else if q < 0 then NaN else Fin (rat_sqrt64 q))"
| "fsqrt NZero = NZero"
| "fsqrt PInf = PInf"
| "fsqrt _ = NaN"

text \<open>\<open>stats.StandardDeviation\<close> of the vendored \<open>montanaflynn/stats\<close>: the population form.\<close>

definition stats_variance :: "f64 list \<Rightarrow> f64 go_result" where
  "stats_variance xs =
     bind_result (stats_mean xs) (\<lambda>m.
       Ok (fdiv (foldl (\<lambda>v n. fadd v (fmul (fsub n m) (fsub n m))) (Fin 0) xs)
                (float_of_int (int (length xs)))))"

definition stats_standard_deviation :: "f64 list \<Rightarrow> f64 go_result" where
  "stats_standard_deviation xs =
    (if xs = [] then Err (Errorf ''Input must not be empty'')
     else bind_result (stats_variance xs) (\<lambda>v. Ok (fsqrt v)))"

definition daily_increases :: "f64 list \<Rightarrow> f64 list" where
  "daily_increases vs = Fin 0 # map2 (\<lambda>a b. fsub b a) vs (tl vs)"

definition SharpeRatio :: "backtest_results \<Rightarrow> f64 go_result" where
  "SharpeRatio b =
    (let increases = daily_increases (rt_value_per_day b)
     in case stats_mean increases of
          Ok mean \<Rightarrow>
            (case stats_standard_deviation increases of
               Ok stddev \<Rightarrow> Ok (fdiv (fmul (fsqrt (Fin 365)) mean) stddev)
             | _ \<Rightarrow> Panic ''stats'')
        | _ \<Rightarrow> Panic ''stats'')"

definition day :: duration where
  "day = 24 * 60 * minute"

text \<open>Day 0 of the Unix epoch was a Thursday.\<close>

definition weekday :: "time \<Rightarrow> int" where
  "weekday t = (t div day + 4) mod 7"

text \<open>The running state of the loop of \<open>Results\<close>: the results, the current day and the current
  budget.\<close>

definition record_value :: "time \<Rightarrow> time \<Rightarrow> backtest_result \<Rightarrow> candlestick \<Rightarrow> backtest_results \<Rightarrow> backtest_results" where
  "record_value start currentDay result c rs =
    (let portfolioValue =
           (if \<not> feq (br_budget result) (Fin 0) then br_budget result
            else fmul (fmul (br_invested result) (cs_close c)) (fsub (fsub (Fin 1) exchangeFee) exchangeSlippage))
     in if start < currentDay \<and> currentDay < cs_start c \<and> weekday (cs_start c) \<noteq> weekday currentDay
        then rs\<lparr>rt_value_per_day := rt_value_per_day rs @ [portfolioValue]\<rparr> else rs)"

definition record_sell :: "f64 \<Rightarrow> f64 \<Rightarrow> backtest_results \<Rightarrow> backtest_results" where
  "record_sell filled currentBudget rs =
    (let diff = fsub filled currentBudget
     in if fle (Fin 0) diff
        then rs\<lparr>rt_gross_profit := fadd (rt_gross_profit rs) diff, rt_profit_trades := rt_profit_trades rs + 1\<rparr>
        else rs\<lparr>rt_gross_loss := fadd (rt_gross_loss rs) (fneg diff), rt_loss_trades := rt_loss_trades rs + 1\<rparr>)"

fun results_loop :: "time \<Rightarrow> backtest_result list \<Rightarrow> backtest_results \<Rightarrow> time \<Rightarrow> f64 \<Rightarrow> backtest_results go_result" where
  "results_loop start [] rs currentDay currentBudget = Ok rs"
| "results_loop start (result # xs) rs currentDay currentBudget =
    (case br_candle result of
       None \<Rightarrow> Panic ''invalid memory address or nil pointer dereference''
     | Some c \<Rightarrow>
         let rs1 = record_value start currentDay result c rs;
             currentDay1 = cs_start c
         in case br_market_order result of
              None \<Rightarrow> results_loop start xs rs1 currentDay1 currentBudget
            | Some order \<Rightarrow>
                let filled = mm_filled_size order;
                    sell = mm_side order = OrderSell;
                    rs2 = (if sell then record_sell filled currentBudget rs1 else rs1);
                    currentBudget1 = (if sell then TruncateFloat filled tradeCurrencyPrecision else currentBudget);
                    rs3 = (if mm_side order = OrderBuy \<and> feq (rt_initial_price rs2) (Fin 0)
                           then rs2\<lparr>rt_initial_price := cs_close c\<rparr> else rs2);
                    rs4 = (if sell then rs3\<lparr>rt_final_budget := TruncateFloat filled tradeCurrencyPrecision,
                             rt_final_price := cs_close c\<rparr> else rs3)
                in results_loop start xs rs4 currentDay1 currentBudget1)"

definition initial_results :: "trading_strategy_model \<Rightarrow> backtest_results" where
  "initial_results m =
     \<lparr>rt_budget_currency = tm_budget_currency m, rt_initial_budget = tm_initial_budget m,
      rt_final_budget = Fin 0, rt_trade_currency = tm_invested_currency m, rt_initial_price = Fin 0,
      rt_final_price = Fin 0, rt_gross_profit = Fin 0, rt_gross_loss = Fin 0, rt_profit_trades = 0,
      rt_loss_trades = 0, rt_value_per_day = []\<rparr>"

definition Results :: "backtester \<Rightarrow> trading_strategy_model \<Rightarrow> backtest_result list \<Rightarrow> backtest_results go_result" where
  "Results b m results =
    (case results of
       [] \<Rightarrow> Ok (initial_results m)
     | r # _ \<Rightarrow>
         bind_result (deref (br_candle r)) (\<lambda>c.
           results_loop (bt_start b) results (initial_results m) (cs_start c) (tm_initial_budget m)))"

end
