(* ===== verification/Backtesting_Specs.thy ===== *)
theory Backtesting_Specs
  imports Backtesting Trading_Specs
begin

text \<open>
  The backtest: which indicator sets it runs on, that it always runs to the end, and what
  its figures count.
\<close>

section \<open>Indicator sets\<close>

lemma feed_indicators_Ok:
  "feed_indicators inds c = Ok (map (step_indicator c) inds, map (\<lambda>i. value_option (step_indicator c i)) inds,
     None \<in> (\<lambda>i. value_option (step_indicator c i)) ` set inds)"
proof (induction inds)
  case (Cons i inds)
  have a: "AddCandlestick i c = (step_indicator c i, Ok ())"
    unfolding step_indicator_def by (rule ind.add_pair)
  from ind.val_cases[of "step_indicator c i"] show ?case
    using Cons by (auto simp: a value_option_def)
qed simp

text \<open>The sets by position: one for every prefix of the traded candlesticks after which all the
  indicators have a value.\<close>

definition all_ready :: "indicator list \<Rightarrow> candlestick list \<Rightarrow> bool" where
  "all_ready inds ts \<longleftrightarrow> None \<notin> (\<lambda>i. value_option (run_indicator i ts)) ` set inds"

definition sets_of :: "indicator list \<Rightarrow> candlestick list \<Rightarrow> (indicator_set \<times> candlestick) list" where
  "sets_of inds ts =
     map (\<lambda>k. (\<lparr>is_time = cs_start (ts ! k), is_values = map (\<lambda>i. value_option (run_indicator i (take (Suc k) ts))) inds\<rparr>, ts ! k))
       (filter (\<lambda>k. all_ready inds (take (Suc k) ts)) [0..<length ts])"

lemma upt_Suc_split: "[0..<Suc n] = 0 # map Suc [0..<n]"
  by (simp add: map_Suc_upt upt_conv_Cons)

lemma sets_of_Cons:
  "sets_of inds (c # ts) =
    (if all_ready (map (step_indicator c) inds) []
     then [(\<lparr>is_time = cs_start c, is_values = map (\<lambda>i. value_option (step_indicator c i)) inds\<rparr>, c)] else []) @
    sets_of (map (step_indicator c) inds) ts"
proof -
  have r: "all_ready inds (c # xs) = all_ready (map (step_indicator c) inds) xs" for xs
    by (simp add: all_ready_def image_image)
  have u: "[0..<length (c # ts)] = 0 # map Suc [0..<length ts]"
    by (simp only: list.size(4) add.right_neutral add_Suc_right One_nat_def upt_Suc_split)
  show ?thesis
    unfolding sets_of_def u
    by (simp add: filter_map comp_def r del: upt_Suc)
qed

lemma generate_Ok:
  "generateIndicatorSets inds cs = Ok (map fst (sets_of inds (filter traded cs)), map snd (sets_of inds (filter traded cs)))"
proof (induction cs arbitrary: inds)
  case Nil
  show ?case by (simp add: sets_of_def)
next
  case (Cons c cs)
  show ?case
  proof (cases "traded c")
    case True
    have s: "all_ready (map (step_indicator c) inds) [] \<longleftrightarrow> None \<notin> (\<lambda>i. value_option (step_indicator c i)) ` set inds"
      by (simp add: all_ready_def image_image)
    show ?thesis
      using True by (simp add: feed_indicators_Ok Cons.IH sets_of_Cons s)
  qed (simp add: Cons.IH)
qed

lemma sets_of_complete:
  "(x, c) \<in> set (sets_of inds ts) \<Longrightarrow> complete_set (length inds) (Some x)"
  by (auto simp: sets_of_def all_ready_def complete_set_def)

section \<open>A tick of the backtest\<close>

definition on_market :: "'g backtest_world \<Rightarrow> bool" where
  "on_market w \<longleftrightarrow> 0 \<le> bw_index w \<and> bw_index w < int (length (bw_candles w))"

definition same_market :: "'g backtest_world \<Rightarrow> 'g backtest_world \<Rightarrow> bool" where
  "same_market w w' \<longleftrightarrow> bw_candles w' = bw_candles w \<and> bw_index w' = bw_index w \<and> bw_results w' = bw_results w \<and>
     br_candle (bw_current w') = br_candle (bw_current w)"

lemma backtest_order_Ok:
  assumes "on_market w"
  shows "\<exists>resp w'. backtest_order env m w = (Ok resp, w') \<and> same_market w w'"
  using assms by (simp add: backtest_order_def slice_get_def on_market_def same_market_def Let_def split_beta)

lemma PerformOrder_backtest:
  assumes "on_market w" and "pa_product args \<in> dom ProductToMetadata" and "pa_side args \<in> {OrderBuy, OrderSell}"
  shows "\<exists>p w'. PerformOrder (backtest_services env) args w = (Ok p, w') \<and> same_market w w'"
proof -
  obtain resp w1 where "backtest_order env (NewMarketOrder (pa_product args) (pa_side args) (pa_cost args)) w = (Ok resp, w1)"
    and "same_market w w1"
    using backtest_order_Ok[OF assms(1)] by blast
  then show ?thesis
    using assms(2,3)
    by (auto simp: PerformOrder_def backtest_services_def bind_act_def wrap_act_case result_act_def deref_def same_market_def Let_def)
qed

abbreviation in_play :: "trading_strategy_model \<Rightarrow> bool" where
  "in_play m \<equiv> tm_state m = StrategyStateTryingToBuy \<or> tm_state m = StrategyStateTryingToSell"

lemma backtest_tick:
  assumes "on_market w" and "tm_product m \<in> dom ProductToMetadata" and "in_play m"
    and "ValidateIndicatorSets (sint (tm_history_ticks m)) (ts_current t) (ts_sets t) = Ok ()"
    and "\<exists>b. Buy (ts_strategy t) (ts_sets t) (ts_current t) = Ok b"
    and "\<exists>b. Sell (ts_strategy t) (ts_sets t) (ts_current t) = Ok b"
  shows "\<exists>m' w'. ProcessTick (backtest_services env) t (m, w) = (Ok (), (m', w')) \<and> same_market w w' \<and> in_play m' \<and>
    tm_product m' = tm_product m \<and> tm_history_ticks m' = tm_history_ticks m"
proof (cases "tm_state m = StrategyStateTryingToBuy")
  case True
  obtain b where b: "Buy (ts_strategy t) (ts_sets t) (ts_current t) = Ok b"
    using assms(5) by blast
  obtain p w1 where "PerformOrder (backtest_services env) (order_args m OrderBuy (tm_budget m)) w = (Ok p, w1)" "same_market w w1"
    using PerformOrder_backtest[OF assms(1), of "order_args m OrderBuy (tm_budget m)" env] assms(2) by (auto simp: order_args_def)
  then show ?thesis
    using True assms(4) b
    by (auto simp: ProcessTick_def TryBuy_def wrap_act_case bind_on_world on_world_def result_act_def Let_def
        backtest_services_def same_market_def)
next
  case False
  obtain b where b: "Sell (ts_strategy t) (ts_sets t) (ts_current t) = Ok b"
    using assms(6) by blast
  obtain p w1 where "PerformOrder (backtest_services env) (order_args m OrderSell (tm_invested m)) w = (Ok p, w1)" "same_market w w1"
    using PerformOrder_backtest[OF assms(1), of "order_args m OrderSell (tm_invested m)" env] assms(2) by (auto simp: order_args_def)
  then show ?thesis
    using False assms(3,4) b
    by (auto simp: ProcessTick_def TrySell_def wrap_act_case bind_on_world on_world_def result_act_def Let_def
        backtest_services_def same_market_def)
qed

section \<open>A longer market\<close>

text \<open>The same world with candlesticks behind those of the exchange.\<close>

definition widen :: "candlestick list \<Rightarrow> 'g backtest_world \<Rightarrow> 'g backtest_world" where
  "widen cs w = w\<lparr>bw_candles := bw_candles w @ cs\<rparr>"

lemma widen_fields [simp]:
  "bw_candles (widen cs w) = bw_candles w @ cs" "bw_index (widen cs w) = bw_index w"
  "bw_results (widen cs w) = bw_results w" "bw_current (widen cs w) = bw_current w"
  by (simp_all add: widen_def)

lemma widen_moves:
  "NextTick (widen cs w) = widen cs (NextTick w)" "begin_result i c m (widen cs w) = widen cs (begin_result i c m w)"
  "next_result (widen cs w) = widen cs (next_result w)"
  by (simp_all add: widen_def NextTick_def begin_result_def next_result_def)

lemma next_result_results: "bw_results (next_result w) = bw_results w @ [bw_current w]"
  by (simp add: next_result_def)

lemma backtest_order_widen:
  assumes "on_market w" and "backtest_order env m w = (r, w1)"
  shows "backtest_order env m (widen cs w) = (r, widen cs w1)"
  using assms
  by (auto simp: backtest_order_def slice_get_def on_market_def widen_def nth_append nat_less_iff Let_def split_beta)

lemma PerformOrder_widen:
  assumes "on_market w" and "PerformOrder (backtest_services env) args w = (Ok p, w1)"
  shows "PerformOrder (backtest_services env) args (widen cs w) = (Ok p, widen cs w1)"
proof -
  define o1 where "o1 = NewMarketOrder (pa_product args) (pa_side args) (pa_cost args)"
  obtain resp w2 where o: "backtest_order env o1 w = (Ok resp, w2)"
    using backtest_order_Ok[OF assms(1)] by blast
  note e = backtest_order_widen[OF assms(1) o, of cs]
  show ?thesis
    using assms(2) o e
    by (auto simp: PerformOrder_def backtest_services_def bind_act_def wrap_act_case result_act_def deref_def Let_def
        widen_def simp flip: o1_def split: if_splits option.splits)
qed

lemma backtest_tick_widen:
  assumes "on_market w" and "tm_product m \<in> dom ProductToMetadata" and "in_play m"
    and "ValidateIndicatorSets (sint (tm_history_ticks m)) (ts_current t) (ts_sets t) = Ok ()"
    and "ValidateIndicatorSets (sint (tm_history_ticks m)) (ts_current t) (ts_sets t @ h) = Ok ()"
    and "Buy (ts_strategy t) (ts_sets t) (ts_current t) = Ok b"
    and "Sell (ts_strategy t) (ts_sets t) (ts_current t) = Ok c"
    and "Buy (ts_strategy t) (ts_sets t @ h) (ts_current t) = Ok b"
    and "Sell (ts_strategy t) (ts_sets t @ h) (ts_current t) = Ok c"
    and "ProcessTick (backtest_services env) t (m, w) = (Ok (), (m1, w1))"
  shows "ProcessTick (backtest_services env) (t\<lparr>ts_sets := ts_sets t @ h\<rparr>) (m, widen cs w) = (Ok (), (m1, widen cs w1))"
proof (cases "tm_state m = StrategyStateTryingToBuy")
  case True
  obtain p w2 where p: "PerformOrder (backtest_services env) (order_args m OrderBuy (tm_budget m)) w = (Ok p, w2)"
    using PerformOrder_backtest[OF assms(1), of "order_args m OrderBuy (tm_budget m)" env] assms(2) by (auto simp: order_args_def)
  then show ?thesis
    using True assms(4-10) PerformOrder_widen[OF assms(1) p, of cs]
    by (auto simp: ProcessTick_def TryBuy_def wrap_act_case bind_on_world on_world_def result_act_def Let_def
        backtest_services_def widen_def)
next
  case False
  obtain p w2 where p: "PerformOrder (backtest_services env) (order_args m OrderSell (tm_invested m)) w = (Ok p, w2)"
    using PerformOrder_backtest[OF assms(1), of "order_args m OrderSell (tm_invested m)" env] assms(2) by (auto simp: order_args_def)
  then show ?thesis
    using False assms(3-10) PerformOrder_widen[OF assms(1) p, of cs]
    by (auto simp: ProcessTick_def TrySell_def wrap_act_case bind_on_world on_world_def result_act_def Let_def
        backtest_services_def widen_def split: if_splits)
qed

section \<open>The run\<close>

text \<open>The engine and the world after \<open>k\<close> of the sets.\<close>

definition run_state :: "strategy \<Rightarrow> (indicator_set \<times> candlestick) list \<Rightarrow> nat \<Rightarrow> trading_strategy \<Rightarrow> 'g backtest_world \<Rightarrow> bool" where
  "run_state s xs k t w \<longleftrightarrow> ts_strategy t = s \<and> ts_sets t = map (Some \<circ> fst) xs \<and> ts_current t = int k - 1 \<and>
     bw_candles w = map snd xs \<and> bw_index w = int k - 1"

definition complete_sets :: "strategy \<Rightarrow> (indicator_set \<times> candlestick) list \<Rightarrow> bool" where
  "complete_sets s xs \<longleftrightarrow> (\<forall>x \<in> set xs. complete_set (length (Indicators s)) (Some (fst x)))"

lemma complete_sets_append [simp]: "complete_sets s (xs @ ys) \<longleftrightarrow> complete_sets s xs \<and> complete_sets s ys"
  by (auto simp: complete_sets_def)

lemma ready_at_complete:
  assumes "complete_sets s xs" and "k < length xs"
  shows "ready_at (length (Indicators s)) (map (Some \<circ> fst) xs) (int k)"
proof -
  have "complete_set (length (Indicators s)) (map (Some \<circ> fst) xs ! j)" if "j < length xs" for j
    using assms(1) that by (simp add: complete_sets_def)
  then show ?thesis
    using assms(2) by (simp add: ready_at_def)
qed

lemma validate_complete:
  assumes "complete_sets s xs" and "k < length xs"
  shows "ValidateIndicatorSets h (int k) (map (Some \<circ> fst) xs) = Ok ()"
proof -
  have "last xs \<in> set xs"
    using assms(2) by (intro last_in_set) auto
  then have "complete_set (length (Indicators s)) (Some (fst (last xs)))"
    using assms(1) by (simp add: complete_sets_def)
  moreover have "length (Indicators s) \<noteq> 0"
    by simp
  ultimately show ?thesis
    using assms(2) by (cases xs rule: rev_cases) (auto simp: validate_sets_iff complete_set_def)
qed

text \<open>The engine and the world seen over more candlesticks.\<close>

abbreviation more_sets :: "(indicator_set \<times> candlestick) list \<Rightarrow> trading_strategy \<Rightarrow> trading_strategy" where
  "more_sets ms t \<equiv> t\<lparr>ts_sets := ts_sets t @ map (Some \<circ> fst) ms\<rparr>"

text \<open>One set of the run: it never fails, it adds one result, and it does the same whatever
  follows.\<close>

lemma backtest_step:
  assumes "run_state s (ys @ x # xs) (length ys) t w" and "complete_sets s (ys @ x # xs)" and "attached s"
    and "tm_product m \<in> dom ProductToMetadata" and "in_play m" and "length (ys @ x # xs) < 2 ^ 62"
  obtains m1 w1 r where "run_state s ((ys @ [x]) @ xs) (length (ys @ [x])) (nextTick t) w1"
    and "tm_product m1 = tm_product m" and "in_play m1" and "bw_results w1 = bw_results w @ [r]" and "br_candle r = Some (snd x)"
    and "\<And>ms zs. complete_sets s ms \<Longrightarrow>
      backtest_loop env start (x # zs) (more_sets ms t) (m, widen (map snd ms) w) =
      backtest_loop env start zs (more_sets ms (nextTick t)) (m1, widen (map snd ms) w1)"
proof -
  obtain i c where x: "x = (i, c)"
    by (cases x)
  define w1 t1 where "w1 = NextTick (begin_result i c m w)" and "t1 = nextTick t"
  define ws where "ws = ys @ x # xs"
  have k: "int (length ys) < int (2 ^ 62)"
    using assms(6) by (simp only: of_nat_less_iff) simp
  have cur: "ts_current t1 = int (length ys)" "bw_index w1 = int (length ys)"
    using assms(1) k by (simp_all add: run_state_def w1_def t1_def nextTick_def NextTick_def begin_result_def in_int64I)
  have t1: "ts_sets t1 = map (Some \<circ> fst) ws" "ts_strategy t1 = s" "bw_candles w1 = map snd ws" "bw_results w1 = bw_results w" "br_candle (bw_current w1) = Some c"
    using assms(1) by (simp_all add: run_state_def t1_def nextTick_def w1_def NextTick_def begin_result_def ws_def)
  have next_t: "nextTick (more_sets ms t) = more_sets ms t1" for ms
    by (simp add: t1_def nextTick_def)
  have next_w: "NextTick (begin_result i c m (widen cs w)) = widen cs w1" for cs
    by (simp add: w1_def widen_moves)
  have run1: "run_state s ((ys @ [x]) @ xs) (length (ys @ [x])) t1 (next_result w')" if "same_market w1 w'" for w'
    using that cur t1 by (simp add: run_state_def same_market_def ws_def next_result_def)
  show ?thesis
  proof (cases "start < cs_end c")
    case True
    have market: "on_market w1"
      using cur t1 by (simp add: on_market_def ws_def)
    have len: "length ys < length ws"
      by (simp add: ws_def)
    have comp: "complete_sets s ws"
      using assms(2) by (simp add: ws_def)
    note ready = ready_at_complete[OF comp len]
    note valid = validate_complete[OF comp len]
    have buy: "Buy s (map (Some \<circ> fst) ws) (int (length ys)) = Ok (buys s (map (Some \<circ> fst) ws) (int (length ys)))"
      and sell: "Sell s (map (Some \<circ> fst) ws) (int (length ys)) = Ok (sells s (map (Some \<circ> fst) ws) (int (length ys)))"
      by (rule rule.buy_ready[OF assms(3) ready] rule.sell_ready[OF assms(3) ready])+
    obtain m2 w2 where tick: "ProcessTick (backtest_services env) t1 (m, w1) = (Ok (), (m2, w2))"
      and same: "same_market w1 w2" and m2: "in_play m2" "tm_product m2 = tm_product m"
      using backtest_tick[OF market assms(4,5), of t1 env] valid buy sell cur t1 by auto
    have "ProcessTick (backtest_services env) (more_sets ms t1) (m, widen (map snd ms) w1) = (Ok (), (m2, widen (map snd ms) w2))"
      if "complete_sets s ms" for ms
    proof (rule backtest_tick_widen[OF market assms(4,5) _ _ _ _ _ _ tick])
      have v: "ValidateIndicatorSets h (int (length ys)) (map (Some \<circ> fst) (ws @ ms)) = Ok ()" for h
        using that comp len by (intro validate_complete) simp_all
      show "ValidateIndicatorSets (sint (tm_history_ticks m)) (ts_current t1) (ts_sets t1 @ map (Some \<circ> fst) ms) = Ok ()"
        using v cur t1 by simp
    qed (use valid buy sell cur t1 past.no_look_ahead[OF assms(3) ready] in simp_all)
    then show ?thesis
      using True same t1(4,5) m2 run1[OF same]
      by (intro that[of "next_result w2" m2 "bw_current w2"])
        (simp_all add: x next_t next_w widen_moves(3) next_result_results same_market_def flip: t1_def)
  next
    case False
    then show ?thesis
      using run1[of w1] t1(4,5) assms(5)
      by (intro that[of "next_result w1" m "bw_current w1"])
        (simp_all add: x next_t next_w widen_moves(3) next_result_results same_market_def flip: t1_def)
  qed
qed

lemma loop_step_same:
  assumes "run_state s (ys @ x # xs) (length ys) t w" and "complete_sets s (ys @ x # xs)" and "attached s"
    and "tm_product m \<in> dom ProductToMetadata" and "in_play m" and "length (ys @ x # xs) < 2 ^ 62"
  obtains m1 w1 r where "run_state s ((ys @ [x]) @ xs) (length (ys @ [x])) (nextTick t) w1"
    and "tm_product m1 = tm_product m" and "in_play m1" and "bw_results w1 = bw_results w @ [r]" and "br_candle r = Some (snd x)"
    and "\<And>zs. backtest_loop env start (x # zs) t (m, w) = backtest_loop env start zs (nextTick t) (m1, w1)"
    and "\<And>ms zs. complete_sets s ms \<Longrightarrow>
      backtest_loop env start (x # zs) (more_sets ms t) (m, widen (map snd ms) w) =
      backtest_loop env start zs (more_sets ms (nextTick t)) (m1, widen (map snd ms) w1)"
proof (rule backtest_step[OF assms, of env start])
  fix m1 w1 r
  assume a: "run_state s ((ys @ [x]) @ xs) (length (ys @ [x])) (nextTick t) w1" "tm_product m1 = tm_product m"
    "in_play m1" "bw_results w1 = bw_results w @ [r]" "br_candle r = Some (snd x)"
    and same: "\<And>ms zs. complete_sets s ms \<Longrightarrow>
      backtest_loop env start (x # zs) (more_sets ms t) (m, widen (map snd ms) w) =
      backtest_loop env start zs (more_sets ms (nextTick t)) (m1, widen (map snd ms) w1)"
  have "backtest_loop env start (x # zs) t (m, w) = backtest_loop env start zs (nextTick t) (m1, w1)" for zs
    using same[of "[]" zs] by (simp add: complete_sets_def widen_def)
  with a same show thesis
    by (rule_tac that) blast+
qed

lemma backtest_loop_total:
  assumes "run_state s (ys @ xs) (length ys) t w" and "complete_sets s (ys @ xs)" and "attached s"
    and "tm_product m \<in> dom ProductToMetadata" and "in_play m" and "length (ys @ xs) < 2 ^ 62"
  shows "\<exists>m' w' rs. backtest_loop env start xs t (m, w) = (Ok (), (m', w')) \<and>
    bw_results w' = bw_results w @ rs \<and> map br_candle rs = map (Some \<circ> snd) xs"
  using assms
proof (induction xs arbitrary: ys t m w)
  case (Cons x xs)
  from Cons.prems obtain m1 w1 r where run: "run_state s ((ys @ [x]) @ xs) (length (ys @ [x])) (nextTick t) w1"
    and m1: "tm_product m1 = tm_product m" "in_play m1" "bw_results w1 = bw_results w @ [r]" "br_candle r = Some (snd x)"
    and loop: "backtest_loop env start (x # xs) t (m, w) = backtest_loop env start xs (nextTick t) (m1, w1)"
    by (rule loop_step_same) blast
  have q: "complete_sets s ((ys @ [x]) @ xs)" "tm_product m1 \<in> dom ProductToMetadata" "length ((ys @ [x]) @ xs) < 2 ^ 62"
    using Cons.prems m1 by auto
  obtain m' w' rs where "backtest_loop env start xs (nextTick t) (m1, w1) = (Ok (), (m', w'))"
    and "bw_results w' = bw_results w1 @ rs" and "map br_candle rs = map (Some \<circ> snd) xs"
    using Cons.IH[OF run q(1) Cons.prems(3) q(2) m1(2) q(3)] by blast
  then show ?case
    unfolding loop using m1(3,4) by (intro exI[of _ m'] exI[of _ w'] exI[of _ "r # rs"]) simp
qed simp

lemma backtest_loop_prefix:
  assumes "run_state s (ys @ xs) (length ys) t w" and "complete_sets s (ys @ xs @ zs)" and "attached s"
    and "tm_product m \<in> dom ProductToMetadata" and "in_play m" and "length (ys @ xs @ zs) < 2 ^ 62"
  shows "\<exists>m1 w1 m2 w2 rs. backtest_loop env start xs t (m, w) = (Ok (), (m1, w1)) \<and>
    backtest_loop env start (xs @ zs) (more_sets zs t) (m, widen (map snd zs) w) = (Ok (), (m2, w2)) \<and>
    bw_results w2 = bw_results w1 @ rs"
  using assms
proof (induction xs arbitrary: ys t m w)
  case Nil
  then have "run_state s (ys @ zs) (length ys) (more_sets zs t) (widen (map snd zs) w)"
    by (simp add: run_state_def)
  moreover have "complete_sets s (ys @ zs)" "length (ys @ zs) < 2 ^ 62"
    using Nil.prems by simp_all
  ultimately obtain m' w' rs where
    "backtest_loop env start zs (more_sets zs t) (m, widen (map snd zs) w) = (Ok (), (m', w'))"
    "bw_results w' = bw_results w @ rs"
    using backtest_loop_total[of s ys zs "more_sets zs t" "widen (map snd zs) w" m env start] Nil.prems(3-5) by auto
  then have "backtest_loop env start [] t (m, w) = (Ok (), (m, w)) \<and>
    backtest_loop env start ([] @ zs) (more_sets zs t) (m, widen (map snd zs) w) = (Ok (), (m', w')) \<and> bw_results w' = bw_results w @ rs"
    by (simp only: append_Nil backtest_loop.simps simp_thms)
  then show ?case
    by blast
next
  case (Cons x xs)
  have zs: "complete_sets s zs"
    using Cons.prems(2) by (simp add: complete_sets_def)
  have p: "complete_sets s (ys @ x # xs)" "length (ys @ x # xs) < 2 ^ 62"
    using Cons.prems(2,6) by (auto simp: complete_sets_def)
  obtain m1 w1 r where run: "run_state s ((ys @ [x]) @ xs) (length (ys @ [x])) (nextTick t) w1"
    and m1: "tm_product m1 = tm_product m" "in_play m1" "bw_results w1 = bw_results w @ [r]"
    and loop: "\<And>us. backtest_loop env start (x # us) t (m, w) = backtest_loop env start us (nextTick t) (m1, w1)"
    and more: "\<And>ms us. complete_sets s ms \<Longrightarrow>
      backtest_loop env start (x # us) (more_sets ms t) (m, widen (map snd ms) w) =
      backtest_loop env start us (more_sets ms (nextTick t)) (m1, widen (map snd ms) w1)"
    by (rule loop_step_same[OF Cons.prems(1) p(1) Cons.prems(3,4,5) p(2), of env start]) blast
  have q: "complete_sets s ((ys @ [x]) @ xs @ zs)" "tm_product m1 \<in> dom ProductToMetadata" "length ((ys @ [x]) @ xs @ zs) < 2 ^ 62"
    using Cons.prems m1 by auto
  show ?case
    unfolding append_Cons loop more[OF zs] by (rule Cons.IH[OF run q(1) Cons.prems(3) q(2) m1(2) q(3)])
qed

section \<open>The backtest\<close>

definition set_at :: "indicator list \<Rightarrow> candlestick list \<Rightarrow> nat \<Rightarrow> indicator_set \<times> candlestick" where
  "set_at inds ts k =
    (\<lparr>is_time = cs_start (ts ! k), is_values = map (\<lambda>i. value_option (run_indicator i (take (Suc k) ts))) inds\<rparr>, ts ! k)"

lemma sets_of_append: "\<exists>zs. sets_of inds (ts @ us) = sets_of inds ts @ zs"
proof -
  define ready where "ready xs k = all_ready inds (take (Suc k) xs)" for xs k
  have sets: "sets_of inds xs = map (set_at inds xs) (filter (ready xs) [0..<length xs])" for xs
    by (simp add: sets_of_def set_at_def[abs_def] ready_def[abs_def])
  have upt: "[0..<length (ts @ us)] = [0..<length ts] @ [length ts..<length ts + length us]"
    using upt_add_eq_append[of 0 "length ts" "length us"] by simp
  have "filter (ready (ts @ us)) [0..<length ts] = filter (ready ts) [0..<length ts]"
    by (intro filter_cong) (simp_all add: ready_def)
  moreover have "map (set_at inds (ts @ us)) (filter (ready ts) [0..<length ts]) = map (set_at inds ts) (filter (ready ts) [0..<length ts])"
    by (intro map_cong) (simp_all add: set_at_def nth_append)
  ultimately have "sets_of inds (ts @ us) = sets_of inds ts @
      map (set_at inds (ts @ us)) (filter (ready (ts @ us)) [length ts..<length ts + length us])"
    by (simp only: sets upt filter_append map_append)
  then show ?thesis
    by (rule exI)
qed

lemma sets_of_length: "length (sets_of inds ts) \<le> length ts"
  by (simp add: sets_of_def) (metis length_filter_le length_upt minus_nat.diff_0)

lemma new_trader [simp]: "ts_strategy (NewTradingStrategy s) = s" "ts_current (NewTradingStrategy s) = - 1"
proof -
  have "ts_strategy (foldl register_indicator t is') = ts_strategy t \<and> ts_current (foldl register_indicator t is') = ts_current t" for t is'
    by (induction is' arbitrary: t) (simp_all add: register_indicator_def)
  then show "ts_strategy (NewTradingStrategy s) = s" "ts_current (NewTradingStrategy s) = - 1"
    by (simp_all add: NewTradingStrategy_def)
qed

text \<open>The sets of a backtest over the candlesticks that the backend answers, and the two things it
  starts from.\<close>

definition backtest_sets :: "strategy \<Rightarrow> candlestick list \<Rightarrow> (indicator_set \<times> candlestick) list" where
  "backtest_sets s cs = sets_of (Indicators s) (filter traded cs)"

definition first_trader :: "strategy \<Rightarrow> candlestick list \<Rightarrow> trading_strategy" where
  "first_trader s cs = setIndicatorSets (NewTradingStrategy s) (map (Some \<circ> fst) (backtest_sets s cs))"

definition first_world :: "strategy \<Rightarrow> candlestick list \<Rightarrow> 'g backtest_world \<Rightarrow> 'g backtest_world" where
  "first_world s cs w = NewBacktesterExchange (map snd (backtest_sets s cs)) exchangeSlippage w"

lemma Backtest_loop:
  assumes "be_find env (actualStartTime b m) (bt_end b) (tm_product m) (sint (tm_tick_size_minutes m)) = Ok cs"
    and "CandlestickBucket (bt_start b) (sint (tm_tick_size_minutes m)) = Ok start"
  shows "Backtest env b (m, w) = backtest_loop env start (backtest_sets (bt_strategy b) cs)
    (first_trader (bt_strategy b) cs) (m, first_world (bt_strategy b) cs w)"
  using assms
  by (simp add: Backtest_def bind_act_def result_act_def generate_Ok Let_def zip_map_fst_snd backtest_sets_def
      first_trader_def first_world_def comp_def)

lemma bucket_Ok:
  assumes "wrap64 (k * 60) \<noteq> 0"
  obtains start where "CandlestickBucket t k = Ok start"
  using assms by (simp add: CandlestickBucket_def Let_def)

lemma first_run_state: "run_state s ([] @ backtest_sets s cs) (length []) (first_trader s cs) (first_world s cs w)"
  by (simp add: run_state_def first_trader_def first_world_def setIndicatorSets_def NewBacktesterExchange_def)

lemma backtest_sets_complete: "complete_sets s (backtest_sets s cs)"
  using sets_of_complete by (fastforce simp: complete_sets_def backtest_sets_def)

lemma backtest_sets_length: "length (backtest_sets s cs) \<le> length cs"
  unfolding backtest_sets_def using sets_of_length[of "Indicators s" "filter traded cs"] length_filter_le[of traded cs]
  by linarith

section \<open>The figures\<close>

text \<open>The fills of the sells, and what each sell gained over the budget before it: the initial
  budget, later the truncated fill of the sell before.\<close>

definition sell_fills :: "backtest_result list \<Rightarrow> f64 list" where
  "sell_fills rs = map mm_filled_size (filter (\<lambda>o1. mm_side o1 = OrderSell) (List.map_filter br_market_order rs))"

fun gains :: "f64 \<Rightarrow> f64 list \<Rightarrow> f64 list" where
  "gains b [] = []"
| "gains b (x # xs) = fsub x b # gains (TruncateFloat x tradeCurrencyPrecision) xs"

abbreviation "won \<equiv> filter (fle (Fin 0))"
abbreviation "lost \<equiv> filter (\<lambda>d. \<not> fle (Fin 0) d)"

lemma sell_fills_simps [simp]:
  "sell_fills [] = []"
  "sell_fills (r # rs) = (case br_market_order r of None \<Rightarrow> sell_fills rs
     | Some o1 \<Rightarrow> if mm_side o1 = OrderSell then mm_filled_size o1 # sell_fills rs else sell_fills rs)"
  by (simp_all add: sell_fills_def map_filter_simps split: option.splits)

lemma record_value_fields [simp]:
  "rt_gross_profit (record_value s d r c rs) = rt_gross_profit rs" "rt_gross_loss (record_value s d r c rs) = rt_gross_loss rs"
  "rt_profit_trades (record_value s d r c rs) = rt_profit_trades rs" "rt_loss_trades (record_value s d r c rs) = rt_loss_trades rs"
  "rt_final_budget (record_value s d r c rs) = rt_final_budget rs"
  by (simp_all add: record_value_def Let_def)

lemma results_loop_sums:
  assumes "\<forall>r \<in> set xs. br_candle r \<noteq> None"
  shows "\<exists>R. results_loop start xs rs d budget = Ok R \<and>
    rt_gross_profit R = foldl fadd (rt_gross_profit rs) (won (gains budget (sell_fills xs))) \<and>
    rt_gross_loss R = foldl fadd (rt_gross_loss rs) (map fneg (lost (gains budget (sell_fills xs)))) \<and>
    rt_profit_trades R = rt_profit_trades rs + of_nat (length (won (gains budget (sell_fills xs)))) \<and>
    rt_loss_trades R = rt_loss_trades rs + of_nat (length (lost (gains budget (sell_fills xs)))) \<and>
    rt_final_budget R = (if sell_fills xs = [] then rt_final_budget rs
      else TruncateFloat (last (sell_fills xs)) tradeCurrencyPrecision)"
  using assms
proof (induction xs arbitrary: rs d budget)
  case (Cons r xs)
  then obtain c where c: "br_candle r = Some c" and xs: "\<forall>r \<in> set xs. br_candle r \<noteq> None"
    by auto
  note IH = Cons.IH[OF xs]
  show ?case
  proof (cases "br_market_order r")
    case None
    then show ?thesis
      using c IH[of "record_value start d r c rs" "cs_start c" budget] by (simp cong: if_cong)
  next
    case (Some o1)
    show ?thesis
    proof (cases "mm_side o1 = OrderSell")
      case True
      define rs' where "rs' = record_sell (mm_filled_size o1) budget (record_value start d r c rs)"
      from IH[of "rs'\<lparr>rt_final_budget := TruncateFloat (mm_filled_size o1) tradeCurrencyPrecision, rt_final_price := cs_close c\<rparr>"
          "cs_start c" "TruncateFloat (mm_filled_size o1) tradeCurrencyPrecision"] show ?thesis
        using c Some True by (simp add: Let_def flip: rs'_def) (auto simp: rs'_def record_sell_def Let_def)
    next
      case False
      define rs' where "rs' = (if mm_side o1 = OrderBuy \<and> feq (rt_initial_price (record_value start d r c rs)) (Fin 0)
        then (record_value start d r c rs)\<lparr>rt_initial_price := cs_close c\<rparr> else record_value start d r c rs)"
      have same: "rt_gross_profit rs' = rt_gross_profit rs" "rt_gross_loss rs' = rt_gross_loss rs"
        "rt_profit_trades rs' = rt_profit_trades rs" "rt_loss_trades rs' = rt_loss_trades rs" "rt_final_budget rs' = rt_final_budget rs"
        by (simp_all add: rs'_def)
      from IH[of rs' "cs_start c" budget] show ?thesis
        using c Some False by (simp add: Let_def same cong: if_cong flip: rs'_def)
    qed
  qed
qed simp

lemma results_of_sells:
  assumes "\<forall>r \<in> set results. br_candle r \<noteq> None"
  shows "\<exists>R. Results b m results = Ok R \<and>
    rt_gross_profit R = foldl fadd (Fin 0) (won (gains (tm_initial_budget m) (sell_fills results))) \<and>
    rt_gross_loss R = foldl fadd (Fin 0) (map fneg (lost (gains (tm_initial_budget m) (sell_fills results)))) \<and>
    rt_profit_trades R = of_nat (length (won (gains (tm_initial_budget m) (sell_fills results)))) \<and>
    rt_loss_trades R = of_nat (length (lost (gains (tm_initial_budget m) (sell_fills results)))) \<and>
    rt_final_budget R = (if sell_fills results = [] then Fin 0
      else TruncateFloat (last (sell_fills results)) tradeCurrencyPrecision)"
proof (cases results)
  case (Cons r rest)
  then obtain c where "br_candle r = Some c"
    using assms by auto
  then have "Results b m results = results_loop (bt_start b) results (initial_results m) (cs_start c) (tm_initial_budget m)"
    by (simp add: Results_def Cons deref_def del: results_loop.simps)
  then show ?thesis
    using results_loop_sums[OF assms, of "bt_start b" "initial_results m" "cs_start c" "tm_initial_budget m"]
    by (simp add: initial_results_def cong: if_cong)
qed (simp add: Results_def initial_results_def)

lemma backtest_ends:
  assumes "attached (bt_strategy b)" and "tm_product m \<in> dom ProductToMetadata" and "in_play m"
    and "be_find env (actualStartTime b m) (bt_end b) (tm_product m) (sint (tm_tick_size_minutes m)) = Ok cs"
    and "wrap64 (sint (tm_tick_size_minutes m) * 60) \<noteq> 0"
    and "length cs < 2 ^ 62"
  shows "\<exists>m' w' rs. Backtest env b (m, w) = (Ok (), (m', w')) \<and> bw_results w' = bw_results w @ rs \<and>
    map br_candle rs = map (Some \<circ> snd) (backtest_sets (bt_strategy b) cs)"
proof -
  from assms(5) obtain start where start: "CandlestickBucket (bt_start b) (sint (tm_tick_size_minutes m)) = Ok start"
    by (rule bucket_Ok)
  have "length ([] @ backtest_sets (bt_strategy b) cs) < 2 ^ 62"
    using backtest_sets_length[of "bt_strategy b" cs] assms(6) by simp
  from backtest_loop_total[OF first_run_state[where w = w] _ assms(1-3) this, of env start]
  show ?thesis
    unfolding Backtest_loop[OF assms(4) start]
    by (simp add: backtest_sets_complete first_world_def NewBacktesterExchange_def)
qed

section \<open>Properties\<close>

text \<open>Which sets a backtest runs on: candlesticks without volume are dropped; of the others, those
  after which every indicator has a value give, in order, a set with the values the indicators have
  after the candlesticks up to there, and the candlestick itself. It never fails.\<close>

theorem indicator_sets_by_prefix:
  "generateIndicatorSets inds cs =
    (let ts = filter traded cs; ready = filter (\<lambda>k. all_ready inds (take (Suc k) ts)) [0..<length ts]
     in Ok (map (\<lambda>k. \<lparr>is_time = cs_start (ts ! k), is_values = map (\<lambda>i. value_option (run_indicator i (take (Suc k) ts))) inds\<rparr>) ready,
            map (\<lambda>k. ts ! k) ready))"
  by (simp add: generate_Ok sets_of_def comp_def Let_def)

text \<open>The strategies whose indicators have different names: all but those with two averages over the
  same period.\<close>

fun periods_differ :: "strategy \<Rightarrow> bool" where
  "periods_differ (SEMACrossover e) \<longleftrightarrow> eco_ShortPeriod e \<noteq> eco_LongPeriod e"
| "periods_differ (SRSI e) \<longleftrightarrow> True"
| "periods_differ (SS1 s) \<longleftrightarrow> s1_EMAShortPeriod s \<noteq> s1_EMALongPeriod s"

lemma distinct_names: "distinct (map IndicatorName (Indicators s)) \<longleftrightarrow> periods_differ s"
  by (cases s) (auto simp: eco_Indicators_def rs_Indicators_def s1_Indicators_def ema_name_def dema_name_def rsi_name_def
      show_u64_def NewEMAIndicator_def word_unat_eq_iff dest!: show_nat_inj)

text \<open>The history of a live engine: a set per candlestick.\<close>

definition live_sets :: "strategy \<Rightarrow> candlestick list \<Rightarrow> history" where
  "live_sets s cs = map (\<lambda>k. set_after s (take (Suc k) cs)) [0..<length cs]"

definition live_at :: "strategy \<Rightarrow> candlestick list \<Rightarrow> (candlestick \<times> indicator_set option) list" where
  "live_at s cs = filter (\<lambda>(c, set). traded c \<and> complete_set (length (Indicators s)) set) (zip cs (live_sets s cs))"

lemma live_sets_snoc: "live_sets s (cs @ [c]) = live_sets s cs @ [set_after s (cs @ [c])]"
  by (simp add: live_sets_def)

lemma length_live_sets [simp]: "length (live_sets s cs) = length cs"
  by (simp add: live_sets_def)

lemma sets_of_snoc:
  "sets_of inds (ts @ [c]) = sets_of inds ts @ (if all_ready inds (ts @ [c]) then [set_at inds (ts @ [c]) (length ts)] else [])"
proof -
  have sets: "sets_of inds xs = map (set_at inds xs) (filter (\<lambda>k. all_ready inds (take (Suc k) xs)) [0..<length xs])" for xs
    by (simp add: sets_of_def set_at_def[abs_def])
  have "filter (\<lambda>k. all_ready inds (take (Suc k) (ts @ [c]))) [0..<length ts] = filter (\<lambda>k. all_ready inds (take (Suc k) ts)) [0..<length ts]"
    by (intro filter_cong) simp_all
  moreover have "map (set_at inds (ts @ [c])) (filter P [0..<length ts]) = map (set_at inds ts) (filter P [0..<length ts])" for P
    by (intro map_cong) (simp_all add: set_at_def nth_append)
  moreover have "filter Q [0..<length (ts @ [c])] = filter Q [0..<length ts] @ (if Q (length ts) then [length ts] else [])" for Q
    by simp
  ultimately show ?thesis
    unfolding sets by (simp only: map_append) simp
qed

lemma run_traded: "run_indicator i (filter traded cs) = run_indicator i cs"
  by (rule ind.run_skip[symmetric, folded step_indicator_def])

lemma complete_set_after: "complete_set (length (Indicators s)) (set_after s cs) \<longleftrightarrow> all_ready (Indicators s) cs"
  by (simp add: complete_set_def set_after_def all_ready_def)

lemma live_at_sets: "map (\<lambda>(c, set). (set, c)) (live_at s cs) = map (\<lambda>(set, c). (Some set, c)) (sets_of (Indicators s) (filter traded cs))"
proof (induction cs rule: rev_induct)
  case (snoc c cs)
  have ready: "all_ready (Indicators s) (filter traded xs) \<longleftrightarrow> all_ready (Indicators s) xs" for xs
    by (simp add: all_ready_def run_traded)
  have at: "set_at (Indicators s) (filter traded cs @ [c]) (length (filter traded cs)) = (the (set_after s (cs @ [c])), c)" if "traded c"
    using run_traded[of _ "cs @ [c]"] that by (simp add: set_at_def set_after_def nth_append)
  have some: "Some (the (set_after s xs)) = set_after s xs" for xs
    by (simp add: set_after_def)
  have step: "live_at s (cs @ [c]) = live_at s cs @
      (if traded c \<and> all_ready (Indicators s) (cs @ [c]) then [(c, set_after s (cs @ [c]))] else [])"
    by (simp add: live_at_def live_sets_snoc complete_set_after)
  show ?case
  proof (cases "traded c")
    case True
    then show ?thesis
      using snoc ready[of "cs @ [c]"] by (simp add: step sets_of_snoc at some)
  qed (use snoc in \<open>simp add: step\<close>)
qed (simp add: live_at_def sets_of_def live_sets_def)

lemma untraded_repeats:
  assumes "0 < k" and "k < length cs" and "\<not> traded (cs ! k)"
  shows "map_option is_values (live_sets s cs ! k) = map_option is_values (live_sets s cs ! (k - 1))"
proof -
  have "take (Suc k) cs = take k cs @ [cs ! k]"
    using assms(2) by (rule take_Suc_conv_app_nth)
  then have "run_indicator i (take (Suc k) cs) = run_indicator i (take k cs)" for i
    using run_traded[of i "take (Suc k) cs"] run_traded[of i "take k cs"] assms(3) by simp
  then show ?thesis
    using assms(1,2) by (simp add: live_sets_def set_after_def)
qed

text \<open>C7. Live and backtest see the same history, over any candlesticks. An engine seeded with them
  has one set per candlestick; those of the candlesticks with volume at which every indicator has a
  value are exactly the sets the backtester generates, with the same values and times and in the
  same order, beside the same candlesticks. The live history is longer by the sets that are not
  complete yet and by those of the candlesticks without volume, which repeat the values of the set
  before. The exception are strategies with two averages over the same period, whose
  engine feeds the one average twice.\<close>

theorem live_history_is_backtest_history:
  assumes "periods_differ s" and "length cs < 2 ^ 62"
    and "live = ts_sets (seed_all (NewTradingStrategy s) cs)"
  shows "length live = length cs \<and>
    generateIndicatorSets (Indicators s) cs =
      (let kept = filter (\<lambda>(c, set). traded c \<and> complete_set (length (Indicators s)) set) (zip cs live)
       in Ok (map (\<lambda>(c, set). the set) kept, map fst kept)) \<and>
    (\<forall>k. 0 < k \<and> k < length cs \<and> \<not> traded (cs ! k) \<longrightarrow>
       map_option is_values (live ! k) = map_option is_values (live ! (k - 1)))"
proof -
  have live: "live = live_sets s cs"
    using seeded_all[of s cs] assms by (simp add: seeded_def names_of_def live_sets_def distinct_names)
  have "generateIndicatorSets (Indicators s) cs =
      Ok (map fst (sets_of (Indicators s) (filter traded cs)), map snd (sets_of (Indicators s) (filter traded cs)))"
    by (simp add: generate_Ok)
  moreover have "map fst (sets_of (Indicators s) (filter traded cs)) = map (\<lambda>(c, set). the set) (live_at s cs)"
    using arg_cong[OF live_at_sets[of s cs], of "map (\<lambda>(set, c). the set)"] by (simp add: comp_def split_def)
  moreover have "map snd (sets_of (Indicators s) (filter traded cs)) = map fst (live_at s cs)"
    using arg_cong[OF live_at_sets[of s cs], of "map snd"] by (simp add: comp_def split_def)
  ultimately show ?thesis
    using untraded_repeats[of _ cs s] by (simp add: live Let_def flip: live_at_def)
qed

lemma live_history_is_backtest_history_witness:
  "length (ts_sets (seed_all (NewTradingStrategy (SRSI test_rsi)) (zero_candlestick # replicate 20 (zero_candlestick\<lparr>cs_volume := Fin 1\<rparr>)))) =
     length (zero_candlestick # replicate 20 (zero_candlestick\<lparr>cs_volume := Fin 1\<rparr>)) \<and>
   generateIndicatorSets (Indicators (SRSI test_rsi)) (zero_candlestick # replicate 20 (zero_candlestick\<lparr>cs_volume := Fin 1\<rparr>)) =
      (let kept = filter (\<lambda>(c, set). traded c \<and> complete_set (length (Indicators (SRSI test_rsi))) set)
         (zip (zero_candlestick # replicate 20 (zero_candlestick\<lparr>cs_volume := Fin 1\<rparr>))
           (ts_sets (seed_all (NewTradingStrategy (SRSI test_rsi)) (zero_candlestick # replicate 20 (zero_candlestick\<lparr>cs_volume := Fin 1\<rparr>)))))
       in Ok (map (\<lambda>(c, set). the set) kept, map fst kept))"
  using live_history_is_backtest_history[of "SRSI test_rsi" "zero_candlestick # replicate 20 (zero_candlestick\<lparr>cs_volume := Fin 1\<rparr>)"]
  by simp

text \<open>C24. A backtest runs to the end: for a strategy attached to its model, on a known product, in one
  of the two states of trading, with any candlesticks, it returns without error or panic, and it
  has one result for each of its sets, in order, of the candlestick of the set.\<close>

theorem backtest_runs_to_the_end:
  assumes "attached (bt_strategy b)" and "tm_product m \<in> dom ProductToMetadata" and "in_play m"
    and "be_find env (actualStartTime b m) (bt_end b) (tm_product m) (sint (tm_tick_size_minutes m)) = Ok cs"
    and "wrap64 (sint (tm_tick_size_minutes m) * 60) \<noteq> 0"
    and "length cs < 2 ^ 62"
  shows "\<exists>m' w' rs. Backtest env b (m, w) = (Ok (), (m', w')) \<and> bw_results w' = bw_results w @ rs \<and>
    map br_candle rs = map (Some \<circ> snd) (backtest_sets (bt_strategy b) cs)"
  by (rule backtest_ends[OF assms])

text \<open>C5. A backtest does not look ahead: run to a later end, over more candlesticks, it has the same
  results for the earlier ones, orders, fills, budgets and all, and adds others behind them.\<close>

theorem backtest_does_not_look_ahead:
  assumes "attached (bt_strategy b)" and "tm_product m \<in> dom ProductToMetadata" and "in_play m"
    and "be_find env (actualStartTime b m) (bt_end b) (tm_product m) (sint (tm_tick_size_minutes m)) = Ok cs"
    and "be_find env (actualStartTime b m) later (tm_product m) (sint (tm_tick_size_minutes m)) = Ok (cs @ cs')"
    and "wrap64 (sint (tm_tick_size_minutes m) * 60) \<noteq> 0"
    and "length (cs @ cs') < 2 ^ 62"
  shows "\<exists>m1 w1 m2 w2 rs. Backtest env b (m, w) = (Ok (), (m1, w1)) \<and>
    Backtest env (b\<lparr>bt_end := later\<rparr>) (m, w) = (Ok (), (m2, w2)) \<and> bw_results w2 = bw_results w1 @ rs"
proof -
  from assms(6) obtain start where start: "CandlestickBucket (bt_start b) (sint (tm_tick_size_minutes m)) = Ok start"
    by (rule bucket_Ok)
  define s where "s = bt_strategy b"
  obtain zs where zs: "backtest_sets s (cs @ cs') = backtest_sets s cs @ zs"
    unfolding backtest_sets_def filter_append using sets_of_append by blast
  have widened: "first_trader s (cs @ cs') = more_sets zs (first_trader s cs)"
    "first_world s (cs @ cs') w = widen (map snd zs) (first_world s cs w)"
    by (simp_all add: first_trader_def setIndicatorSets_def first_world_def widen_def zs NewBacktesterExchange_def)
  have len: "length ([] @ backtest_sets s cs @ zs) < 2 ^ 62"
    using backtest_sets_length[of s "cs @ cs'"] assms(7) by (simp add: zs)
  have comp: "complete_sets s ([] @ backtest_sets s cs @ zs)"
    using backtest_sets_complete[of s "cs @ cs'"] by (simp only: zs append_Nil)
  have "actualStartTime (b\<lparr>bt_end := later\<rparr>) m = actualStartTime b m"
    by (simp add: actualStartTime_def)
  then have "Backtest env (b\<lparr>bt_end := later\<rparr>) (m, w) =
      backtest_loop env start (backtest_sets s cs @ zs) (more_sets zs (first_trader s cs)) (m, widen (map snd zs) (first_world s cs w))"
    using Backtest_loop[of env "b\<lparr>bt_end := later\<rparr>" m "cs @ cs'" start w] assms(5) start
    by (simp flip: s_def add: zs widened)
  moreover have "Backtest env b (m, w) = backtest_loop env start (backtest_sets s cs) (first_trader s cs) (m, first_world s cs w)"
    using Backtest_loop[OF assms(4) start] by (simp flip: s_def)
  ultimately show ?thesis
    using backtest_loop_prefix[OF first_run_state[where w = w] comp _ assms(2,3) len, of env start] assms(1) by (simp flip: s_def)
qed

definition test_market :: "nat backtest_env" where
  "test_market = \<lparr>be_float = (\<lambda>g. (Fin (1 / 2), g + 1)), be_uuid = (\<lambda>g. (''order'', g + 1)),
     be_find = (\<lambda>s e p k. Ok (replicate (if e = 0 then 20 else 30) (zero_candlestick\<lparr>cs_volume := Fin 1\<rparr>))), be_now = 0\<rparr>"

definition test_backtester :: backtester where
  "test_backtester = \<lparr>bt_start = 0, bt_end = 0, bt_model = test_model, bt_strategy = SRSI test_rsi\<rparr>"

definition test_world :: "nat backtest_world" where
  "test_world = \<lparr>bw_current = empty_result, bw_results = [], bw_candles = [], bw_slippage = Fin 0, bw_index = - 1, bw_source = 0\<rparr>"

lemma test_backtest_hyps:
  "attached (bt_strategy test_backtester)" "tm_product test_model \<in> dom ProductToMetadata" "in_play test_model"
  "be_find test_market (actualStartTime test_backtester test_model) (bt_end test_backtester) (tm_product test_model)
     (sint (tm_tick_size_minutes test_model)) = Ok (replicate 20 (zero_candlestick\<lparr>cs_volume := Fin 1\<rparr>))"
  "be_find test_market (actualStartTime test_backtester test_model) 1 (tm_product test_model)
     (sint (tm_tick_size_minutes test_model)) = Ok (replicate 20 (zero_candlestick\<lparr>cs_volume := Fin 1\<rparr>) @ replicate 10 (zero_candlestick\<lparr>cs_volume := Fin 1\<rparr>))"
  "wrap64 (sint (tm_tick_size_minutes test_model) * 60) \<noteq> 0"
  by (simp_all add: test_backtester_def test_model_def test_rsi_def test_market_def ProductToMetadata_def
      in_int64I flip: replicate_add)

lemma backtest_runs_to_the_end_witness:
  "\<exists>m' w' rs. Backtest test_market test_backtester (test_model, test_world) = (Ok (), (m', w')) \<and>
    bw_results w' = bw_results test_world @ rs \<and>
    map br_candle rs = map (Some \<circ> snd) (backtest_sets (bt_strategy test_backtester) (replicate 20 (zero_candlestick\<lparr>cs_volume := Fin 1\<rparr>)))"
  by (rule backtest_runs_to_the_end[OF test_backtest_hyps(1,2,3,4,6)]) simp

lemma backtest_does_not_look_ahead_witness:
  "\<exists>m1 w1 m2 w2 rs. Backtest test_market test_backtester (test_model, test_world) = (Ok (), (m1, w1)) \<and>
    Backtest test_market (test_backtester\<lparr>bt_end := 1\<rparr>) (test_model, test_world) = (Ok (), (m2, w2)) \<and>
    bw_results w2 = bw_results w1 @ rs"
  by (rule backtest_does_not_look_ahead[OF test_backtest_hyps]) simp

text \<open>C23. The figures of a backtest are those of its sells: every sell gains what it filled over the
  budget before, which is the initial one and later the truncated fill of the sell before; the
  gains that are not negative add up to the gross profit and count as profit trades, the others, a
  gain that is not a number included, make the gross loss and the loss trades; the final budget is
  the truncated fill of the last sell, zero when there is none.\<close>

theorem results_are_of_sells:
  assumes "\<forall>r \<in> set results. br_candle r \<noteq> None"
  shows "\<exists>R. Results b m results = Ok R \<and>
    rt_gross_profit R = foldl fadd (Fin 0) (won (gains (tm_initial_budget m) (sell_fills results))) \<and>
    rt_gross_loss R = foldl fadd (Fin 0) (map fneg (lost (gains (tm_initial_budget m) (sell_fills results)))) \<and>
    rt_profit_trades R = of_nat (length (won (gains (tm_initial_budget m) (sell_fills results)))) \<and>
    rt_loss_trades R = of_nat (length (lost (gains (tm_initial_budget m) (sell_fills results)))) \<and>
    rt_final_budget R = (if sell_fills results = [] then Fin 0
      else TruncateFloat (last (sell_fills results)) tradeCurrencyPrecision)"
  by (rule results_of_sells[OF assms])

definition test_trade :: "string \<Rightarrow> rat \<Rightarrow> backtest_result" where
  "test_trade side q = empty_result\<lparr>br_candle := Some zero_candlestick, br_market_order :=
     Some \<lparr>mm_id = 0, mm_created_at = 0, mm_updated_at = 0, mm_trading_strategy_id = 1, mm_exchange_id = ''x'',
       mm_product = ProductBTCUSD, mm_side = side, mm_cost = Fin 1, mm_cost_currency = CurrencyUSD,
       mm_filled_size = Fin q, mm_size_currency = CurrencyUSD, mm_fees = Fin 0, mm_fees_currency = CurrencyUSD\<rparr>\<rparr>"

lemma results_are_of_sells_witness:
  "\<exists>R. Results test_backtester test_model [test_trade OrderBuy 1, test_trade OrderSell 105, test_trade OrderSell 90] = Ok R \<and>
    rt_gross_profit R = foldl fadd (Fin 0) (won (gains (Fin 100) [Fin 105, Fin 90])) \<and>
    rt_gross_loss R = foldl fadd (Fin 0) (map fneg (lost (gains (Fin 100) [Fin 105, Fin 90]))) \<and>
    rt_profit_trades R = of_nat (length (won (gains (Fin 100) [Fin 105, Fin 90]))) \<and>
    rt_loss_trades R = of_nat (length (lost (gains (Fin 100) [Fin 105, Fin 90]))) \<and>
    rt_final_budget R = TruncateFloat (Fin 90) tradeCurrencyPrecision"
proof -
  have "sell_fills [test_trade OrderBuy 1, test_trade OrderSell 105, test_trade OrderSell 90] = [Fin 105, Fin 90]"
    by (simp add: test_trade_def)
  moreover have "tm_initial_budget test_model = Fin 100"
    by (simp add: test_model_def)
  ultimately show ?thesis
    using results_are_of_sells[of "[test_trade OrderBuy 1, test_trade OrderSell 105, test_trade OrderSell 90]" test_backtester test_model]
    by (simp add: test_trade_def del: gains.simps)
qed

end
