(* ===== verification/Optimization.thy ===== *)
theory Optimization
  imports Backtesting Genome
begin

text \<open>
  \<open>optimization.go\<close>: the genomes the genetic library works on. A genome wraps a strategy and
  is scored by a backtest of a copy of the model. The backend all genomes share, the random
  source and \<open>uuid\<close> are the environment of the backtest.
\<close>

record genome_factory =
  gf_start :: time
  gf_end :: time
  gf_model :: trading_strategy_model

record backtester_genome =
  bg_start :: time
  bg_end :: time
  bg_model :: trading_strategy_model
  bg_strategy :: strategy

definition NewBacktesterGenomeFactory :: "time \<Rightarrow> time \<Rightarrow> trading_strategy_model \<Rightarrow> genome_factory" where
  "NewBacktesterGenomeFactory start end model = \<lparr>gf_start = start, gf_end = end, gf_model = model\<rparr>"

text \<open>\<open>None\<close> is the nil genome.\<close>

definition Generate :: "yaml_ops \<Rightarrow> 'g rng_ops \<Rightarrow> genome_factory \<Rightarrow> 'g \<Rightarrow> backtester_genome option go_result \<times> 'g" where
  "Generate y ops b g =
    (case Strategy y (gf_model b) of
       Ok s \<Rightarrow>
         let (s1, g1) = Rand ops s g
         in (Ok (Some \<lparr>bg_start = gf_start b, bg_end = gf_end b, bg_model = gf_model b, bg_strategy = s1\<rparr>), g1)
     | Err e \<Rightarrow> (Ok None, g)
     | Panic p \<Rightarrow> (Panic p, g)
     | Diverge \<Rightarrow> (Diverge, g))"

text \<open>The calculator of a new backtest, and the random source it is given.\<close>

definition new_world :: "'g \<Rightarrow> 'g backtest_world" where
  "new_world source = \<lparr>bw_current = empty_result, bw_results = [], bw_candles = [], bw_slippage = Fin 0,
     bw_index = - 1, bw_source = source\<rparr>"

definition score :: "backtest_results \<Rightarrow> f64 go_result" where
  "score results =
    (if feq (rt_final_budget results) (Fin 0) \<or> feq (rt_final_price results) (Fin 0) then Ok (Fin 0)
     else bind_result (SharpeRatio results) (\<lambda>r. Ok (fneg r)))"

text \<open>\<open>SetStrategy\<close> attaches the genome's own strategy to the copy of the model.\<close>

definition Evaluate :: "yaml_ops \<Rightarrow> 'g backtest_env \<Rightarrow> 'g \<Rightarrow> backtester_genome \<Rightarrow> f64 go_result \<times> backtester_genome" where
  "Evaluate y env source b =
    (case SetStrategy y (Copy (bg_model b)) (bg_strategy b) of (r, model, s1) \<Rightarrow>
       let b1 = b\<lparr>bg_strategy := s1\<rparr>
       in case r of
            Err e \<Rightarrow> (Ok (Fin 0), b1)
          | Panic p \<Rightarrow> (Panic p, b1)
          | Diverge \<Rightarrow> (Diverge, b1)
          | Ok _ \<Rightarrow>
              (case NewBacktester y (bg_start b) (bg_end b) model of
                 Err e \<Rightarrow> (Ok (Fin 0), b1)
               | Panic p \<Rightarrow> (Panic p, b1)
               | Diverge \<Rightarrow> (Diverge, b1)
               | Ok bt \<Rightarrow>
                   (case Backtest env bt (model, new_world source) of
                      (Err e, _) \<Rightarrow> (Ok (Fin 0), b1)
                    | (Panic p, _) \<Rightarrow> (Panic p, b1)
                    | (Diverge, _) \<Rightarrow> (Diverge, b1)
                    | (Ok _, (model1, w)) \<Rightarrow>
                        (bind_result (Results bt model1 (bw_results w)) score, b1))))"

definition genome_Mutate :: "'g rng_ops \<Rightarrow> backtester_genome \<Rightarrow> 'g \<Rightarrow> backtester_genome \<times> 'g" where
  "genome_Mutate ops b g = (case Mutate ops (bg_strategy b) g of (s, g1) \<Rightarrow> (b\<lparr>bg_strategy := s\<rparr>, g1))"

definition genome_Crossover :: "'g rng_ops \<Rightarrow> backtester_genome \<Rightarrow> backtester_genome \<Rightarrow> 'g \<Rightarrow>
    ((backtester_genome \<times> backtester_genome) \<times> 'g) go_result" where
  "genome_Crossover ops b cross g =
     bind_result (Crossover ops (bg_strategy b) (bg_strategy cross) g) (\<lambda>((c1, c2), g1).
       Ok ((\<lparr>bg_start = bg_start b, bg_end = bg_end b, bg_model = bg_model b, bg_strategy = c1\<rparr>,
            \<lparr>bg_start = bg_start b, bg_end = bg_end b, bg_model = bg_model b, bg_strategy = c2\<rparr>), g1))"

definition genome_Clone :: "backtester_genome \<Rightarrow> backtester_genome" where
  "genome_Clone b = \<lparr>bg_start = bg_start b, bg_end = bg_end b, bg_model = bg_model b, bg_strategy = Clone (bg_strategy b)\<rparr>"

end
