(* ===== verification/Optimization_Specs.thy ===== *)
theory Optimization_Specs
  imports Optimization Backtesting_Specs
begin

text \<open>
  The score of a genome: an evaluation always ends in a number, and which.
\<close>

lemma SharpeRatio_Ok: "\<exists>q. SharpeRatio R = Ok q"
  by (simp add: SharpeRatio_def stats_mean_def stats_standard_deviation_def stats_variance_def daily_increases_def Let_def)

lemma score_Ok: "\<exists>x. score R = Ok x"
  using SharpeRatio_Ok[of R] by (auto simp: score_def)

lemma score_without_sale: "rt_final_budget R = Fin 0 \<Longrightarrow> score R = Ok (Fin 0)"
  by (simp add: score_def feq_def)

lemma Results_Ok:
  assumes "\<forall>r \<in> set results. br_candle r \<noteq> None"
  shows "\<exists>R. Results b m results = Ok R \<and> (sell_fills results = [] \<longrightarrow> rt_final_budget R = Fin 0)"
  using results_of_sells[OF assms, of b m] by (auto split: if_splits)

lemma attached_SetTradingStrategy [simp]: "attached (SetTradingStrategy s)"
  by (cases s) simp_all

text \<open>The model an evaluation works on, and its backtester.\<close>

definition evaluated_model :: "yaml_ops \<Rightarrow> backtester_genome \<Rightarrow> trading_strategy_model" where
  "evaluated_model y b = fst (snd (SetStrategy y (Copy (bg_model b)) (bg_strategy b)))"

definition evaluated_backtester :: "yaml_ops \<Rightarrow> backtester_genome \<Rightarrow> backtester" where
  "evaluated_backtester y b = \<lparr>bt_start = bg_start b, bt_end = bg_end b, bt_model = evaluated_model y b,
     bt_strategy = SetTradingStrategy (bg_strategy b)\<rparr>"

lemma evaluated_fields:
  assumes "yaml_roundtrips y (bg_strategy b)"
  shows "SetStrategy y (Copy (bg_model b)) (bg_strategy b) = (Ok (), evaluated_model y b, SetTradingStrategy (bg_strategy b))"
    and "NewBacktester y (bg_start b) (bg_end b) (evaluated_model y b) = Ok (evaluated_backtester y b)"
    and "tm_product (evaluated_model y b) = tm_product (bg_model b)" and "tm_state (evaluated_model y b) = tm_state (bg_model b)"
    and "tm_tick_size_minutes (evaluated_model y b) = tm_tick_size_minutes (bg_model b)"
    and "tm_history_ticks (evaluated_model y b) = tm_history_ticks (bg_model b)"
proof -
  obtain r m s where e: "SetStrategy y (Copy (bg_model b)) (bg_strategy b) = (r, m, s)"
    by (cases "SetStrategy y (Copy (bg_model b)) (bg_strategy b)")
  note st = strategy_stored[OF assms e]
  have m: "m = evaluated_model y b"
    by (simp add: evaluated_model_def e)
  show "SetStrategy y (Copy (bg_model b)) (bg_strategy b) = (Ok (), evaluated_model y b, SetTradingStrategy (bg_strategy b))"
    using e st m by simp
  show "NewBacktester y (bg_start b) (bg_end b) (evaluated_model y b) = Ok (evaluated_backtester y b)"
    using st m by (simp add: NewBacktester_def evaluated_backtester_def)
  show "tm_product (evaluated_model y b) = tm_product (bg_model b)" "tm_state (evaluated_model y b) = tm_state (bg_model b)"
    "tm_tick_size_minutes (evaluated_model y b) = tm_tick_size_minutes (bg_model b)"
    "tm_history_ticks (evaluated_model y b) = tm_history_ticks (bg_model b)"
    by (subst (1) st(5)[folded m[symmetric], unfolded m], simp add: Copy_def)+
qed

text \<open>A backend that answers: candlesticks, no more than a slice can hold, or an error.\<close>

definition answers :: "'g backtest_env \<Rightarrow> bool" where
  "answers env \<longleftrightarrow> (\<forall>s e p k. (\<exists>cs. be_find env s e p k = Ok cs \<and> length cs < 2 ^ 62) \<or> (\<exists>err. be_find env s e p k = Err err))"

lemma Backtest_find_error:
  assumes "be_find env (actualStartTime b m) (bt_end b) (tm_product m) (sint (tm_tick_size_minutes m)) = Err e"
  shows "\<exists>e'. Backtest env b (m, w) = (Err e', (m, w))"
  using assms by (simp add: Backtest_def bind_act_def result_act_def Let_def)

text \<open>Scoring never fails: a genome whose strategy YAML reads back, on a model of a known product
  that is in one of the states of trading, gets a score whatever the backend answers; its strategy
  is attached to the copy of the model. The score is zero, when the backend fails or nothing was
  sold, or it is minus the Sharpe ratio of a backtest that ran to its end and sold.\<close>

theorem evaluation_scores:
  assumes "yaml_roundtrips y (bg_strategy b)" and "tm_product (bg_model b) \<in> dom ProductToMetadata"
    and "in_play (bg_model b)" and "wrap64 (sint (tm_tick_size_minutes (bg_model b)) * 60) \<noteq> 0" and "answers env"
  shows "\<exists>x. Evaluate y env source b = (Ok x, b\<lparr>bg_strategy := SetTradingStrategy (bg_strategy b)\<rparr>) \<and>
    (x = Fin 0 \<or> (\<exists>m w R q. Backtest env (evaluated_backtester y b) (evaluated_model y b, new_world source) = (Ok (), (m, w)) \<and>
       Results (evaluated_backtester y b) m (bw_results w) = Ok R \<and> sell_fills (bw_results w) \<noteq> [] \<and>
       SharpeRatio R = Ok q \<and> x = fneg q))"
proof -
  note ev = evaluated_fields[OF assms(1)]
  define bt m0 where "bt = evaluated_backtester y b" and "m0 = evaluated_model y b"
  have hyps: "attached (bt_strategy bt)" "tm_product m0 \<in> dom ProductToMetadata" "in_play m0"
    "wrap64 (sint (tm_tick_size_minutes m0) * 60) \<noteq> 0"
    using assms(2-4) ev(3-5) by (simp_all add: bt_def m0_def evaluated_backtester_def)
  have found: "(\<exists>cs. be_find env (actualStartTime bt m0) (bt_end bt) (tm_product m0) (sint (tm_tick_size_minutes m0)) = Ok cs \<and> length cs < 2 ^ 62) \<or>
      (\<exists>err. be_find env (actualStartTime bt m0) (bt_end bt) (tm_product m0) (sint (tm_tick_size_minutes m0)) = Err err)"
    using assms(5) by (simp add: answers_def)
  show ?thesis
  proof (cases "\<exists>err. be_find env (actualStartTime bt m0) (bt_end bt) (tm_product m0) (sint (tm_tick_size_minutes m0)) = Err err")
    case True
    then obtain e' where "Backtest env bt (m0, new_world source) = (Err e', (m0, new_world source))"
      using Backtest_find_error by blast
    then show ?thesis
      by (simp add: Evaluate_def ev bt_def m0_def)
  next
    case False
    then obtain cs where cs: "be_find env (actualStartTime bt m0) (bt_end bt) (tm_product m0) (sint (tm_tick_size_minutes m0)) = Ok cs"
      "length cs < 2 ^ 62"
      using found by blast
    obtain m1 w1 rs where run: "Backtest env bt (m0, new_world source) = (Ok (), (m1, w1))"
      and rs: "bw_results w1 = rs" "map br_candle rs = map (Some \<circ> snd) (backtest_sets (bt_strategy bt) cs)"
      using backtest_ends[OF hyps(1-3) cs(1) hyps(4) cs(2), of "new_world source"] by (auto simp: new_world_def)
    have "None \<notin> set (map br_candle rs)"
      unfolding rs(2) by auto
    then have "\<forall>r \<in> set (bw_results w1). br_candle r \<noteq> None"
      using rs(1) by (metis in_set_conv_nth length_map nth_map)
    then obtain R where R: "Results bt m1 (bw_results w1) = Ok R" "sell_fills (bw_results w1) = [] \<longrightarrow> rt_final_budget R = Fin 0"
      using Results_Ok by blast
    obtain q where q: "SharpeRatio R = Ok q"
      using SharpeRatio_Ok by blast
    obtain x where x: "score R = Ok x"
      using score_Ok by blast
    have "Evaluate y env source b = (Ok x, b\<lparr>bg_strategy := SetTradingStrategy (bg_strategy b)\<rparr>)"
      using run R x by (simp add: Evaluate_def ev bt_def m0_def)
    moreover have "x = Fin 0 \<or> x = fneg q"
      using x q by (auto simp: score_def split: if_splits)
    moreover have "x = Fin 0" if "sell_fills (bw_results w1) = []"
      using score_without_sale R(2) x that by auto
    ultimately show ?thesis
      using run R(1) q unfolding bt_def m0_def by blast
  qed
qed

definition test_genome :: backtester_genome where
  "test_genome = \<lparr>bg_start = 0, bg_end = 0, bg_model = test_model, bg_strategy = SRSI test_rsi\<rparr>"

lemma evaluation_scores_witness:
  "\<exists>x. Evaluate (one_strategy_yaml test_rsi) test_market 0 test_genome = (Ok x, test_genome\<lparr>bg_strategy := SetTradingStrategy (bg_strategy test_genome)\<rparr>) \<and>
    (x = Fin 0 \<or> (\<exists>m w R q. Backtest test_market (evaluated_backtester (one_strategy_yaml test_rsi) test_genome)
         (evaluated_model (one_strategy_yaml test_rsi) test_genome, new_world 0) = (Ok (), (m, w)) \<and>
       Results (evaluated_backtester (one_strategy_yaml test_rsi) test_genome) m (bw_results w) = Ok R \<and> sell_fills (bw_results w) \<noteq> [] \<and>
       SharpeRatio R = Ok q \<and> x = fneg q))"
  by (rule evaluation_scores)
    (simp_all add: test_genome_def test_model_def yaml_roundtrips_def one_strategy_yaml_def ProductToMetadata_def
      in_int64I answers_def test_market_def)

end
