(* ===== verification/Backend.thy ===== *)
theory Backend
  imports Candlesticks Trading
begin

text \<open>
  \<open>backend.go\<close> and \<open>cacheing_backend.go\<close>. A table of the database is the list of its rows, in
  any order, with the columns, keys and references of the schema in \<open>migrations.go\<close>; the
  statements in the source are run on it as SQL defines them. Each operation is given the
  answer of the connection: \<open>None\<close> when the statement ran, \<open>Some\<close> error when it did not, in
  which case no row changed. The clock that the hooks of the models read is an argument. A
  NULL time is the zero time, which is how the driver reads and writes it.
\<close>

section \<open>The database\<close>

record db =
  db_candles :: "candlestick list"
  db_orders :: "market_order_model list"
  db_strategies :: "trading_strategy_model list"
  db_candle_id :: int
  db_order_id :: int
  db_strategy_id :: int

definition statement :: "go_error option \<Rightarrow> string \<Rightarrow> 'a go_result \<Rightarrow> 'a go_result" where
  "statement failure msg r = wrap_err msg (case failure of Some e \<Rightarrow> Err e | None \<Rightarrow> r)"

definition ErrNoRows :: go_error where
  "ErrNoRows = Errorf ''pg: no rows in result set''"

text \<open>What \<open>Set\<close> lists, everything but the key, the end time and the id.\<close>

definition set_columns :: "candlestick \<Rightarrow> candlestick \<Rightarrow> candlestick" where
  "set_columns c r = r\<lparr>cs_low := cs_low c, cs_high := cs_high c, cs_open := cs_open c, cs_close := cs_close c,
     cs_volume := cs_volume c, cs_direction := cs_direction c, cs_product := cs_product c,
     cs_created_at := cs_created_at c, cs_updated_at := cs_updated_at c\<rparr>"

definition candle_key :: "candlestick \<Rightarrow> time \<times> product" where
  "candle_key c = (cs_start c, cs_product c)"

definition upsert_row :: "candlestick \<Rightarrow> candlestick list \<Rightarrow> candlestick list" where
  "upsert_row c rows =
    (if candle_key c \<in> candle_key ` set rows
     then map (\<lambda>r. if candle_key r = candle_key c then set_columns c r else r) rows
     else rows @ [c])"

definition UpsertCandlestick :: "go_error option \<Rightarrow> time \<Rightarrow> candlestick \<Rightarrow> (unit, db) act" where
  "UpsertCandlestick failure now c d =
    (statement failure ''error upserting candlestick'' (Ok ()),
     case failure of Some _ \<Rightarrow> d
     | None \<Rightarrow> d\<lparr>db_candles := upsert_row (c\<lparr>cs_created_at := now, cs_id := db_candle_id d\<rparr>) (db_candles d),
                db_candle_id := db_candle_id d + 1\<rparr>)"

definition row_by_id :: "('a \<Rightarrow> int) \<Rightarrow> int \<Rightarrow> 'a list \<Rightarrow> 'a go_result" where
  "row_by_id key i rows = (case List.find (\<lambda>r. key r = i) rows of Some r \<Rightarrow> Ok r | None \<Rightarrow> Err ErrNoRows)"

definition FindCandlestickByID :: "go_error option \<Rightarrow> int \<Rightarrow> (candlestick, db) act" where
  "FindCandlestickByID failure i d =
    (statement failure ''error finding candlestick'' (row_by_id cs_id i (db_candles d)), d)"

definition FindMostRecentCandlestick :: "go_error option \<Rightarrow> product \<Rightarrow> (candlestick, db) act" where
  "FindMostRecentCandlestick failure p d =
    (statement failure ''error finding most recent candlestick''
      (case rev (sort_key cs_start (filter (\<lambda>r. cs_product r = p) (db_candles d))) of
         r # _ \<Rightarrow> Ok r
       | [] \<Rightarrow> Err ErrNoRows), d)"

definition candles_between :: "time \<Rightarrow> time \<Rightarrow> product \<Rightarrow> candlestick list \<Rightarrow> candlestick list" where
  "candles_between s e p rows =
     sort_key cs_start (filter (\<lambda>r. s \<le> cs_start r \<and> cs_end r \<le> e \<and> cs_product r = p) rows)"

definition FindCandlesticks :: "go_error option \<Rightarrow> time \<Rightarrow> time \<Rightarrow> product \<Rightarrow> int \<Rightarrow> (candlestick list, db) act" where
  "FindCandlesticks failure s e p tick d =
    (bind_result (statement failure ''error finding candlesticks'' (Ok (candles_between s e p (db_candles d)))) (\<lambda>candles.
       wrap_err ''error projecting candlesticks'' (ReprojectCandlesticks candles p tick)), d)"

definition FindMarketOrderByID :: "go_error option \<Rightarrow> int \<Rightarrow> (market_order_model, db) act" where
  "FindMarketOrderByID failure i d =
    (statement failure ''error finding market order'' (row_by_id mm_id i (db_orders d)), d)"

text \<open>The foreign key: a strategy id that is given must exist. The driver leaves out a zero id.\<close>

definition CreateMarketOrder :: "go_error option \<Rightarrow> time \<Rightarrow> market_order_model \<Rightarrow> (unit, db) act" where
  "CreateMarketOrder failure now m d =
    (let violated = mm_trading_strategy_id m \<noteq> 0 \<and> mm_trading_strategy_id m \<notin> tm_id ` set (db_strategies d)
     in (statement failure ''error inserting market order''
           (if violated then Err (Errorf ''violates foreign key constraint'') else Ok ()),
         if failure = None \<and> \<not> violated
         then d\<lparr>db_orders := db_orders d @ [m\<lparr>mm_created_at := now, mm_id := db_order_id d\<rparr>],
                db_order_id := db_order_id d + 1\<rparr>
         else d))"

definition FindTradingStrategyByID :: "go_error option \<Rightarrow> int \<Rightarrow> (trading_strategy_model, db) act" where
  "FindTradingStrategyByID failure i d =
    (statement failure ''error finding trading strategy'' (row_by_id tm_id i (db_strategies d)), d)"

definition CreateTradingStrategy :: "go_error option \<Rightarrow> time \<Rightarrow> trading_strategy_model \<Rightarrow> (unit, db) act" where
  "CreateTradingStrategy failure now m d =
    (statement failure ''error inserting trading strategy'' (Ok ()),
     case failure of Some _ \<Rightarrow> d
     | None \<Rightarrow> d\<lparr>db_strategies := db_strategies d @ [m\<lparr>tm_created_at := now, tm_id := db_strategy_id d\<rparr>],
                db_strategy_id := db_strategy_id d + 1\<rparr>)"

definition UpdateTradingStrategy :: "go_error option \<Rightarrow> time \<Rightarrow> trading_strategy_model \<Rightarrow> (unit, db) act" where
  "UpdateTradingStrategy failure now m d =
    (statement failure ''error updating trading strategy'' (Ok ()),
     case failure of Some _ \<Rightarrow> d
     | None \<Rightarrow> d\<lparr>db_strategies := map (\<lambda>r. if tm_id r = tm_id m then m\<lparr>tm_updated_at := now\<rparr> else r) (db_strategies d)\<rparr>)"

definition FindActiveTradingStrategies :: "go_error option \<Rightarrow> product \<Rightarrow> (trading_strategy_model list, db) act" where
  "FindActiveTradingStrategies failure p d =
    (statement failure ''error finding active strategies''
      (Ok (filter (\<lambda>r. tm_product r = p \<and> is_zero_time (tm_deactivated_at r)) (db_strategies d))), d)"

section \<open>The cache\<close>

text \<open>\<open>Time.String\<close> is an argument. An answer is cached with its error, the table is read before
  the lock is taken; one call at a time is modelled.\<close>

definition show_int :: "int \<Rightarrow> string" where
  "show_int n = (if n < 0 then CHR ''-'' # show_nat (nat (- n)) else show_nat (nat n))"

definition cache_key :: "(time \<Rightarrow> string) \<Rightarrow> time \<Rightarrow> time \<Rightarrow> product \<Rightarrow> int \<Rightarrow> string" where
  "cache_key st s e p t =
     ''find-candlesticks-'' @ st s @ ''-'' @ st e @ ''-'' @ p @ ''-'' @ show_int t"

type_synonym 'w find_op = "time \<Rightarrow> time \<Rightarrow> product \<Rightarrow> int \<Rightarrow> (candlestick list, 'w) act"
type_synonym answer_cache = "string \<rightharpoonup> candlestick list go_result"

definition cached_FindCandlesticks :: "(time \<Rightarrow> string) \<Rightarrow> 'w find_op \<Rightarrow> time \<Rightarrow> time \<Rightarrow> product \<Rightarrow> int \<Rightarrow>
    (candlestick list, answer_cache \<times> 'w) act" where
  "cached_FindCandlesticks st backend s e p t cw =
    (let (cache, w) = cw; key = cache_key st s e p t
     in case cache key of
          Some r \<Rightarrow> (r, (cache, w))
        | None \<Rightarrow>
            (case backend s e p t w of
               (Ok cs, w1) \<Rightarrow> (Ok cs, (cache(key \<mapsto> Ok cs), w1))
             | (Err err, w1) \<Rightarrow> (Err err, (cache(key \<mapsto> Err err), w1))
             | (Panic m, w1) \<Rightarrow> (Panic m, (cache, w1))
             | (Diverge, w1) \<Rightarrow> (Diverge, (cache, w1))))"

end
