(* ===== verification/Backend_Specs.thy ===== *)
theory Backend_Specs
  imports Backend Candlestick_Specs Trading_Specs
begin

text \<open>
  The candlestick table as a map from starting time and product, the independence of a find
  from the order of the rows, and what the cache keeps.
\<close>

section \<open>The table as a map\<close>

text \<open>What a row says, without the columns of bookkeeping.\<close>

definition row_data :: "candlestick \<Rightarrow> candlestick" where
  "row_data r = r\<lparr>cs_id := 0, cs_created_at := zero_time, cs_updated_at := zero_time\<rparr>"

type_synonym candle_book = "time \<times> product \<rightharpoonup> candlestick"

definition book :: "db \<Rightarrow> candle_book" where
  "book d = map_of (map (\<lambda>r. (candle_key r, row_data r)) (db_candles d))"

definition unique_rows :: "db \<Rightarrow> bool" where
  "unique_rows d \<longleftrightarrow> distinct (map candle_key (db_candles d))"

text \<open>Storing a candlestick: what is stored for its key, but for the end that an older row had.\<close>

definition store_candle :: "candle_book \<Rightarrow> candlestick \<Rightarrow> candle_book" where
  "store_candle b c = b(candle_key c \<mapsto>
     (case b (candle_key c) of None \<Rightarrow> row_data c | Some old \<Rightarrow> (row_data c)\<lparr>cs_end := cs_end old\<rparr>))"

lemma row_data_simps [simp]:
  "candle_key (row_data c) = candle_key c" "row_data (row_data c) = row_data c"
  "row_data (c\<lparr>cs_created_at := t, cs_id := i\<rparr>) = row_data c" "cs_end (row_data c) = cs_end c"
  "candle_key (c\<lparr>cs_created_at := t, cs_id := i\<rparr>) = candle_key c"
  by (simp_all add: row_data_def candle_key_def)

lemma set_columns_simps [simp]:
  "candle_key r = candle_key c \<Longrightarrow> candle_key (set_columns c r) = candle_key c"
  "candle_key r = candle_key c \<Longrightarrow> row_data (set_columns c r) = (row_data c)\<lparr>cs_end := cs_end r\<rparr>"
  by (simp_all add: set_columns_def candle_key_def row_data_def)

lemma map_of_map_update:
  "map_of (map (\<lambda>r. (key (if key r = k then f r else r), val (if key r = k then f r else r))) rows) j =
     (if j = k then map_option (\<lambda>r. val (f r)) (map_of (map (\<lambda>r. (key r, r)) rows) k)
      else map_of (map (\<lambda>r. (key r, val r)) rows) j)"
  if "\<And>r. key r = k \<Longrightarrow> key (f r) = k"
  using that by (induction rows) auto

lemma map_of_data: "map_of (map (\<lambda>r. (key r, val r)) rows) k = map_option val (map_of (map (\<lambda>r. (key r, r)) rows) k)"
  by (induction rows) auto

lemma map_of_key: "map_of (map (\<lambda>r. (key r, r)) rows) k = Some r \<Longrightarrow> key r = k"
  by (induction rows) (auto split: if_splits)

lemma upsert_row_unique: "distinct (map candle_key rows) \<Longrightarrow> distinct (map candle_key (upsert_row c rows))"
proof -
  have "map candle_key (map (\<lambda>r. if candle_key r = candle_key c then set_columns c r else r) rows) = map candle_key rows"
    by simp
  then show "distinct (map candle_key rows) \<Longrightarrow> distinct (map candle_key (upsert_row c rows))"
    by (auto simp: upsert_row_def simp del: map_map)
qed

lemma upsert_book: "book (d\<lparr>db_candles := upsert_row c (db_candles d), db_candle_id := i\<rparr>) = store_candle (book d) c"
proof (rule ext)
  fix k
  define rows where "rows = db_candles d"
  show "book (d\<lparr>db_candles := upsert_row c (db_candles d), db_candle_id := i\<rparr>) k = store_candle (book d) c k"
  proof (cases "candle_key c \<in> candle_key ` set rows")
    case True
    then have "map_of (map (\<lambda>r. (candle_key r, r)) rows) (candle_key c) \<noteq> None"
      by (simp add: map_of_eq_None_iff image_image)
    then obtain r where r: "map_of (map (\<lambda>r. (candle_key r, r)) rows) (candle_key c) = Some r"
      by (cases "map_of (map (\<lambda>r. (candle_key r, r)) rows) (candle_key c)") simp_all
    then have old: "map_of (map (\<lambda>r. (candle_key r, row_data r)) rows) (candle_key c) = Some (row_data r)" "candle_key r = candle_key c"
      using map_of_key[OF r] by (simp_all add: r map_of_data[of candle_key row_data])
    have "map_of (map (\<lambda>r. (candle_key r, row_data r)) (upsert_row c rows)) k =
        map_of (map (\<lambda>r. (candle_key (if candle_key r = candle_key c then set_columns c r else r),
          row_data (if candle_key r = candle_key c then set_columns c r else r))) rows) k"
      using True by (simp add: upsert_row_def comp_def)
    also have "\<dots> = (if k = candle_key c then map_option (\<lambda>r. row_data (set_columns c r)) (Some r)
        else map_of (map (\<lambda>r. (candle_key r, row_data r)) rows) k)"
      by (subst map_of_map_update) (simp_all add: r)
    finally show ?thesis
      using old by (simp add: book_def store_candle_def flip: rows_def)
  next
    case False
    then have "map_of (map (\<lambda>r. (candle_key r, row_data r)) rows) (candle_key c) = None"
      by (simp add: map_of_eq_None_iff image_image)
    then show ?thesis
      using False by (auto simp: book_def store_candle_def upsert_row_def map_add_def simp flip: rows_def split: option.splits)
  qed
qed

lemma store_candle_keys: "store_candle b c k = (if k = candle_key c then store_candle b c (candle_key c) else b k)"
  by (simp add: store_candle_def)

text \<open>Candlesticks that agree where they have the same key, as those of overlapping requests do.\<close>

definition agreeing :: "candlestick list \<Rightarrow> bool" where
  "agreeing cs \<longleftrightarrow> (\<forall>c \<in> set cs. \<forall>c' \<in> set cs. candle_key c = candle_key c' \<longrightarrow> row_data c = row_data c')"

lemma store_all_at:
  assumes "agreeing cs"
  shows "foldl store_candle b cs k =
    (case List.find (\<lambda>c. candle_key c = k) cs of None \<Rightarrow> b k
     | Some c \<Rightarrow> Some (case b k of None \<Rightarrow> row_data c | Some old \<Rightarrow> (row_data c)\<lparr>cs_end := cs_end old\<rparr>))"
  using assms
proof (induction cs arbitrary: b)
  case (Cons c cs)
  have IH: "agreeing cs"
    using Cons.prems unfolding agreeing_def by (meson list.set_intros(2))
  show ?case
  proof (cases "candle_key c = k")
    case True
    show ?thesis
    proof (cases "List.find (\<lambda>c. candle_key c = k) cs")
      case None
      then show ?thesis
        using True Cons.IH[OF IH] by (simp add: store_candle_def split: option.split)
    next
      case (Some c')
      then have "c' \<in> set cs" "candle_key c' = k"
        by (auto simp: find_Some_iff)
      then have "row_data c' = row_data c"
        using Cons.prems True unfolding agreeing_def by (metis list.set_intros)
      then show ?thesis
        using Some True Cons.IH[OF IH] by (simp add: store_candle_def split: option.split)
    qed
  next
    case False
    then show ?thesis
      using Cons.IH[OF IH] by (simp add: store_candle_def split: option.splits)
  qed
qed simp

lemma store_again:
  assumes "agreeing cs"
  shows "foldl store_candle (foldl store_candle b cs) cs = foldl store_candle b cs"
  by (rule ext) (simp add: store_all_at[OF assms] split: option.splits)

section \<open>A store of candlesticks\<close>

text \<open>What the importers rely on: putting a candlestick into the store is \<open>store_candle\<close> on what it
  holds.\<close>

locale candle_store =
  fixes put :: "candlestick \<Rightarrow> 'd \<Rightarrow> 'd" and holds :: "'d \<Rightarrow> candle_book" and sound :: "'d \<Rightarrow> bool"
  assumes put_sound: "sound d \<Longrightarrow> sound (put c d)"
    and put_holds: "sound d \<Longrightarrow> holds (put c d) = store_candle (holds d) c"
begin

definition put_all :: "candlestick list \<Rightarrow> 'd \<Rightarrow> 'd" where
  "put_all cs d = foldl (\<lambda>d c. put c d) d cs"

lemma put_all_simps [simp]: "put_all [] d = d" "put_all (c # cs) d = put_all cs (put c d)"
  by (simp_all add: put_all_def)

lemma put_all_sound: "sound d \<Longrightarrow> sound (put_all cs d)"
  by (induction cs arbitrary: d) (simp_all add: put_sound)

lemma put_all_holds: "sound d \<Longrightarrow> holds (put_all cs d) = foldl store_candle (holds d) cs"
  by (induction cs arbitrary: d) (simp_all add: put_sound put_holds)

text \<open>Putting the same candlesticks again changes nothing that is held.\<close>

lemma put_all_again:
  assumes "sound d" and "agreeing cs"
  shows "holds (put_all cs (put_all cs d)) = holds (put_all cs d)"
  using assms by (simp add: put_all_holds put_all_sound store_again)

end

definition upsert :: "time \<Rightarrow> candlestick \<Rightarrow> db \<Rightarrow> db" where
  "upsert now c d = snd (UpsertCandlestick None now c d)"

lemma upsert_refines:
  shows "unique_rows d \<Longrightarrow> unique_rows (upsert now c d)"
    and "book (upsert now c d) = store_candle (book d) c"
proof -
  show "unique_rows d \<Longrightarrow> unique_rows (upsert now c d)"
    by (simp add: upsert_def UpsertCandlestick_def unique_rows_def upsert_row_unique)
  show "book (upsert now c d) = store_candle (book d) c"
    using upsert_book[where d = d and c = "c\<lparr>cs_created_at := now, cs_id := db_candle_id d\<rparr>" and i = "db_candle_id d + 1"]
    by (simp add: upsert_def UpsertCandlestick_def store_candle_def row_data_def cong: option.case_cong)
qed

interpretation db: candle_store "upsert now" book unique_rows for now
  by unfold_locales (simp_all add: upsert_refines)

section \<open>Finding candlesticks\<close>

lemma sort_key_set_eq:
  assumes "set xs = set ys" and "distinct (map f xs)" and "distinct (map f ys)"
  shows "sort_key f xs = sort_key f ys"
proof (rule map_inj_on)
  have "distinct (map f (sort_key f zs))" if "distinct (map f zs)" for zs
    using that by (simp add: distinct_map)
  then show "map f (sort_key f xs) = map f (sort_key f ys)"
    using assms by (intro sorted_distinct_set_unique) simp_all
  show "inj_on f (set (sort_key f xs) \<union> set (sort_key f ys))"
    using assms by (simp add: distinct_map)
qed

lemma unique_starts:
  "distinct (map candle_key rows) \<Longrightarrow> distinct (map cs_start (filter (\<lambda>r. s \<le> cs_start r \<and> cs_end r \<le> e \<and> cs_product r = p) rows))"
  by (induction rows) (auto simp: candle_key_def image_iff)

lemma find_order_free:
  assumes "set (db_candles d) = set (db_candles d')" and "unique_rows d" and "unique_rows d'"
  shows "candles_between s e p (db_candles d) = candles_between s e p (db_candles d')"
  unfolding candles_between_def
  using assms unfolding unique_rows_def
  by (intro sort_key_set_eq unique_starts) simp_all

section \<open>The cache\<close>

text \<open>A printed time is never the beginning of another one with the key going on behind it: what
  \<open>Time.String\<close>, which ends in the zone, is documented to print for times of one zone.\<close>

definition time_strings :: "(time \<Rightarrow> string) \<Rightarrow> bool" where
  "time_strings st \<longleftrightarrow> (\<forall>a b x y. st a @ x = st b @ y \<longrightarrow> a = b)"

lemma digits_no_dash: "CHR ''-'' \<notin> set (show_nat n)"
  using show_nat_digits[of "CHR ''-''" n] by auto

lemma split_last_dash:
  assumes "p @ CHR ''-'' # x = q @ CHR ''-'' # y" and "CHR ''-'' \<notin> set x" and "CHR ''-'' \<notin> set y"
  shows "p = q \<and> x = y"
proof -
  have split: "takeWhile (\<lambda>c. c \<noteq> CHR ''-'') (rev (p @ CHR ''-'' # x)) = rev x" if "CHR ''-'' \<notin> set x" for p x
  proof -
    have "takeWhile (\<lambda>c. c \<noteq> CHR ''-'') (z @ CHR ''-'' # y) = z" if "CHR ''-'' \<notin> set z" for z y
      using that by (induction z) auto
    then show ?thesis
      using that by simp
  qed
  have "rev x = rev y"
    using split[OF assms(2), of p] split[OF assms(3), of q] assms(1) by simp
  then show ?thesis
    using assms(1) by simp
qed

lemma cache_key_inj:
  assumes "time_strings st" and "cache_key st s e p t = cache_key st s' e' p' t'" and "0 \<le> t" and "0 \<le> t'"
  shows "s = s' \<and> e = e' \<and> p = p' \<and> t = t'"
proof -
  have same: "a = b" if "st a @ x = st b @ y" for a b x y
    using assms(1) that by (auto simp: time_strings_def)
  have "st s @ ''-'' @ st e @ ''-'' @ p @ ''-'' @ show_int t = st s' @ ''-'' @ st e' @ ''-'' @ p' @ ''-'' @ show_int t'"
    using assms(2) by (simp add: cache_key_def)
  moreover from same[OF this] have s: "s = s'" .
  ultimately have "st e @ ''-'' @ p @ ''-'' @ show_int t = st e' @ ''-'' @ p' @ ''-'' @ show_int t'"
    by simp
  moreover from same[OF this] have e: "e = e'" .
  ultimately have "p @ CHR ''-'' # show_nat (nat t) = p' @ CHR ''-'' # show_nat (nat t')"
    using assms(3,4) by (simp add: show_int_def)
  then have "p = p' \<and> show_nat (nat t) = show_nat (nat t')"
    by (rule split_last_dash) (rule digits_no_dash)+
  then show ?thesis
    using s e show_nat_inj[of "nat t" "nat t'"] assms(3,4) by simp
qed

text \<open>A run of queries, each on the state the one before left.\<close>

type_synonym candle_query = "time \<times> time \<times> product \<times> int"

fun ask_all :: "'w find_op \<Rightarrow> candle_query list \<Rightarrow> 'w \<Rightarrow> candlestick list go_result list \<times> 'w" where
  "ask_all f [] w = ([], w)"
| "ask_all f ((s, e, p, t) # qs) w = (case f s e p t w of (r, w1) \<Rightarrow> case ask_all f qs w1 of (rs, w2) \<Rightarrow> (r # rs, w2))"

fun is_answer :: "'a go_result \<Rightarrow> bool" where
  "is_answer (Ok _) = True"
| "is_answer (Err _) = True"
| "is_answer _ = False"

definition read_only :: "'w find_op \<Rightarrow> bool" where
  "read_only f \<longleftrightarrow> (\<forall>s e p t w. snd (f s e p t w) = w)"

definition answer_of :: "'w find_op \<Rightarrow> 'w \<Rightarrow> candle_query \<Rightarrow> candlestick list go_result" where
  "answer_of f w q = (case q of (s, e, p, t) \<Rightarrow> fst (f s e p t w))"

lemma cached_step:
  assumes "time_strings st" and "read_only f" and "0 \<le> t" and "\<forall>k r. cache k = Some r \<longrightarrow>
      (\<exists>s e p t. 0 \<le> t \<and> k = cache_key st s e p t \<and> r = answer_of f w (s, e, p, t))"
  shows "\<exists>cache'. cached_FindCandlesticks st f s e p t (cache, w) = (answer_of f w (s, e, p, t), (cache', w)) \<and>
    (\<forall>k r. cache' k = Some r \<longrightarrow> (\<exists>s e p t. 0 \<le> t \<and> k = cache_key st s e p t \<and> r = answer_of f w (s, e, p, t)))"
proof (cases "cache (cache_key st s e p t)")
  case None
  obtain r where r: "f s e p t w = (r, w)"
    using assms(2) unfolding read_only_def by (metis prod.collapse)
  then have "answer_of f w (s, e, p, t) = r"
    by (simp add: answer_of_def)
  then show ?thesis
    using None assms(3,4) r
    by (cases r) (fastforce simp: cached_FindCandlesticks_def)+
next
  case (Some r)
  then obtain s' e' p' t' where "0 \<le> t'" "cache_key st s e p t = cache_key st s' e' p' t'" "r = answer_of f w (s', e', p', t')"
    using assms(4) by blast
  then have "r = answer_of f w (s, e, p, t)"
    using cache_key_inj[OF assms(1) _ assms(3)] by metis
  then show ?thesis
    using Some assms(4) by (simp add: cached_FindCandlesticks_def)
qed

lemma cached_all:
  assumes "time_strings st" and "read_only f" and "\<forall>(s, e, p, t) \<in> set qs. 0 \<le> t" and "\<forall>k r. cache k = Some r \<longrightarrow>
      (\<exists>s e p t. 0 \<le> t \<and> k = cache_key st s e p t \<and> r = answer_of f w (s, e, p, t))"
  shows "\<exists>cache'. ask_all (cached_FindCandlesticks st f) qs (cache, w) = (map (answer_of f w) qs, (cache', w))"
  using assms(3,4)
proof (induction qs arbitrary: cache)
  case (Cons q qs)
  obtain s e p t where q: "q = (s, e, p, t)"
    by (cases q) auto
  then obtain cache1 where "cached_FindCandlesticks st f s e p t (cache, w) = (answer_of f w (s, e, p, t), (cache1, w))"
    and "\<forall>k r. cache1 k = Some r \<longrightarrow> (\<exists>s e p t. 0 \<le> t \<and> k = cache_key st s e p t \<and> r = answer_of f w (s, e, p, t))"
    using cached_step[OF assms(1,2) _ Cons.prems(2), of t s e p] Cons.prems(1) by auto
  then show ?case
    using Cons.IH[of cache1] Cons.prems(1) by (auto simp: q)
qed simp

section \<open>Properties\<close>

definition one_candle_db :: db where
  "one_candle_db = \<lparr>db_candles = [minute_candle 0 5], db_orders = [], db_strategies = [],
     db_candle_id = 2, db_order_id = 1, db_strategy_id = 1\<rparr>"

text \<open>C8. The table of candlesticks is a map from starting time and product: an upsert, when its
  statement runs, is an update of that map at the key of the candlestick, which keeps the end of an
  older row, and leaves one row for each key; when the statement fails nothing changes and the
  error is answered.\<close>

theorem upsert_refines_map:
  assumes "unique_rows d"
  shows "fst (UpsertCandlestick None now c d) = Ok () \<and> unique_rows (snd (UpsertCandlestick None now c d)) \<and>
    book (snd (UpsertCandlestick None now c d)) = store_candle (book d) c \<and>
    UpsertCandlestick (Some e) now c d = (Err (Wrapf e ''error upserting candlestick''), d)"
  using upsert_refines[where d = d and now = now and c = c] assms by (simp add: upsert_def) (simp add: UpsertCandlestick_def statement_def)

lemma upsert_refines_map_witness:
  "fst (UpsertCandlestick None 5 (minute_candle 0 7) one_candle_db) = Ok () \<and>
   unique_rows (snd (UpsertCandlestick None 5 (minute_candle 0 7) one_candle_db)) \<and>
   book (snd (UpsertCandlestick None 5 (minute_candle 0 7) one_candle_db)) =
     store_candle (book one_candle_db) (minute_candle 0 7) \<and>
   UpsertCandlestick (Some (Errorf ''down'')) 5 (minute_candle 0 7) one_candle_db =
     (Err (Wrapf (Errorf ''down'') ''error upserting candlestick''), one_candle_db)"
  by (rule upsert_refines_map) (simp add: unique_rows_def one_candle_db_def)

text \<open>What a find answers does not depend on the order in which the candlesticks came into the
  table, as long as there is one row for each key.\<close>

theorem find_ignores_arrival:
  assumes "set (db_candles d) = set (db_candles d')" and "unique_rows d" and "unique_rows d'"
  shows "fst (FindCandlesticks failure s e p tick d) = fst (FindCandlesticks failure s e p tick d')"
  using find_order_free[OF assms, of s e p] by (simp add: FindCandlesticks_def)

lemma find_ignores_arrival_witness:
  "fst (FindCandlesticks None 0 (10 ^ 20) ProductBTCUSD 2 \<lparr>db_candles = [minute_candle 0 5, minute_candle 1 7], db_orders = [],
      db_strategies = [], db_candle_id = 3, db_order_id = 1, db_strategy_id = 1\<rparr>) =
   fst (FindCandlesticks None 0 (10 ^ 20) ProductBTCUSD 2 \<lparr>db_candles = [minute_candle 1 7, minute_candle 0 5], db_orders = [],
      db_strategies = [], db_candle_id = 3, db_order_id = 1, db_strategy_id = 1\<rparr>)"
  by (rule find_ignores_arrival) (auto simp: unique_rows_def candle_key_def minute_candle_def minute_def)

text \<open>C34. The cache is transparent: over a backend that only reads, any run of queries through a new
  cache has the answers the backend itself gives, errors included. The keys never mix up two
  queries, for tick sizes that are not negative.\<close>

theorem cache_is_transparent:
  assumes "time_strings st" and "read_only f" and "\<forall>(s, e, p, t) \<in> set qs. 0 \<le> t"
  shows "fst (ask_all (cached_FindCandlesticks st f) qs (Map.empty, w)) = map (answer_of f w) qs"
  using cached_all[OF assms, of Map.empty w] by auto

definition unary_time :: "time \<Rightarrow> string" where
  "unary_time t = (if 0 \<le> t then CHR ''+'' else CHR ''m'') # replicate (nat \<bar>t\<bar>) CHR ''1'' @ '' UTC''"

lemma unary_times: "time_strings unary_time"
proof -
  have "i = j" if "replicate i CHR ''1'' @ '' UTC'' @ x = replicate j CHR ''1'' @ '' UTC'' @ y" for i j x y
    using that
  proof (induction i arbitrary: j)
    case 0
    then show ?case by (cases j) simp_all
  next
    case (Suc i)
    then show ?case by (cases j) simp_all
  qed
  then have "nat \<bar>a\<bar> = nat \<bar>b\<bar>" if "replicate (nat \<bar>a\<bar>) CHR ''1'' @ '' UTC'' @ x = replicate (nat \<bar>b\<bar>) CHR ''1'' @ '' UTC'' @ y" for a b :: int and x y
    using that by blast
  then have same: "nat \<bar>a\<bar> = nat \<bar>b\<bar>" if "unary_time a @ x = unary_time b @ y" for a b x y
    using that unfolding unary_time_def append_Cons append_assoc list.inject by blast
  have sign: "0 \<le> a \<longleftrightarrow> 0 \<le> b" if "unary_time a @ x = unary_time b @ y" for a b x y
    using that unfolding unary_time_def append_Cons list.inject by (simp split: if_splits)
  have "a = b" if "unary_time a @ x = unary_time b @ y" for a b x y
    using same[OF that] sign[OF that] by linarith
  then show ?thesis
    unfolding time_strings_def by blast
qed

lemma cache_is_transparent_witness:
  "fst (ask_all (cached_FindCandlesticks unary_time (FindCandlesticks None)) [(0, 2, ProductBTCUSD, 5), (0, 2, ProductBTCUSD, 5)]
     (Map.empty, one_candle_db)) =
   map (answer_of (FindCandlesticks None)
     one_candle_db)
     [(0, 2, ProductBTCUSD, 5), (0, 2, ProductBTCUSD, 5)]"
  by (rule cache_is_transparent[OF unary_times]) (simp_all add: read_only_def FindCandlesticks_def)

text \<open>The cache never forgets: the first answer to a query, an error too, is the answer to the same
  query ever after, whatever the backend has become; the backend is not asked again.\<close>

theorem cache_keeps_first_answer:
  assumes "cached_FindCandlesticks st f s e p t (cache, w) = (r, (cache1, w1))" and "is_answer r"
  shows "cached_FindCandlesticks st f' s e p t (cache1, w') = (r, (cache1, w'))"
  using assms by (auto simp: cached_FindCandlesticks_def Let_def split: option.splits go_result.splits prod.splits)

lemma cache_keeps_first_answer_witness:
  "cached_FindCandlesticks unary_time (FindCandlesticks None) 0 2 ProductBTCUSD 5
     (snd (cached_FindCandlesticks unary_time (FindCandlesticks (Some (Errorf ''connection lost''))) 0 2 ProductBTCUSD 5 (Map.empty, one_candle_db))) =
   (Err (Wrapf (Errorf ''connection lost'') ''error finding candlesticks''),
     snd (cached_FindCandlesticks unary_time (FindCandlesticks (Some (Errorf ''connection lost''))) 0 2 ProductBTCUSD 5 (Map.empty, one_candle_db)))"
proof -
  have first: "cached_FindCandlesticks unary_time (FindCandlesticks (Some (Errorf ''connection lost''))) 0 2 ProductBTCUSD 5 (Map.empty, one_candle_db) =
      (Err (Wrapf (Errorf ''connection lost'') ''error finding candlesticks''),
        ([cache_key unary_time 0 2 ProductBTCUSD 5 \<mapsto> Err (Wrapf (Errorf ''connection lost'') ''error finding candlesticks'')], one_candle_db))"
    by (simp add: cached_FindCandlesticks_def FindCandlesticks_def statement_def)
  show ?thesis
    using cache_keeps_first_answer[OF first, of "FindCandlesticks None" one_candle_db] by (simp add: first)
qed

end
