(* ===== verification/Bot.thy ===== *)
theory Bot
  imports Candlesticks Trading
begin

text \<open>
  \<open>bot.go\<close>: the bot polls for a new candlestick, rebuilds its strategies from the database and
  runs those that are due. The state of an operation is the bot beside the world; the services
  (database, exchange, clock) are a parameter, as in \<open>Trading\<close>. The messages it posts are in \<open>Notifications\<close>.
\<close>

record bot =
  bo_current :: "candlestick option"
  bo_models :: "trading_strategy_model list"
  bo_strategies :: "trading_strategy list"
  bo_product :: product

definition NewBot :: "product \<Rightarrow> bot" where
  "NewBot p = \<lparr>bo_current = None, bo_models = [], bo_strategies = [], bo_product = p\<rparr>"

section \<open>Loading the strategies\<close>

fun seed_candles :: "candlestick list \<Rightarrow> trading_strategy \<Rightarrow> unit go_result \<times> trading_strategy" where
  "seed_candles [] s = (Ok (), s)"
| "seed_candles (c # cs) s =
    (case SeedIndicators s c of
       (Ok _, s1) \<Rightarrow> seed_candles cs s1
     | (r, s1) \<Rightarrow> (wrap_err ''error seeding strategy indicators'' r, s1))"

definition historyStart :: "trading_strategy_model \<Rightarrow> time \<Rightarrow> time" where
  "historyStart m t = time_add t
     (duration_mul (duration_mul (wrap64 (- sint (tm_history_ticks m))) (sint (tm_tick_size_minutes m))) minute)"

definition add_strategy :: "trading_strategy_model \<Rightarrow> trading_strategy \<Rightarrow> bot \<Rightarrow> bot" where
  "add_strategy m s b = b\<lparr>bo_models := bo_models b @ [m], bo_strategies := bo_strategies b @ [s]\<rparr>"

fun load_strategies :: "yaml_ops \<Rightarrow> 'w services \<Rightarrow> time \<Rightarrow> trading_strategy_model list \<Rightarrow> (unit, bot \<times> 'w) act" where
  "load_strategies y sv t [] = result_act (Ok ())"
| "load_strategies y sv t (m # ms) =
    bind_act (result_act (wrap_err ''error extracting strategy from model'' (Strategy y m))) (\<lambda>meta.
    bind_act (on_world (wrap_act ''error finding candlesticks for strategy''
      (sv_find_candles sv (historyStart m t) t (tm_product m) (sint (tm_tick_size_minutes m))))) (\<lambda>candles.
    case seed_candles candles (NewTradingStrategy meta) of
      (r, service) \<Rightarrow> bind_act (result_act r) (\<lambda>_ (b, w). load_strategies y sv t ms (add_strategy m service b, w))))"

definition initializeStrategies :: "yaml_ops \<Rightarrow> 'w services \<Rightarrow> time \<Rightarrow> (unit, bot \<times> 'w) act" where
  "initializeStrategies y sv t =
    bind_act get_model (\<lambda>b0.
    bind_act (on_world (wrap_act ''error finding active trading strategies'' (sv_active_strategies sv (bo_product b0)))) (\<lambda>ms (b, w).
      load_strategies y sv t ms (b\<lparr>bo_strategies := [], bo_models := []\<rparr>, w)))"

section \<open>The tick of one strategy\<close>

text \<open>Whether there are complete ticks to seed: the conversion to \<open>uint\<close> and the remainder by a
  tick size of zero as Go has them.\<close>

definition seeds_first :: "trading_strategy_model \<Rightarrow> trading_strategy \<Rightarrow> time \<Rightarrow> bool go_result" where
  "seeds_first m s t =
    (if is_zero_time (ts_last_candle s) \<or> \<not> ts_last_candle s < t then Ok False
     else if tm_tick_size_minutes m = 0 then Panic ''integer divide by zero''
     else Ok (u64_of_float (duration_minutes (time_sub t (ts_last_candle s))) mod tm_tick_size_minutes m = 0))"

definition seed_service :: "'w services \<Rightarrow> time \<Rightarrow> (unit, (trading_strategy_model \<times> trading_strategy) \<times> 'w) act" where
  "seed_service sv t =
    bind_act get_model (\<lambda>(m, s).
    bind_act (on_world (wrap_act ''error finding candlesticks''
      (sv_find_candles sv (ts_last_candle s) t (tm_product m) (sint (tm_tick_size_minutes m))))) (\<lambda>candles.
    case seed_candles candles s of (r, s1) \<Rightarrow> bind_act (put_model (m, s1)) (\<lambda>_. result_act r)))"

definition run_service :: "'w services \<Rightarrow> (unit go_result, (trading_strategy_model \<times> trading_strategy) \<times> 'w) act" where
  "run_service sv st =
    (case st of ((m, s), w) \<Rightarrow> case ProcessTick sv s (m, w) of (r, (m1, w1)) \<Rightarrow> (Ok r, ((m1, s), w1)))"

definition save_model :: "'w services \<Rightarrow> trading_strategy_model \<Rightarrow> (unit, (trading_strategy_model \<times> trading_strategy) \<times> 'w) act" where
  "save_model sv m =
    bind_act get_model (\<lambda>(_, s).
    bind_act (put_model (m, s)) (\<lambda>_.
    on_world (wrap_act ''error updating trading strategy ticks'' (sv_update_strategy sv m))))"

definition nextTickAt :: "trading_strategy_model \<Rightarrow> time \<Rightarrow> time go_result" where
  "nextTickAt m t = bind_result (CandlestickBucket t (sint (tm_tick_size_minutes m))) (\<lambda>bucket.
     Ok (time_add bucket (duration_mul (sint (tm_tick_size_minutes m)) minute)))"

text \<open>What follows the tick of the engine.\<close>

definition finish_tick :: "'w services \<Rightarrow> time \<Rightarrow> unit go_result \<Rightarrow> (unit, (trading_strategy_model \<times> trading_strategy) \<times> 'w) act" where
  "finish_tick sv t r =
    bind_act get_model (\<lambda>(m, _).
    case r of
      Err e \<Rightarrow>
        if cause e = ErrNotEnoughData then save_model sv (m\<lparr>tm_deactivated_at := t\<rparr>)
        else result_act (Err (Wrapf e ''error processing strategy tick''))
    | Ok _ \<Rightarrow>
        bind_act (result_act (nextTickAt m t)) (\<lambda>nxt.
        save_model sv (m\<lparr>tm_last_tick_at := t, tm_next_tick_at := nxt\<rparr>))
    | Panic p \<Rightarrow> result_act (Panic p)
    | Diverge \<Rightarrow> result_act Diverge)"

definition processTick :: "'w services \<Rightarrow> time \<Rightarrow> (unit, (trading_strategy_model \<times> trading_strategy) \<times> 'w) act" where
  "processTick sv t =
    bind_act get_model (\<lambda>(m, s).
    bind_act (result_act (seeds_first m s t)) (\<lambda>seed.
    bind_act (if seed then seed_service sv t else result_act (Ok ())) (\<lambda>_.
    bind_act (run_service sv) (finish_tick sv t))))"

section \<open>The tick of the bot\<close>

definition due :: "trading_strategy_model \<Rightarrow> time \<Rightarrow> bool" where
  "due m t \<longleftrightarrow> \<not> (is_zero_time (tm_next_tick_at m) \<or> \<not> is_zero_time (tm_deactivated_at m)) \<and> tm_next_tick_at m \<le> t"

text \<open>The loop over models and strategies: an error of one ends it.\<close>

fun tick_loop :: "'w services \<Rightarrow> time \<Rightarrow> (trading_strategy_model \<times> trading_strategy) list \<Rightarrow> 'w \<Rightarrow>
    unit go_result \<times> (trading_strategy_model \<times> trading_strategy) list \<times> 'w" where
  "tick_loop sv t [] w = (Ok (), [], w)"
| "tick_loop sv t (ms # rest) w =
    (if due (fst ms) t then
       (case processTick sv t (ms, w) of
          (Ok _, (ms1, w1)) \<Rightarrow> (case tick_loop sv t rest w1 of (r, rest1, w2) \<Rightarrow> (r, ms1 # rest1, w2))
        | (r, (ms1, w1)) \<Rightarrow> (wrap_err ''error processing tick for strategy'' r, ms1 # rest, w1))
     else (case tick_loop sv t rest w of (r, rest1, w2) \<Rightarrow> (r, ms # rest1, w2)))"

definition bot_ProcessTick :: "yaml_ops \<Rightarrow> 'w services \<Rightarrow> time \<Rightarrow> (unit, bot \<times> 'w) act" where
  "bot_ProcessTick y sv t =
    bind_act (wrap_act ''error initializing strategies'' (initializeStrategies y sv t)) (\<lambda>_ (b, w).
      case tick_loop sv t (zip (bo_models b) (bo_strategies b)) w of
        (r, pairs, w1) \<Rightarrow> (r, (b\<lparr>bo_models := map fst pairs, bo_strategies := map snd pairs\<rparr>, w1)))"

definition is_new :: "bot \<Rightarrow> candlestick \<Rightarrow> bool" where
  "is_new b c \<longleftrightarrow> (case bo_current b of None \<Rightarrow> True | Some cur \<Rightarrow> cs_id c \<noteq> cs_id cur)"

definition ProcessTickForNewCandlestick :: "yaml_ops \<Rightarrow> 'w services \<Rightarrow> (unit, bot \<times> 'w) act" where
  "ProcessTickForNewCandlestick y sv =
    bind_act get_model (\<lambda>b0.
    bind_act (on_world (wrap_act ''error finding next candlestick'' (sv_recent_candle sv (bo_product b0)))) (\<lambda>nextCandlestick.
    bind_act (if is_new b0 nextCandlestick
              then wrap_act ''error processing candlestick'' (bot_ProcessTick y sv (cs_end nextCandlestick))
              else result_act (Ok ())) (\<lambda>_ (b, w).
      (Ok (), (b\<lparr>bo_current := Some nextCandlestick\<rparr>, w)))))"

text \<open>\<open>Run\<close>, cancelled at the check after \<open>n\<close> polls; an error is logged, a panic ends the program.\<close>

fun Run :: "yaml_ops \<Rightarrow> 'w services \<Rightarrow> nat \<Rightarrow> (unit, bot \<times> 'w) act" where
  "Run y sv 0 s = (Ok (), s)"
| "Run y sv (Suc n) s =
    (case ProcessTickForNewCandlestick y sv s of
       (Ok _, s1) \<Rightarrow> Run y sv n s1
     | (Err _, s1) \<Rightarrow> Run y sv n s1
     | (Panic p, s1) \<Rightarrow> (Panic p, s1)
     | (Diverge, s1) \<Rightarrow> (Diverge, s1))"

end
