(* ===== verification/Bot_Specs.thy ===== *)
theory Bot_Specs
  imports Bot Backend_Specs Backtesting_Specs
begin

text \<open>
  The bot over any services: what an action keeps of an invariant of the world, stated once as
  a locale and interpreted on the services that a deployment has, the database of \<open>Backend\<close>
  and an exchange that may answer anything; when a strategy runs next; how polls and failures
  of strategies go together.
\<close>

section \<open>Actions that keep an invariant\<close>

named_theorems keeps_intros \<open>introduction rules for actions that keep an invariant\<close>

definition keeps :: "('s \<Rightarrow> bool) \<Rightarrow> ('a, 's) act \<Rightarrow> bool" where
  "keeps I a \<longleftrightarrow> (\<forall>s. I s \<longrightarrow> I (snd (a s)))"

lemma keepsD: "keeps I a \<Longrightarrow> I s \<Longrightarrow> a s = (r, s1) \<Longrightarrow> I s1"
  by (metis keeps_def snd_conv)

lemma keeps_result [keeps_intros]: "keeps I (result_act r)"
  by (simp add: keeps_def)

lemma keeps_wrap [keeps_intros]: "keeps I a \<Longrightarrow> keeps I (wrap_act msg a)"
  by (simp add: keeps_def)

lemma keeps_bind [keeps_intros]: "keeps I a \<Longrightarrow> (\<And>x. keeps I (f x)) \<Longrightarrow> keeps I (bind_act a f)"
  unfolding keeps_def by (metis snd_bind_act)

lemma keeps_if [keeps_intros]: "keeps I a \<Longrightarrow> keeps I b \<Longrightarrow> keeps I (if P then a else b)"
  by simp

lemma keeps_prod [keeps_intros]: "(\<And>a b. x = (a, b) \<Longrightarrow> keeps I (f a b)) \<Longrightarrow> keeps I (case x of (a, b) \<Rightarrow> f a b)"
  by (cases x) simp

lemma keeps_case_result [keeps_intros]:
  "(\<And>a. keeps I (f a)) \<Longrightarrow> (\<And>e. keeps I (g e)) \<Longrightarrow> (\<And>p. keeps I (h p)) \<Longrightarrow> keeps I k \<Longrightarrow>
    keeps I (case r of Ok a \<Rightarrow> f a | Err e \<Rightarrow> g e | Panic p \<Rightarrow> h p | Diverge \<Rightarrow> k)"
  by (cases r) simp_all

text \<open>The model beside the world.\<close>

definition with_model :: "('m \<Rightarrow> bool) \<Rightarrow> ('w \<Rightarrow> bool) \<Rightarrow> 'm \<times> 'w \<Rightarrow> bool" where
  "with_model P J s \<longleftrightarrow> P (fst s) \<and> J (snd s)"

lemma keeps_get [keeps_intros]:
  "(\<And>m. P m \<Longrightarrow> keeps (with_model P J) (f m)) \<Longrightarrow> keeps (with_model P J) (bind_act get_model f)"
  by (simp add: keeps_def with_model_def)

lemma keeps_put [keeps_intros]: "P m \<Longrightarrow> keeps (with_model P J) (put_model m)"
  by (simp add: keeps_def with_model_def put_model_def)

lemma keeps_on_world [keeps_intros]: "keeps J a \<Longrightarrow> keeps (with_model P J) (on_world a)"
  by (auto simp: keeps_def with_model_def on_world_def split: prod.splits)

lemma keeps_pure [keeps_intros]: "keeps I (Pair r)" "keeps I get_model"
  by (simp_all add: keeps_def get_model_def)

lemma keeps_with_modelI:
  "(\<And>m w. P m \<Longrightarrow> J w \<Longrightarrow> with_model P J (snd (a (m, w)))) \<Longrightarrow> keeps (with_model P J) a"
  by (simp add: keeps_def with_model_def split_paired_all)

lemma keeps_update [keeps_intros]:
  "(\<And>m. P m \<Longrightarrow> P (u m)) \<Longrightarrow> keeps (with_model P J) a \<Longrightarrow> keeps (with_model P J) (\<lambda>(m, w). a (u m, w))"
  by (auto simp: keeps_def with_model_def)

section \<open>Services that keep an invariant of the stored models\<close>

abbreviation sound_bot :: "bot \<Rightarrow> bool" where
  "sound_bot b \<equiv> \<forall>m \<in> set (bo_models b). model_ok m"

locale sound_services =
  fixes sv :: "'w services" and J :: "'w \<Rightarrow> bool"
  assumes order_keeps: "keeps J (sv_exchange_order sv mo)"
    and store_keeps: "keeps J (sv_store_order sv om)"
    and update_keeps: "model_ok m \<Longrightarrow> keeps J (sv_update_strategy sv m)"
    and find_keeps: "keeps J (sv_find_candles sv s e p t)"
    and recent_keeps: "keeps J (sv_recent_candle sv p)"
    and active_keeps: "keeps J (sv_active_strategies sv p)"
    and active_ok: "J w \<Longrightarrow> sv_active_strategies sv p w = (Ok ms, w1) \<Longrightarrow> m \<in> set ms \<Longrightarrow> model_ok m"
    and now_keeps: "J w \<Longrightarrow> J (snd (sv_now sv w))"
begin

lemma PerformOrder_keeps: "keeps J (PerformOrder sv args)"
  unfolding PerformOrder_def Let_def
  by (intro keeps_intros order_keeps store_keeps)

lemma clock_keeps: "keeps J (\<lambda>w. case sv_now sv w of (now, w1) \<Rightarrow> (Ok now, w1))"
  by (simp add: keeps_def split_beta now_keeps)

lemma ProcessTick_keeps: "keeps (with_model model_ok J) (ProcessTick sv t)"
proof -
  have "keeps (with_model model_ok J) (TryBuy sv t)"
    unfolding TryBuy_def Let_def
    by (intro keeps_intros PerformOrder_keeps update_keeps) (simp_all add: model_ok_def)
  moreover have "keeps (with_model model_ok J) (TrySell sv t)"
    unfolding TrySell_def Let_def
    by (intro keeps_intros PerformOrder_keeps update_keeps clock_keeps) (simp_all add: model_ok_def)
  ultimately show ?thesis
    unfolding ProcessTick_def by (intro keeps_intros)
qed

lemma run_service_keeps: "keeps (with_model (\<lambda>ms. model_ok (fst ms)) J) (run_service sv)"
proof -
  have "with_model (\<lambda>ms. model_ok (fst ms)) J ((m1, s), w1)"
    if "model_ok m" "J w" "ProcessTick sv s (m, w) = (r, (m1, w1))" for m s w r m1 w1
    using keepsD[OF ProcessTick_keeps[of s], of "(m, w)"] that by (simp add: with_model_def)
  then have "with_model (\<lambda>ms. model_ok (fst ms)) J (snd (run_service sv ((m, s), w)))" if "model_ok m" "J w" for m s w
    using that by (cases "ProcessTick sv s (m, w)") (auto simp: run_service_def)
  then show ?thesis
    by (intro keeps_with_modelI) (simp add: split_paired_all)
qed

lemma save_model_keeps: "model_ok m \<Longrightarrow> keeps (with_model (\<lambda>ms. model_ok (fst ms)) J) (save_model sv m)"
  unfolding save_model_def by (intro keeps_intros update_keeps) simp_all

lemma seed_service_keeps: "keeps (with_model (\<lambda>ms. model_ok (fst ms)) J) (seed_service sv t)"
  unfolding seed_service_def by (intro keeps_intros find_keeps) simp_all

lemma processTick_keeps: "keeps (with_model (\<lambda>ms. model_ok (fst ms)) J) (processTick sv t)"
  unfolding processTick_def finish_tick_def
  by (intro keeps_intros seed_service_keeps run_service_keeps save_model_keeps) (simp_all add: model_ok_def)

lemma tick_loop_keeps:
  assumes "tick_loop sv t pairs w = (r, pairs1, w1)" and "\<forall>p \<in> set pairs. model_ok (fst p)" and "J w"
  shows "(\<forall>p \<in> set pairs1. model_ok (fst p)) \<and> J w1"
  using assms
proof (induction pairs arbitrary: w r pairs1 w1)
  case (Cons ms rest)
  obtain q ms1 w2 where tick: "processTick sv t (ms, w) = (q, (ms1, w2))"
    by (metis prod.collapse)
  have ok: "model_ok (fst ms1)" "J w2"
    using keepsD[OF processTick_keeps _ tick] Cons.prems(2,3) by (simp_all add: with_model_def)
  obtain r' rest1 w3 where rest: "tick_loop sv t rest w2 = (r', rest1, w3)"
    by (metis prod_cases3)
  obtain r'' rest2 w4 where skip: "tick_loop sv t rest w = (r'', rest2, w4)"
    by (metis prod_cases3)
  have "\<forall>p \<in> set rest. model_ok (fst p)" "model_ok (fst ms)"
    using Cons.prems(2) by simp_all
  then have later: "(\<forall>p \<in> set rest1. model_ok (fst p)) \<and> J w3" and skipped: "(\<forall>p \<in> set rest2. model_ok (fst p)) \<and> J w4"
    using Cons.IH[OF rest] Cons.IH[OF skip] ok(2) Cons.prems(3) by blast+
  have "(pairs1, w1) \<in> {(ms1 # rest1, w3), (ms1 # rest, w2), (ms # rest2, w4)}"
    using Cons.prems(1) by (cases "due (fst ms) t"; cases q) (simp_all add: tick rest skip)
  then show ?case
    using later skipped ok \<open>model_ok (fst ms)\<close> \<open>\<forall>p \<in> set rest. model_ok (fst p)\<close> by auto
qed simp

lemma load_keeps:
  assumes "\<forall>m \<in> set ms. model_ok m"
  shows "keeps (with_model sound_bot J) (load_strategies y sv t ms)"
  using assms
proof (induction ms)
  case (Cons m ms)
  have "keeps (with_model sound_bot J) (load_strategies y sv t ms)"
    using Cons by simp
  moreover have "sound_bot (add_strategy m s b)" if "sound_bot b" for s b
    using that Cons.prems by (auto simp: add_strategy_def)
  ultimately show ?case
    unfolding load_strategies.simps by (intro keeps_intros find_keeps)
qed (simp add: keeps_result)

lemma initialize_eq:
  "initializeStrategies y sv t (b, w) = (case sv_active_strategies sv (bo_product b) w of
     (Ok ms, w1) \<Rightarrow> load_strategies y sv t ms (b\<lparr>bo_strategies := [], bo_models := []\<rparr>, w1)
   | (Err e, w1) \<Rightarrow> (Err (Wrapf e ''error finding active trading strategies''), (b, w1))
   | (Panic p, w1) \<Rightarrow> (Panic p, (b, w1))
   | (Diverge, w1) \<Rightarrow> (Diverge, (b, w1)))"
proof -
  obtain r w1 where "sv_active_strategies sv (bo_product b) w = (r, w1)"
    by fastforce
  then show ?thesis
    by (cases r) (simp_all add: initializeStrategies_def bind_on_world wrap_act_case)
qed

lemma initialize_keeps: "keeps (with_model sound_bot J) (initializeStrategies y sv t)"
proof -
  have "with_model sound_bot J (snd (initializeStrategies y sv t (b, w)))" if "sound_bot b" "J w" for b w
  proof -
    obtain r w1 where active: "sv_active_strategies sv (bo_product b) w = (r, w1)"
      by fastforce
    have w1: "J w1"
      using keepsD[OF active_keeps \<open>J w\<close> active] .
    show ?thesis
    proof (cases r)
      case (Ok ms)
      have "\<forall>m \<in> set ms. model_ok m"
        using active_ok[OF \<open>J w\<close>] active Ok by blast
      moreover have "with_model sound_bot J (b\<lparr>bo_strategies := [], bo_models := []\<rparr>, w1)"
        using w1 by (simp add: with_model_def)
      ultimately have "with_model sound_bot J (snd (load_strategies y sv t ms (b\<lparr>bo_strategies := [], bo_models := []\<rparr>, w1)))"
        using load_keeps unfolding keeps_def by blast
      then show ?thesis
        by (simp add: initialize_eq active Ok)
    qed (use that w1 in \<open>simp_all add: initialize_eq active with_model_def\<close>)
  qed
  then show ?thesis
    by (rule keeps_with_modelI)
qed

lemma bot_ProcessTick_keeps: "keeps (with_model sound_bot J) (bot_ProcessTick y sv t)"
proof -
  have "with_model sound_bot J (b\<lparr>bo_models := map fst pairs1, bo_strategies := map snd pairs1\<rparr>, w1)"
    if "sound_bot b" "J w" "tick_loop sv t (zip (bo_models b) (bo_strategies b)) w = (r, pairs1, w1)" for b w r pairs1 w1
  proof -
    have "\<forall>p \<in> set (zip (bo_models b) (bo_strategies b)). model_ok (fst p)"
      using that(1) by (auto dest: set_zip_leftD)
    then show ?thesis
      using tick_loop_keeps[OF that(3) _ that(2)] by (simp add: with_model_def)
  qed
  then have "keeps (with_model sound_bot J) (\<lambda>(b, w). case tick_loop sv t (zip (bo_models b) (bo_strategies b)) w of
      (r, pairs, w1) \<Rightarrow> (r, (b\<lparr>bo_models := map fst pairs, bo_strategies := map snd pairs\<rparr>, w1)))"
    by (intro keeps_with_modelI) (simp split: prod.splits)
  then show ?thesis
    unfolding bot_ProcessTick_def by (intro keeps_intros initialize_keeps)
qed

lemma poll_keeps: "keeps (with_model sound_bot J) (ProcessTickForNewCandlestick y sv)"
  unfolding ProcessTickForNewCandlestick_def
  by (intro keeps_intros recent_keeps bot_ProcessTick_keeps) simp

lemma Run_keeps: "keeps (with_model sound_bot J) (Run y sv n)"
proof (induction n)
  case (Suc n)
  have "with_model sound_bot J (snd (Run y sv (Suc n) s))" if "with_model sound_bot J s" for s
  proof -
    obtain r s1 where poll: "ProcessTickForNewCandlestick y sv s = (r, s1)"
      by (metis prod.collapse)
    then have "with_model sound_bot J s1"
      using keepsD[OF poll_keeps that] by blast
    then show ?thesis
      using poll Suc[unfolded keeps_def, rule_format, of s1] by (cases r) simp_all
  qed
  then show ?case
    by (simp add: keeps_def)
qed (simp add: keeps_def)

end

section \<open>A deployment\<close>

text \<open>What is outside: the exchange, the database connection (which may answer an error to any
  statement) and the clock, on a state of their own.\<close>

record 'e outside =
  ot_order :: "market_order \<Rightarrow> (order_response, 'e) act"
  ot_connection :: "'e \<Rightarrow> go_error option \<times> 'e"
  ot_now :: "'e \<Rightarrow> time \<times> 'e"

definition on_db :: "'e outside \<Rightarrow> (go_error option \<Rightarrow> time \<Rightarrow> ('a, db) act) \<Rightarrow> ('a, db \<times> 'e) act" where
  "on_db ot operation de =
    (let (d, e) = de; (failure, e1) = ot_connection ot e; (now, e2) = ot_now ot e1; (r, d1) = operation failure now d
     in (r, (d1, e2)))"

definition db_services :: "'e outside \<Rightarrow> (db \<times> 'e) services" where
  "db_services ot =
     \<lparr>sv_exchange_order = (\<lambda>mo (d, e). case ot_order ot mo e of (r, e1) \<Rightarrow> (r, (d, e1))),
      sv_store_order = (\<lambda>m. on_db ot (\<lambda>f now. CreateMarketOrder f now m)),
      sv_update_strategy = (\<lambda>m. on_db ot (\<lambda>f now. UpdateTradingStrategy f now m)),
      sv_find_candles = (\<lambda>s e p k. on_db ot (\<lambda>f now. FindCandlesticks f s e p k)),
      sv_active_strategies = (\<lambda>p. on_db ot (\<lambda>f now. FindActiveTradingStrategies f p)),
      sv_recent_candle = (\<lambda>p. on_db ot (\<lambda>f now. FindMostRecentCandlestick f p)),
      sv_now = (\<lambda>(d, e). case ot_now ot e of (now, e1) \<Rightarrow> (now, (d, e1)))\<rparr>"

definition stored_ok :: "db \<Rightarrow> bool" where
  "stored_ok d \<longleftrightarrow> (\<forall>m \<in> set (db_strategies d). model_ok m)"

lemma keeps_on_db:
  "(\<And>f now. keeps K (operation f now)) \<Longrightarrow> keeps (\<lambda>w. K (fst w)) (on_db ot operation)"
  by (simp add: keeps_def on_db_def split_beta Let_def)

lemma model_ok_times [simp]:
  "model_ok (m\<lparr>tm_updated_at := t\<rparr>) = model_ok m" "model_ok (m\<lparr>tm_created_at := t, tm_id := i\<rparr>) = model_ok m"
  by (simp_all add: model_ok_def)

lemma db_keeps_stored:
  "keeps stored_ok (CreateMarketOrder f now om)" "model_ok m \<Longrightarrow> keeps stored_ok (UpdateTradingStrategy f now m)"
  "keeps stored_ok (FindCandlesticks f s e p k)" "keeps stored_ok (FindActiveTradingStrategies f p)"
  "keeps stored_ok (FindMostRecentCandlestick f p)" "keeps stored_ok (UpsertCandlestick f now c)"
  "model_ok m \<Longrightarrow> keeps stored_ok (CreateTradingStrategy f now m)"
  by (auto simp: keeps_def stored_ok_def CreateMarketOrder_def UpdateTradingStrategy_def FindCandlesticks_def
      FindActiveTradingStrategies_def FindMostRecentCandlestick_def UpsertCandlestick_def CreateTradingStrategy_def
      Let_def split: option.splits if_splits)

interpretation live: sound_services "db_services ot" "\<lambda>w. stored_ok (fst w)" for ot
proof unfold_locales
  fix w :: "db \<times> 'a" and p ms w1 m
  assume "stored_ok (fst w)" "sv_active_strategies (db_services ot) p w = (Ok ms, w1)" "m \<in> set ms"
  then show "model_ok m"
    by (auto simp: db_services_def on_db_def FindActiveTradingStrategies_def statement_def stored_ok_def Let_def
        split: prod.splits option.splits)
next
  fix w :: "db \<times> 'a"
  assume "stored_ok (fst w)"
  then show "stored_ok (fst (snd (sv_now (db_services ot) w)))"
    by (simp add: db_services_def split_beta)
next
  fix mo
  show "keeps (\<lambda>w. stored_ok (fst w)) (sv_exchange_order (db_services ot) mo)"
    by (auto simp: keeps_def db_services_def split: prod.splits)
qed (simp_all add: db_services_def keeps_on_db db_keeps_stored)

text \<open>The backtester keeps them trivially: its world has no stored models.\<close>

interpretation mock: sound_services "backtest_services env" "\<lambda>_. True" for env
  by unfold_locales (simp_all add: keeps_def backtest_services_def)

text \<open>The states a deployment comes into: polls of the bot, candlesticks and strategies stored by the
  other commands, and the outside changing in between.\<close>

inductive deployed :: "yaml_ops \<Rightarrow> 'e outside \<Rightarrow> bot \<times> db \<times> 'e \<Rightarrow> bool" for y ot where
  start: "stored_ok d \<Longrightarrow> deployed y ot (NewBot p, (d, e))"
| poll: "deployed y ot s \<Longrightarrow> ProcessTickForNewCandlestick y (db_services ot) s = (r, s1) \<Longrightarrow> deployed y ot s1"
| candle: "deployed y ot (b, (d, e)) \<Longrightarrow> UpsertCandlestick f now c d = (r, d1) \<Longrightarrow> deployed y ot (b, (d1, e))"
| create: "deployed y ot (b, (d, e)) \<Longrightarrow> model_ok m \<Longrightarrow> CreateTradingStrategy f now m d = (r, d1) \<Longrightarrow> deployed y ot (b, (d1, e))"
| world: "deployed y ot (b, (d, e)) \<Longrightarrow> deployed y ot (b, (d, e1))"

lemma deployed_sound: "deployed y ot s \<Longrightarrow> with_model sound_bot (\<lambda>w. stored_ok (fst w)) s"
proof (induction rule: deployed.induct)
  case (poll s r s1)
  show ?case
    by (rule keepsD[OF live.poll_keeps poll(3) poll(2)])
next
  case (candle b d e f now c r d1)
  then show ?case
    using keepsD[OF db_keeps_stored(6)] by (auto simp: with_model_def)
next
  case (create b d e m f now r d1)
  then show ?case
    using keepsD[OF db_keeps_stored(7)] by (auto simp: with_model_def)
qed (simp_all add: with_model_def NewBot_def)

section \<open>When a strategy runs next\<close>

text \<open>What a tick of the engine leaves alone.\<close>

lemma ProcessTick_frame:
  assumes "ProcessTick sv s (m, w) = (r, (m1, w1))"
  shows "tm_tick_size_minutes m1 = tm_tick_size_minutes m" and "tm_next_tick_at m1 = tm_next_tick_at m"
    and "tm_id m1 = tm_id m" and "tm_product m1 = tm_product m"
proof -
  have "\<exists>r'. TryBuy sv s (m, w) = (r', (m1, w1))" if "tm_state m = StrategyStateTryingToBuy"
    using assms that by (cases "TryBuy sv s (m, w)") (simp add: ProcessTick_def wrap_act_case)
  moreover have "\<exists>r'. TrySell sv s (m, w) = (r', (m1, w1))" if "tm_state m = StrategyStateTryingToSell"
    using assms that by (cases "TrySell sv s (m, w)") (simp add: ProcessTick_def wrap_act_case)
  moreover have "m1 = m" if "tm_state m \<noteq> StrategyStateTryingToBuy" "tm_state m \<noteq> StrategyStateTryingToSell"
    using assms that by (simp add: ProcessTick_def result_act_def)
  ultimately have "m1 = m \<or> (\<exists>f. m1 = after_buy m f) \<or> (\<exists>f d. m1 = (after_sell m f)\<lparr>tm_deactivated_at := d\<rparr>)"
    using TryBuy_model[of sv s m w _ m1 w1] TrySell_model[of sv s m w _ m1 w1] by blast
  then show "tm_tick_size_minutes m1 = tm_tick_size_minutes m" "tm_next_tick_at m1 = tm_next_tick_at m"
    "tm_id m1 = tm_id m" "tm_product m1 = tm_product m"
    by (auto simp: after_buy_def after_sell_def)
qed

lemma on_world_Ok_iff: "on_world a (m, w) = (Ok x, (m1, w1)) \<longleftrightarrow> m1 = m \<and> a w = (Ok x, w1)"
  by (auto simp: on_world_def split: prod.splits)

lemma seed_service_frame: "seed_service sv t ((m, s), w) = (Ok u, ((m1, s1), w1)) \<Longrightarrow> m1 = m"
  by (auto simp: seed_service_def result_simps on_world_Ok_iff result_act_def split_beta)

lemma save_model_Ok:
  "save_model sv m ((m0, s), w) = (Ok u, ((m1, s1), w1)) \<Longrightarrow> m1 = m \<and> s1 = s \<and> sv_update_strategy sv m w = (Ok u, w1)"
  by (simp add: save_model_def on_world_Ok_iff wrap_act_Ok_iff)

lemma nextTickAt_Ok:
  assumes "bucket_window t" and "valid_tick (sint (tm_tick_size_minutes m))"
  shows "nextTickAt m t = Ok (bucket_of (sint (tm_tick_size_minutes m)) t + tick_duration (sint (tm_tick_size_minutes m)))"
proof -
  have "duration_mul (sint (tm_tick_size_minutes m)) minute = tick_duration (sint (tm_tick_size_minutes m))"
    using assms(2) by (simp add: tick_duration_def valid_tick_def in_int64I)
  then show ?thesis
    by (simp add: nextTickAt_def CandlestickBucket_eq[OF assms] time_add_def)
qed

text \<open>The engine that a tick runs, and the world it runs it in: seeded with the candlesticks since its
  last one when a whole number of ticks has passed, as it is otherwise.\<close>

definition engine_at :: "'w services \<Rightarrow> time \<Rightarrow> trading_strategy_model \<Rightarrow> trading_strategy \<times> 'w \<Rightarrow> trading_strategy \<times> 'w \<Rightarrow> bool" where
  "engine_at sv t m before after \<longleftrightarrow>
     (seeds_first m (fst before) t = Ok False \<and> after = before \<or>
      seeds_first m (fst before) t = Ok True \<and>
        seed_service sv t ((m, fst before), snd before) = (Ok (), ((m, fst after), snd after)))"

lemma processTick_Ok:
  assumes "processTick sv t ((m, s), w) = (Ok u, ((m1, s1), w1))"
  shows "\<exists>w2 q m0 w3. engine_at sv t m (s, w) (s1, w2) \<and> ProcessTick sv s1 (m, w2) = (q, (m0, w3)) \<and>
    sv_update_strategy sv m1 w3 = (Ok (), w1) \<and>
    ((\<exists>e. q = Err e \<and> cause e = ErrNotEnoughData) \<and> m1 = m0\<lparr>tm_deactivated_at := t\<rparr> \<or>
     q = Ok () \<and> (\<exists>nxt. nextTickAt m0 t = Ok nxt \<and> m1 = m0\<lparr>tm_last_tick_at := t, tm_next_tick_at := nxt\<rparr>))"
proof -
  obtain seed where seed: "seeds_first m s t = Ok seed"
    using assms by (cases "seeds_first m s t") (simp_all add: processTick_def)
  have "\<exists>s2 w2. engine_at sv t m (s, w) (s2, w2) \<and>
    bind_act (run_service sv) (finish_tick sv t) ((m, s2), w2) = (Ok u, ((m1, s1), w1))"
  proof (cases seed)
    case True
    then obtain m2 s2 w2 where service: "seed_service sv t ((m, s), w) = (Ok (), ((m2, s2), w2))"
      and "bind_act (run_service sv) (finish_tick sv t) ((m2, s2), w2) = (Ok u, ((m1, s1), w1))"
      using assms seed by (auto simp: processTick_def bind_act_Ok_iff[of "seed_service sv t"])
    moreover from seed_service_frame[OF service] have "m2 = m" .
    ultimately show ?thesis
      using seed True by (auto simp: engine_at_def)
  next
    case False
    then show ?thesis
      using assms seed by (auto simp: processTick_def engine_at_def)
  qed
  then obtain s2 w2 where engine: "engine_at sv t m (s, w) (s2, w2)"
    and run: "bind_act (run_service sv) (finish_tick sv t) ((m, s2), w2) = (Ok u, ((m1, s1), w1))"
    by blast
  obtain r m0 w3 where tick: "ProcessTick sv s2 (m, w2) = (r, (m0, w3))"
    by (metis prod.collapse)
  then have after: "finish_tick sv t r ((m0, s2), w3) = (Ok u, ((m1, s1), w1))"
    using run by (simp add: bind_act_Ok_iff run_service_def)
  show ?thesis
  proof (cases r)
    case (Ok _)
    then obtain nxt where "nextTickAt m0 t = Ok nxt" and
      "save_model sv (m0\<lparr>tm_last_tick_at := t, tm_next_tick_at := nxt\<rparr>) ((m0, s2), w3) = (Ok u, ((m1, s1), w1))"
      using after by (cases "nextTickAt m0 t") (auto simp: finish_tick_def)
    from this(1) save_model_Ok[OF this(2)] show ?thesis
      using engine tick Ok by auto
  next
    case (Err e)
    then have "cause e = ErrNotEnoughData" and
      "save_model sv (m0\<lparr>tm_deactivated_at := t\<rparr>) ((m0, s2), w3) = (Ok u, ((m1, s1), w1))"
      using after by (auto simp: finish_tick_def result_act_def split: if_splits)
    from this(1) save_model_Ok[OF this(2)] show ?thesis
      using engine tick Err by auto
  qed (use after in \<open>simp_all add: finish_tick_def result_act_def\<close>)
qed

section \<open>The loop over the strategies\<close>

lemma tick_loop_skips:
  assumes "\<forall>ms \<in> set pre. \<not> due (fst ms) t"
  shows "tick_loop sv t (pre @ rest) w = (case tick_loop sv t rest w of (r, rest1, w1) \<Rightarrow> (r, pre @ rest1, w1))"
  using assms by (induction pre) (auto split: prod.splits)

section \<open>What the bot remembers\<close>

abbreviation remembers :: "candlestick option \<Rightarrow> product \<Rightarrow> bot \<Rightarrow> bool" where
  "remembers c p b \<equiv> bo_current b = c \<and> bo_product b = p"

lemma keeps_any: "keeps (\<lambda>_. True) a"
  by (simp add: keeps_def)

lemma load_remembers: "keeps (with_model (remembers c p) (\<lambda>_. True)) (load_strategies y sv t ms)"
proof (induction ms)
  case (Cons m ms)
  show ?case
    unfolding load_strategies.simps
    by (intro keeps_intros keeps_any Cons) (simp add: add_strategy_def)
qed (simp add: keeps_result)

lemma initialize_remembers: "keeps (with_model (remembers c p) (\<lambda>_. True)) (initializeStrategies y sv t)"
  unfolding initializeStrategies_def
  by (intro keeps_intros keeps_any load_remembers) simp

lemma bot_ProcessTick_remembers: "keeps (with_model (remembers c p) (\<lambda>_. True)) (bot_ProcessTick y sv t)"
proof -
  have "keeps (with_model (remembers c p) (\<lambda>_. True)) (\<lambda>(b, w). case tick_loop sv t (zip (bo_models b) (bo_strategies b)) w of
      (r, pairs, w1) \<Rightarrow> (r, (b\<lparr>bo_models := map fst pairs, bo_strategies := map snd pairs\<rparr>, w1)))"
    by (intro keeps_with_modelI) (simp add: with_model_def split: prod.splits)
  then show ?thesis
    unfolding bot_ProcessTick_def by (intro keeps_intros initialize_remembers)
qed

section \<open>Properties\<close>

text \<open>C2. Stored books stay consistent: in a deployment, whatever the exchange and the clock answer and
  whichever statements fail, every strategy in the database is either out of the market with
  nothing invested or in it without budget, after any polls of the bot, candlesticks and
  strategies stored in between.\<close>

theorem stored_books_stay_consistent:
  assumes "deployed y ot (b, (d, e))"
  shows "\<forall>m \<in> set (db_strategies d). model_ok m"
  using deployed_sound[OF assms] by (simp add: with_model_def stored_ok_def)

definition test_outside :: "nat outside" where
  "test_outside = \<lparr>ot_order = (\<lambda>mo e. (Ok (mock_response ''x'' mo (Fin 100)), e + 1)), ot_connection = (\<lambda>e. (None, e)),
     ot_now = (\<lambda>e. (0, e))\<rparr>"

definition test_db :: db where
  "test_db = \<lparr>db_candles = [minute_candle 0 5], db_orders = [], db_strategies = [test_model],
     db_candle_id = 2, db_order_id = 1, db_strategy_id = 2\<rparr>"

lemma stored_books_stay_consistent_witness:
  "list_all model_ok (db_strategies (snd (CreateTradingStrategy None 5 test_model
      (fst (snd (snd (ProcessTickForNewCandlestick (one_strategy_yaml test_rsi) (db_services test_outside)
        (NewBot ProductBTCUSD, (test_db, 0)))))))))"
proof -
  define y where "y = one_strategy_yaml test_rsi"
  obtain r b d e where poll: "ProcessTickForNewCandlestick y (db_services test_outside) (NewBot ProductBTCUSD, (test_db, 0)) = (r, (b, (d, e)))"
    by (metis prod.collapse)
  have "deployed y test_outside (NewBot ProductBTCUSD, (test_db, 0))"
    by (rule deployed.start) (simp add: stored_ok_def test_db_def test_model_def model_ok_def)
  from deployed.poll[OF this poll] have "deployed y test_outside (b, (d, e))" .
  from deployed.create[OF this, of test_model None 5 "fst (CreateTradingStrategy None 5 test_model d)" "snd (CreateTradingStrategy None 5 test_model d)"]
  have "deployed y test_outside (b, (snd (CreateTradingStrategy None 5 test_model d), e))"
    by (simp add: test_model_def model_ok_def)
  from stored_books_stay_consistent[OF this] show ?thesis
    using poll by (simp add: y_def list_all_iff)
qed

text \<open>C10. When a strategy runs next: a tick of a strategy that goes well, at a whole second, ends with
  the update of the strategy in the database, which has gone well, with exactly the model it leaves
  in memory. What it stores is what the engine left: deactivated at the second, its schedule
  unchanged, when, and only when, the engine lacked data; otherwise last run at the second and due
  next at the end of the bucket the second is in, which is after it, at most one tick later and on
  the grid of the tick, so that the strategy is not due again before.\<close>

theorem tick_schedules_next:
  assumes "processTick sv t ((m, s), w) = (Ok u, ((m1, s1), w1))" and "bucket_window t"
    and "valid_tick (sint (tm_tick_size_minutes m))"
  shows "\<exists>w2 q m0 w3. engine_at sv t m (s, w) (s1, w2) \<and> ProcessTick sv s1 (m, w2) = (q, (m0, w3)) \<and>
    sv_update_strategy sv m1 w3 = (Ok (), w1) \<and>
    (case q of
       Ok _ \<Rightarrow> m1 = m0\<lparr>tm_last_tick_at := t, tm_next_tick_at := tm_next_tick_at m1\<rparr> \<and> t < tm_next_tick_at m1 \<and>
         tm_next_tick_at m1 \<le> t + tick_duration (sint (tm_tick_size_minutes m)) \<and>
         tick_duration (sint (tm_tick_size_minutes m)) dvd tm_next_tick_at m1 - candlestickBaseTime \<and> \<not> due m1 t
     | Err e \<Rightarrow> cause e = ErrNotEnoughData \<and> m1 = m0\<lparr>tm_deactivated_at := t\<rparr> \<and> tm_next_tick_at m1 = tm_next_tick_at m
     | _ \<Rightarrow> False)"
proof -
  define k where "k = sint (tm_tick_size_minutes m)"
  from processTick_Ok[OF assms(1)] obtain w2 q m0 w3 where engine: "engine_at sv t m (s, w) (s1, w2)"
    and tick: "ProcessTick sv s1 (m, w2) = (q, (m0, w3))" and stored: "sv_update_strategy sv m1 w3 = (Ok (), w1)"
    and cases: "(\<exists>e. q = Err e \<and> cause e = ErrNotEnoughData) \<and> m1 = m0\<lparr>tm_deactivated_at := t\<rparr> \<or>
      q = Ok () \<and> (\<exists>nxt. nextTickAt m0 t = Ok nxt \<and> m1 = m0\<lparr>tm_last_tick_at := t, tm_next_tick_at := nxt\<rparr>)"
    by blast
  note frame = ProcessTick_frame(1,2)[OF tick]
  have nxt: "nextTickAt m0 t = Ok (bucket_of k t + tick_duration k)"
    using nextTickAt_Ok[of t m0] assms(2,3) by (simp add: frame k_def)
  have valid: "valid_tick k"
    using assms(3) by (simp add: k_def)
  have d: "tick_duration k = k * minute"
    using valid by (rule tick_duration_valid)
  have b: "bucket_of k t \<le> t" "t < bucket_of k t + k * minute"
    using bucket_of_bounds[OF valid] by blast+
  have "k * minute dvd (bucket_of k t - candlestickBaseTime) + k * minute"
    using bucket_of_grid[of k t] by (rule dvd_add) simp
  moreover have "bucket_of k t - candlestickBaseTime + k * minute = bucket_of k t + k * minute - candlestickBaseTime"
    by simp
  ultimately have "k * minute dvd bucket_of k t + k * minute - candlestickBaseTime"
    by simp
  then have "case q of
       Ok _ \<Rightarrow> m1 = m0\<lparr>tm_last_tick_at := t, tm_next_tick_at := tm_next_tick_at m1\<rparr> \<and> t < tm_next_tick_at m1 \<and>
         tm_next_tick_at m1 \<le> t + tick_duration k \<and> tick_duration k dvd tm_next_tick_at m1 - candlestickBaseTime \<and> \<not> due m1 t
     | Err e \<Rightarrow> cause e = ErrNotEnoughData \<and> m1 = m0\<lparr>tm_deactivated_at := t\<rparr> \<and> tm_next_tick_at m1 = tm_next_tick_at m
     | _ \<Rightarrow> False"
    using cases frame nxt b d by (auto simp: due_def)
  with engine tick stored show ?thesis
    unfolding k_def by blast
qed

definition base_model :: trading_strategy_model where
  "base_model = test_model\<lparr>tm_next_tick_at := candlestickBaseTime\<rparr>"

lemma quiet_tick:
  "ProcessTick (test_services (Ok ())) (test_trader 50) (base_model, 0) = (Ok (), (base_model, 0))"
  by (subst buy_tick[of base_model "metadata ExchangeGDAX CurrencyBTC" "test_trader 50" False "test_services (Ok ())" 0
      "\<lparr>or_exchange_id = ''x'', or_filled_size = Fin 2, or_filled_currency = CurrencyBTC, or_fees = Fin 0, or_fees_currency = CurrencyUSD\<rparr>" 1 1 1])
    (simp_all add: base_model_def test_model_def ProductToMetadata_def test_trader_def test_set_def ValidateIndicatorSets_def
      NewTradingStrategy_def rs_Indicators_def register_indicator_def rs_Buy_def values_at_def slice_get_def deref_def
      test_rsi_def test_services_def)

lemma base_time: "bucket_window candlestickBaseTime"
  by (simp add: bucket_window_def)

lemma base_tick: "sint (tm_tick_size_minutes base_model) = 5"
  by (simp add: base_model_def test_model_def)

lemma quiet_processTick:
  "processTick (test_services (Ok ())) candlestickBaseTime ((base_model, test_trader 50), 0) =
    (Ok (), ((base_model\<lparr>tm_last_tick_at := candlestickBaseTime,
       tm_next_tick_at := bucket_of 5 candlestickBaseTime + tick_duration 5\<rparr>, test_trader 50), 0))"
proof -
  have "nextTickAt base_model candlestickBaseTime = Ok (bucket_of 5 candlestickBaseTime + tick_duration 5)"
    using nextTickAt_Ok[OF base_time, of base_model] by (simp add: base_tick valid_tick_def)
  moreover have "seeds_first base_model (test_trader 50) candlestickBaseTime = Ok False"
    by (simp add: seeds_first_def test_trader_def NewTradingStrategy_def rs_Indicators_def register_indicator_def is_zero_time_def)
  moreover have "sv_update_strategy (test_services (Ok ())) m w = (Ok (), w)" for m w
    by (simp add: test_services_def)
  ultimately show ?thesis
    by (simp add: processTick_def run_service_def quiet_tick bind_act_def[of "run_service _"] finish_tick_def save_model_def
        on_world_def wrap_act_def)
qed

lemma tick_schedules_next_witness:
  "\<exists>m1 w2 q m0 w3. processTick (test_services (Ok ())) candlestickBaseTime ((base_model, test_trader 50), 0) = (Ok (), ((m1, test_trader 50), 0)) \<and>
    engine_at (test_services (Ok ())) candlestickBaseTime base_model (test_trader 50, 0) (test_trader 50, w2) \<and>
    ProcessTick (test_services (Ok ())) (test_trader 50) (base_model, w2) = (q, (m0, w3)) \<and>
    sv_update_strategy (test_services (Ok ())) m1 w3 = (Ok (), 0)"
  using tick_schedules_next[OF quiet_processTick base_time] quiet_processTick
  by (simp add: base_tick valid_tick_def) blast

text \<open>A strategy whose tick fails keeps the later ones from running: the strategies before it that
  are not due are passed over, its error is that of the whole tick, and those behind it are not
  touched, due or not.\<close>

theorem failure_blocks_later_strategies:
  assumes "\<forall>ms \<in> set pre. \<not> due (fst ms) t" and "due (fst ms) t" and "processTick sv t (ms, w) = (Err e, (ms1, w1))"
  shows "tick_loop sv t (pre @ ms # rest) w = (Err (Wrapf e ''error processing tick for strategy''), pre @ ms1 # rest, w1)"
  using assms by (simp add: tick_loop_skips)

text \<open>An exchange that turns every order down.\<close>

definition refusing :: "nat services" where
  "refusing = (test_services (Ok ()))\<lparr>sv_exchange_order := (\<lambda>mo w. (Err (Errorf ''insufficient funds''), w + 1))\<rparr>"

lemma refused_processTick:
  "\<exists>e. processTick refusing candlestickBaseTime ((base_model, test_trader 20), 0) = (Err e, ((base_model, test_trader 20), 1))"
proof -
  have order: "PerformOrder refusing (order_args base_model OrderBuy b) 0 =
      (Err (Wrapf (Errorf ''insufficient funds'') ''error creating market order with exchange''), 1)" for b
    by (simp add: PerformOrder_def order_args_def wrap_act_def bind_act_def refusing_def)
  have "Buy (ts_strategy (test_trader 20)) (ts_sets (test_trader 20)) (ts_current (test_trader 20)) = Ok True"
    "ValidateIndicatorSets h (ts_current (test_trader 20)) (ts_sets (test_trader 20)) = Ok ()" for h
    by (simp_all add: test_trader_def test_set_def ValidateIndicatorSets_def NewTradingStrategy_def rs_Indicators_def
      register_indicator_def rs_Buy_def values_at_def slice_get_def deref_def test_rsi_def)
  moreover have "tm_state base_model = StrategyStateTryingToBuy"
    by (simp add: base_model_def test_model_def)
  ultimately have "ProcessTick refusing (test_trader 20) (base_model, 0) = (Err (Wrapf (Wrapf (Wrapf (Errorf ''insufficient funds'')
      ''error creating market order with exchange'') ''error performing buy order'') ''error trying to buy''), (base_model, 1))"
    by (simp add: ProcessTick_def TryBuy_def wrap_act_case bind_on_world order)
  moreover have "seeds_first base_model (test_trader 20) candlestickBaseTime = Ok False"
    by (simp add: seeds_first_def test_trader_def NewTradingStrategy_def rs_Indicators_def register_indicator_def is_zero_time_def)
  ultimately show ?thesis
    by (auto simp: processTick_def run_service_def bind_act_def[of "run_service _"] finish_tick_def result_act_def)
qed

lemma failure_blocks_later_strategies_witness:
  "\<exists>e. tick_loop refusing candlestickBaseTime [(test_model, test_trader 20), (base_model, test_trader 20), (base_model, test_trader 50)] 0 =
    (Err (Wrapf e ''error processing tick for strategy''), [(test_model, test_trader 20), (base_model, test_trader 20), (base_model, test_trader 50)], 1)"
proof -
  obtain e where e: "processTick refusing candlestickBaseTime ((base_model, test_trader 20), 0) = (Err e, ((base_model, test_trader 20), 1))"
    using refused_processTick by blast
  have "due base_model candlestickBaseTime" "\<not> due test_model candlestickBaseTime"
    by (simp_all add: due_def base_model_def test_model_def is_zero_time_def zero_time_def candlestickBaseTime_def unix_time_def second_def)
  then show ?thesis
    using failure_blocks_later_strategies[of "[(test_model, test_trader 20)]" candlestickBaseTime "(base_model, test_trader 20)" refusing 0 e
        "(base_model, test_trader 20)" 1 "[(base_model, test_trader 50)]"] e by auto
qed

text \<open>C11. A candlestick is processed until it goes well, and then no more: a poll that fails leaves the
  current candlestick as it was, so the next poll runs the strategies again; after a poll that went
  well, polls that find a candlestick of the same id only look it up.\<close>

theorem candlestick_processed_once:
  assumes "ProcessTickForNewCandlestick y sv (b, w) = (r, (b1, w1))"
    and "sv_recent_candle sv (bo_product b) w = (Ok c, w0)"
    and "sv_recent_candle sv (bo_product b1) w1 = (Ok c1, w2)" and "cs_id c1 = cs_id c"
  shows "(\<forall>err. r = Err err \<longrightarrow> bo_current b1 = bo_current b) \<and>
    (r = Ok () \<longrightarrow> bo_current b1 = Some c \<and>
       ProcessTickForNewCandlestick y sv (b1, w1) = (Ok (), (b1\<lparr>bo_current := Some c1\<rparr>, w2)))"
proof (cases "is_new b c")
  case True
  obtain r2 b2 w3 where tick: "bot_ProcessTick y sv (cs_end c) (b, w0) = (r2, (b2, w3))"
    by (metis prod.collapse)
  have "bo_current b2 = bo_current b \<and> bo_product b2 = bo_product b"
    using keepsD[OF bot_ProcessTick_remembers[of "bo_current b" "bo_product b"] _ tick] by (simp add: with_model_def)
  then show ?thesis
    using assms True tick
    by (cases r2) (auto simp: ProcessTickForNewCandlestick_def bind_on_world bind_act_def[of "wrap_act _ (bot_ProcessTick y sv (cs_end c))"]
        wrap_act_case is_new_def)
next
  case False
  then show ?thesis
    using assms by (auto simp: ProcessTickForNewCandlestick_def bind_on_world wrap_act_case is_new_def)
qed

definition one_candle_services :: "nat services" where
  "one_candle_services = (test_services (Ok ()))\<lparr>sv_recent_candle := (\<lambda>p w. (Ok (minute_candle 0 5), w))\<rparr>"

lemma candlestick_processed_once_witness:
  "\<exists>b1. ProcessTickForNewCandlestick (one_strategy_yaml test_rsi) one_candle_services (NewBot ProductBTCUSD, 0) = (Ok (), (b1, 0)) \<and>
    bo_current b1 = Some (minute_candle 0 5) \<and>
    ProcessTickForNewCandlestick (one_strategy_yaml test_rsi) one_candle_services (b1, 0) = (Ok (), (b1\<lparr>bo_current := Some (minute_candle 0 5)\<rparr>, 0))"
proof -
  have active: "sv_active_strategies one_candle_services p w = (Ok [], w)" for p w
    by (simp add: one_candle_services_def test_services_def)
  have recent: "sv_recent_candle one_candle_services p w = (Ok (minute_candle 0 5), w)" for p w
    by (simp add: one_candle_services_def)
  have "initializeStrategies (one_strategy_yaml test_rsi) one_candle_services t (NewBot p, w) = (Ok (), (NewBot p, w))" for t p w
    by (simp add: initializeStrategies_def bind_on_world wrap_act_case active result_act_def NewBot_def)
  then have tick: "bot_ProcessTick (one_strategy_yaml test_rsi) one_candle_services t (NewBot p, w) = (Ok (), (NewBot p, w))" for t p w
    by (simp add: bot_ProcessTick_def bind_act_def[of "wrap_act _ (initializeStrategies _ _ _)"] wrap_act_case NewBot_def)
  have poll: "ProcessTickForNewCandlestick (one_strategy_yaml test_rsi) one_candle_services (NewBot ProductBTCUSD, 0) =
      (Ok (), ((NewBot ProductBTCUSD)\<lparr>bo_current := Some (minute_candle 0 5)\<rparr>, 0))"
    by (simp add: ProcessTickForNewCandlestick_def bind_on_world wrap_act_case recent tick[unfolded NewBot_def] bind_act_def[of "wrap_act _ (bot_ProcessTick _ _ _)"]
        is_new_def NewBot_def)
  show ?thesis
    using candlestick_processed_once[OF poll recent recent refl] poll by blast
qed

end
