(* ===== verification/Exchanges.thy ===== *)
theory Exchanges
  imports Trading
begin

text \<open>
  \<open>gdax.go\<close> and \<open>kraken.go\<close>: the two exchanges over their clients, which are parameters, with
  the record types of the vendored client packages. The polling loop for an order, the mock
  trades of the fake exchange and the stream of one-minute candlesticks are modelled here; the messages of
  a channel are a list that ends where it is closed, and \<open>Message_Channel\<close> models the goroutine that fills it.
\<close>

section \<open>Texts\<close>

text \<open>\<open>Error()\<close> of an error value.\<close>

fun error_text :: "go_error \<Rightarrow> string" where
  "error_text ErrNotEnoughData = ''error: not enough data''"
| "error_text ErrMissingCandlestick = ''error: a candlestick is missing''"
| "error_text ErrNotExist = ''file does not exist''"
| "error_text (Errorf s) = s"
| "error_text (Wrapf e msg) = msg @ '': '' @ error_text e"

text \<open>\<open>strings.ToLower\<close> and \<open>strings.Contains\<close>, of ASCII text.\<close>

definition to_lower :: "string \<Rightarrow> string" where
  "to_lower s = map (\<lambda>c. let n = of_char c :: nat in if 65 \<le> n \<and> n \<le> 90 then char_of (n + 32) else c) s"

definition contains :: "string \<Rightarrow> string \<Rightarrow> bool" where
  "contains s part = list_ex (\<lambda>i. take (length part) (drop i s) = part) [0..<Suc (length s)]"

section \<open>GDAX\<close>

record historic_rate =
  hr_time :: time
  hr_low :: f64
  hr_high :: f64
  hr_open :: f64
  hr_close :: f64
  hr_volume :: f64

text \<open>The fields of the client's order that the program writes or reads.\<close>

record gdax_order =
  go_type :: string
  go_side :: string
  go_product :: string
  go_funds :: f64
  go_size :: f64
  go_id :: string
  go_status :: string
  go_settled :: bool
  go_fill_fees :: f64
  go_filled_size :: f64
  go_executed_value :: f64

record 'w gdax_client =
  gc_rates :: "product \<Rightarrow> time \<Rightarrow> time \<Rightarrow> int \<Rightarrow> (historic_rate list, 'w) act"
  gc_create :: "gdax_order \<Rightarrow> (gdax_order, 'w) act"
  gc_get :: "string \<Rightarrow> (gdax_order, 'w) act"
  gc_sleep :: "duration \<Rightarrow> 'w \<Rightarrow> 'w"

definition candle_of_rate :: "product \<Rightarrow> int \<Rightarrow> historic_rate \<Rightarrow> candlestick" where
  "candle_of_rate p granularitySeconds h = zero_candlestick\<lparr>cs_start := hr_time h,
     cs_end := time_add (hr_time h) (duration_mul second granularitySeconds),
     cs_low := hr_low h, cs_high := hr_high h, cs_open := hr_open h, cs_close := hr_close h, cs_volume := hr_volume h,
     cs_direction := (if flt (hr_close h) (hr_open h) then CandlestickDirectionDown else CandlestickDirectionUp),
     cs_product := p\<rparr>"

definition gdax_GetCandlesticks :: "'w gdax_client \<Rightarrow> product \<Rightarrow> time \<Rightarrow> time \<Rightarrow> int \<Rightarrow> (candlestick list, 'w) act" where
  "gdax_GetCandlesticks g p start end granularitySeconds =
    (let intervals = fdiv (duration_seconds (time_sub start end)) (float_of_int granularitySeconds)
     in if fle (Fin 200) intervals then result_act (Err (Errorf ''error: too many candlesticks requested of GDAX''))
        else bind_act (wrap_act ''error fetching historic rates from GDAX'' (gc_rates g p start end granularitySeconds)) (\<lambda>rates.
          result_act (Ok (map (candle_of_rate p granularitySeconds) rates))))"

text \<open>The order sent to the client, with the currencies of the response.\<close>

definition gdax_products :: "product \<rightharpoonup> string" where
  "gdax_products = [ProductBTCUSD \<mapsto> CurrencyBTC, ProductETHUSD \<mapsto> CurrencyETH, ProductLTCUSD \<mapsto> CurrencyLTC]"

definition gdax_request :: "market_order \<Rightarrow> (gdax_order \<times> string \<times> string) go_result" where
  "gdax_request args =
    (let order = \<lparr>go_type = ''market'', go_side = mo_side args, go_product = mo_product args, go_funds = Fin 0,
           go_size = Fin 0, go_id = [], go_status = [], go_settled = False, go_fill_fees = Fin 0, go_filled_size = Fin 0,
           go_executed_value = Fin 0\<rparr>
     in if mo_side args = OrderBuy then
          (case gdax_products (mo_product args) of
             Some currency \<Rightarrow> Ok (order\<lparr>go_funds := mo_cost args\<rparr>, currency, CurrencyUSD)
           | None \<Rightarrow> Err (Errorf ''error: unrecognized product type''))
        else if mo_side args = OrderSell then
          (case gdax_products (mo_product args) of
             Some _ \<Rightarrow> Ok (order\<lparr>go_size := mo_cost args\<rparr>, CurrencyUSD, CurrencyUSD)
           | None \<Rightarrow> Err (Errorf ''error: unrecognized product type''))
        else Ok (order, [], []))"

definition gdaxRetries :: nat where
  "gdaxRetries = 20"

definition backoff :: "nat \<Rightarrow> duration" where
  "backoff i = wrap64 (second * 2 ^ i)"

definition rate_limited :: "go_error \<Rightarrow> bool" where
  "rate_limited e \<longleftrightarrow> contains (to_lower (error_text e)) ''rate limit''"

text \<open>The loop over \<open>GetOrder\<close>, with the tries left; \<open>None\<close> is the end of the tries.\<close>

fun poll_order :: "'w gdax_client \<Rightarrow> string \<Rightarrow> nat \<Rightarrow> (gdax_order option, 'w) act" where
  "poll_order g orderID 0 w = (Ok None, w)"
| "poll_order g orderID (Suc n) w =
    (let i = gdaxRetries - Suc n
     in case gc_get g orderID w of
          (Err e, w1) \<Rightarrow>
            if rate_limited e then poll_order g orderID n (gc_sleep g (backoff i) w1)
            else (Err (Wrapf e ''error fetching GDAX order''), w1)
        | (Ok r, w1) \<Rightarrow>
            if go_status r \<in> {''open'', ''pending'', ''active''} then poll_order g orderID n (gc_sleep g (backoff i) w1)
            else if go_status r = ''done'' then
              (if go_settled r then (Ok (Some r), w1) else poll_order g orderID n (gc_sleep g (backoff i) w1))
            else (Err (Errorf ''error: unknown GDAX order status''), w1)
        | (Panic p, w1) \<Rightarrow> (Panic p, w1)
        | (Diverge, w1) \<Rightarrow> (Diverge, w1))"

definition gdax_response :: "market_order \<Rightarrow> string \<Rightarrow> string \<Rightarrow> gdax_order \<Rightarrow> order_response" where
  "gdax_response args filledCurrency feesCurrency r =
     \<lparr>or_exchange_id = go_id r,
      or_filled_size = (if mo_side args = OrderBuy then go_filled_size r else fsub (go_executed_value r) (go_fill_fees r)),
      or_filled_currency = filledCurrency, or_fees = go_fill_fees r, or_fees_currency = feesCurrency\<rparr>"

definition gdax_CreateMarketOrder :: "'w gdax_client \<Rightarrow> market_order \<Rightarrow> (order_response, 'w) act" where
  "gdax_CreateMarketOrder g args =
    bind_act (result_act (gdax_request args)) (\<lambda>(order, filledCurrency, feesCurrency).
    bind_act (wrap_act ''error creating GDAX order'' (gc_create g order)) (\<lambda>created.
    bind_act (poll_order g (go_id created) gdaxRetries) (\<lambda>final.
      case final of
        None \<Rightarrow> result_act (Err (Errorf ''error: could not get market order status after retrying''))
      | Some r \<Rightarrow> result_act (Ok (gdax_response args filledCurrency feesCurrency r)))))"

section \<open>The fake GDAX exchange\<close>

text \<open>Waiting for a trade of the product: a closed channel gives a nil message.\<close>

fun next_match :: "product \<Rightarrow> exchange_message list \<Rightarrow> exchange_message go_result" where
  "next_match p [] = Panic ''invalid memory address or nil pointer dereference''"
| "next_match p (m # ms) = (if em_type m = MessageMatch \<and> em_product m = p then Ok m else next_match p ms)"

definition fake_fill :: "string \<Rightarrow> market_order \<Rightarrow> product_metadata \<Rightarrow> f64 \<Rightarrow> order_response" where
  "fake_fill uuid args md p =
    (if mo_side args = OrderBuy then
       \<lparr>or_exchange_id = uuid, or_filled_size = fdiv (fmul (flit (1 - 25 / 10000)) (mo_cost args)) p,
        or_filled_currency = pm_sell_currency md, or_fees = fmul (flit (25 / 10000)) (mo_cost args),
        or_fees_currency = pm_fees_currency md\<rparr>
     else
       \<lparr>or_exchange_id = uuid, or_filled_size = fmul (fmul (mo_cost args) p) (flit (1 - 25 / 10000)),
        or_filled_currency = pm_buy_currency md, or_fees = fmul (fmul (flit (25 / 10000)) (mo_cost args)) p,
        or_fees_currency = pm_fees_currency md\<rparr>)"

definition fake_CreateMarketOrder :: "exchange_message list go_result \<Rightarrow> string \<Rightarrow> market_order \<Rightarrow> order_response go_result" where
  "fake_CreateMarketOrder channel uuid args =
    bind_result (wrap_err ''error getting GDAX message channel'' channel) (\<lambda>messages.
    bind_result (next_match (mo_product args) messages) (\<lambda>message.
    bind_result (deref (ProductToMetadata (mo_product args))) (\<lambda>md.
      Ok (fake_fill uuid args md (em_price message)))))"

section \<open>Kraken\<close>

record kraken_ohlc =
  ko_time :: time
  ko_open :: f64
  ko_high :: f64
  ko_low :: f64
  ko_close :: f64
  ko_volume :: f64

record ohlc_response =
  oh_ohlc :: "kraken_ohlc list"
  oh_last :: int

record 'w kraken_client =
  kc_ohlc :: "string \<Rightarrow> int option \<Rightarrow> (ohlc_response, 'w) act"
  kc_sleep :: "duration \<Rightarrow> 'w \<Rightarrow> 'w"

definition productToKrakenType :: "product \<Rightarrow> string" where
  "productToKrakenType p = (case map_of [(ProductXMRUSD, ''XXMRZUSD''), (ProductBCHUSD, ''BCHUSD''),
     (ProductDashUSD, ''DASHUSD''), (ProductZcashUSD, ''XZECZUSD''), (ProductXRPUSD, ''XXRPZUSD'')] p of
     Some k \<Rightarrow> k | None \<Rightarrow> [])"

definition krakenSleepBetweenCandles :: duration where
  "krakenSleepBetweenCandles = 15 * second"

definition candle_of_ohlc :: "product \<Rightarrow> kraken_ohlc \<Rightarrow> candlestick" where
  "candle_of_ohlc p k = zero_candlestick\<lparr>cs_start := ko_time k, cs_end := time_add (ko_time k) minute,
     cs_low := ko_low k, cs_high := ko_high k, cs_open := ko_open k, cs_close := ko_close k, cs_volume := ko_volume k,
     cs_product := p,
     cs_direction := (if flt (Fin 0) (ko_volume k)
       then if fle (ko_open k) (ko_close k) then CandlestickDirectionUp else CandlestickDirectionDown else [])\<rparr>"

text \<open>The goroutine: what it has sent on the channel after \<open>n\<close> rounds, and the id it asks from next.\<close>

fun kraken_rounds :: "'w kraken_client \<Rightarrow> product \<Rightarrow> nat \<Rightarrow> int \<Rightarrow> 'w \<Rightarrow> (candlestick list \<times> int) go_result \<times> 'w" where
  "kraken_rounds k p 0 lastID w = (Ok ([], lastID), w)"
| "kraken_rounds k p (Suc n) lastID w =
    (case kc_ohlc k (productToKrakenType p) (Some lastID) w of
       (Err e, w1) \<Rightarrow> kraken_rounds k p n lastID (kc_sleep k krakenSleepBetweenCandles w1)
     | (Ok response, w1) \<Rightarrow>
         if length (oh_ohlc response) \<le> 1
         then kraken_rounds k p n lastID (kc_sleep k krakenSleepBetweenCandles w1)
         else
           (case kraken_rounds k p n (oh_last response) (kc_sleep k krakenSleepBetweenCandles w1) of
              (r, w2) \<Rightarrow> (bind_result r (\<lambda>(cs, l). Ok (map (candle_of_ohlc p) (butlast (oh_ohlc response)) @ cs, l)), w2))
     | (Panic m, w1) \<Rightarrow> (Panic m, w1)
     | (Diverge, w1) \<Rightarrow> (Diverge, w1))"

definition StreamCandlesticks :: "'w kraken_client \<Rightarrow> product \<Rightarrow> nat \<Rightarrow> (candlestick list \<times> int, 'w) act" where
  "StreamCandlesticks k p n =
    bind_act (wrap_act ''error making initial Kraken OHLC call'' (kc_ohlc k (productToKrakenType p) None)) (\<lambda>response w.
      kraken_rounds k p n (oh_last response) w)"

end
