(* ===== verification/Exchange_Specs.thy ===== *)
theory Exchange_Specs
  imports Exchanges Trading_Specs
begin

text \<open>
  Orders on GDAX: how often the client is called and how long the program sleeps, what an answer
  stands for, and when an order that was placed is given up; the guard on the number of
  candlesticks.
\<close>

section \<open>A client that keeps a log\<close>

datatype gdax_event = Created gdax_order | Asked string | Slept duration

text \<open>Its answers are any functions of the log so far.\<close>

definition logged :: "(gdax_order \<Rightarrow> gdax_event list \<Rightarrow> gdax_order go_result) \<Rightarrow>
    (string \<Rightarrow> gdax_event list \<Rightarrow> gdax_order go_result) \<Rightarrow> gdax_event list gdax_client" where
  "logged create get =
     \<lparr>gc_rates = (\<lambda>p s e k tr. (Ok [], tr)),
      gc_create = (\<lambda>order tr. (create order tr, tr @ [Created order])),
      gc_get = (\<lambda>i tr. (get i tr, tr @ [Asked i])),
      gc_sleep = (\<lambda>d tr. tr @ [Slept d])\<rparr>"

definition orders_in :: "gdax_event list \<Rightarrow> gdax_order list" where
  "orders_in tr = List.map_filter (\<lambda>e. case e of Created o1 \<Rightarrow> Some o1 | _ \<Rightarrow> None) tr"

definition asked_in :: "gdax_event list \<Rightarrow> nat" where
  "asked_in tr = length (filter (\<lambda>e. case e of Asked _ \<Rightarrow> True | _ \<Rightarrow> False) tr)"

definition slept_in :: "gdax_event list \<Rightarrow> duration" where
  "slept_in tr = (\<Sum>e\<leftarrow>tr. case e of Slept d \<Rightarrow> d | _ \<Rightarrow> 0)"

lemma log_simps [simp]:
  "orders_in [] = []" "orders_in (Created o1 # tr) = o1 # orders_in tr" "orders_in (Asked i # tr) = orders_in tr"
  "orders_in (Slept d # tr) = orders_in tr"
  "asked_in [] = 0" "asked_in (Created o1 # tr) = asked_in tr" "asked_in (Asked i # tr) = Suc (asked_in tr)"
  "asked_in (Slept d # tr) = asked_in tr"
  "slept_in [] = 0" "slept_in (Created o1 # tr) = slept_in tr" "slept_in (Asked i # tr) = slept_in tr"
  "slept_in (Slept d # tr) = d + slept_in tr"
  by (simp_all add: orders_in_def asked_in_def slept_in_def map_filter_simps)

lemma backoff_exact: "i < 20 \<Longrightarrow> backoff i = second * 2 ^ i"
proof -
  assume "i < 20"
  then have "(2 :: int) ^ i \<le> 2 ^ 20"
    by (intro power_increasing) simp_all
  then show "backoff i = second * 2 ^ i"
    by (simp add: backoff_def second_def in_int64I)
qed

lemma poll_log:
  assumes "poll_order (logged create get) i n tr = (r, tr1)" and "n \<le> 20"
  shows "\<exists>new. tr1 = tr @ new \<and> orders_in new = [] \<and> asked_in new \<le> n \<and> slept_in new \<le> second * (2 ^ 20 - 2 ^ (20 - n))"
  using assms
proof (induction n arbitrary: tr)
  case (Suc n)
  define k where "k = 20 - Suc n"
  have k: "20 - n = Suc k" "19 - n = k" "k < 20" "gdaxRetries - Suc n = k"
    using Suc.prems(2) by (simp_all add: k_def gdaxRetries_def)
  have later: ?case if polled: "poll_order (logged create get) i n (tr @ [Asked i, Slept (backoff k)]) = (r, tr1)"
  proof -
    obtain new where new: "tr1 = (tr @ [Asked i, Slept (backoff k)]) @ new" "orders_in new = []" "asked_in new \<le> n"
      "slept_in new \<le> second * (2 ^ 20 - 2 ^ (20 - n))"
      using Suc.IH[OF polled] Suc.prems(2) by auto
    have "slept_in ([Asked i, Slept (backoff k)] @ new) \<le> second * (2 ^ 20 - 2 ^ (20 - Suc n))"
      using new(4) k backoff_exact[of k] by (simp add: algebra_simps)
    then show ?thesis
      using new by (intro exI[of _ "[Asked i, Slept (backoff k)] @ new"]) simp
  qed
  have "(2 :: int) ^ (20 - Suc n) \<le> 2 ^ 20"
    by (intro power_increasing) simp_all
  then have asked_only: ?case if "tr1 = tr @ [Asked i]"
    using that by (intro exI[of _ "[Asked i]"]) (simp add: second_def)
  show ?case
    using Suc.prems(1) later asked_only
    by (auto simp: logged_def k Let_def split: go_result.splits if_splits)
qed simp

lemma orders_in_append [simp]: "orders_in (tr @ new) = orders_in tr @ orders_in new"
  by (induction tr) (simp_all add: orders_in_def map_filter_simps split: option.split)

text \<open>What a settled order came from.\<close>

lemma poll_settled:
  assumes "poll_order (logged create get) i n tr = (Ok (Some final), tr1)"
  shows "\<exists>before. tr1 = before @ [Asked i] \<and> get i before = Ok final \<and> go_status final = ''done'' \<and> go_settled final"
  using assms
  by (induction n arbitrary: tr) (auto simp: logged_def Let_def split: go_result.splits if_splits)

section \<open>Orders\<close>

lemma gdax_order_log:
  assumes "gdax_CreateMarketOrder (logged create get) args tr = (r, tr1)"
  shows "\<exists>new. tr1 = tr @ new \<and> asked_in new \<le> 20 \<and> slept_in new \<le> second * (2 ^ 20 - 1) \<and>
    (new = [] \<and> gdax_request args = Err (Errorf ''error: unrecognized product type'') \<and> r = Err (Errorf ''error: unrecognized product type'') \<or>
     (\<exists>order fc ec. gdax_request args = Ok (order, fc, ec) \<and> orders_in new = [order]))"
proof (cases "gdax_request args")
  case (Ok req)
  obtain order fc ec where req: "gdax_request args = Ok (order, fc, ec)"
    using Ok by (cases req) simp
  have none: ?thesis if "tr1 = tr @ [Created order]"
    using that req by (intro exI[of _ "[Created order]"]) (simp add: second_def)
  show ?thesis
  proof (cases "create order tr")
    case (Ok placed)
    obtain q tr2 where q: "poll_order (logged create get) (go_id placed) gdaxRetries (tr @ [Created order]) = (q, tr2)"
      by (metis prod.collapse)
    have "tr1 = tr2"
      using assms q Ok
      by (cases q) (auto simp: gdax_CreateMarketOrder_def req bind_act_def result_act_def wrap_act_def
          logged_def split: option.splits)
    moreover obtain new where "tr2 = (tr @ [Created order]) @ new" "orders_in new = []" "asked_in new \<le> 20"
      "slept_in new \<le> second * (2 ^ 20 - 1)"
      using poll_log[OF q] by (auto simp: gdaxRetries_def)
    ultimately show ?thesis
      using req by (intro exI[of _ "Created order # new"]) simp
  qed (use assms req none in \<open>simp_all add: gdax_CreateMarketOrder_def bind_act_def result_act_def wrap_act_def logged_def\<close>)
next
  case (Err e)
  then show ?thesis
    using assms
    by (auto simp: gdax_CreateMarketOrder_def bind_act_def result_act_def gdax_request_def second_def Let_def
        split: if_splits option.splits)
qed (auto simp: gdax_request_def Let_def split: if_splits option.splits)

text \<open>C17. Whatever the client answers, one call places at most one order: none when the product is
  unknown, the requested one otherwise. It asks for the state of the order at most twenty times and
  sleeps at most \<open>2 ^ 20 - 1\<close> seconds, twelve days, in all.\<close>

theorem gdax_sends_one_order:
  assumes "gdax_CreateMarketOrder (logged create get) args tr = (r, tr1)"
  shows "\<exists>new. tr1 = tr @ new \<and> asked_in new \<le> 20 \<and> slept_in new \<le> second * (2 ^ 20 - 1) \<and>
    (new = [] \<and> gdax_request args = Err (Errorf ''error: unrecognized product type'') \<and> r = Err (Errorf ''error: unrecognized product type'') \<or>
     (\<exists>order fc ec. gdax_request args = Ok (order, fc, ec) \<and> orders_in new = [order]))"
  using assms by (rule gdax_order_log)

definition btc_buy :: market_order where
  "btc_buy = \<lparr>mo_product = ProductBTCUSD, mo_side = OrderBuy, mo_cost = Fin 100\<rparr>"

definition placed_order :: "string \<Rightarrow> gdax_order \<Rightarrow> gdax_order" where
  "placed_order status order = order\<lparr>go_id := ''7'', go_status := status, go_settled := True, go_filled_size := Fin 2\<rparr>"

text \<open>A client that is open at the first question and settled at the second.\<close>

definition two_questions :: "string \<Rightarrow> gdax_event list \<Rightarrow> gdax_order go_result" where
  "two_questions i tr = (case orders_in tr of
     [] \<Rightarrow> Err (Errorf ''not found'')
   | o1 # _ \<Rightarrow> Ok (placed_order (if asked_in tr = 0 then ''open'' else ''done'') o1))"

abbreviation two_client :: "gdax_event list gdax_client" where
  "two_client \<equiv> logged (\<lambda>o1 tr. Ok (placed_order ''pending'' o1)) two_questions"

lemmas gdax_run = gdax_CreateMarketOrder_def gdax_request_def bind_act_def result_act_def wrap_act_def logged_def
  two_questions_def placed_order_def btc_buy_def gdax_products_def gdaxRetries_def backoff_def numeral_nat Let_def
  gdax_response_def

lemma two_client_run:
  "gdax_CreateMarketOrder two_client btc_buy [] =
     (Ok \<lparr>or_exchange_id = ''7'', or_filled_size = Fin 2, or_filled_currency = CurrencyBTC, or_fees = Fin 0,
        or_fees_currency = CurrencyUSD\<rparr>,
      [Created (fst (case gdax_request btc_buy of Ok q \<Rightarrow> q)), Asked ''7'', Slept (backoff 0), Asked ''7''])"
  by (simp add: gdax_run)

lemma btc_request: "gdax_request btc_buy \<noteq> Err e"
  by (simp add: gdax_request_def btc_buy_def gdax_products_def)

lemma gdax_sends_one_order_witness:
  "\<exists>new. snd (gdax_CreateMarketOrder two_client btc_buy []) = new \<and> asked_in new \<le> 20 \<and> length (orders_in new) = 1"
  using gdax_sends_one_order[OF two_client_run] by (auto simp: two_client_run btc_request)

text \<open>C18. A response of the exchange is the order's, as the last answer of the client gives it: the
  order was placed with the amount asked for, that answer is about the id the exchange gave it, and
  says that the order is done and settled.\<close>

theorem gdax_fill_is_settled:
  assumes "gdax_CreateMarketOrder (logged create get) args tr = (Ok response, tr1)"
  shows "\<exists>order fc ec placed before final. gdax_request args = Ok (order, fc, ec) \<and> create order tr = Ok placed \<and>
    tr1 = before @ [Asked (go_id placed)] \<and> get (go_id placed) before = Ok final \<and>
    go_status final = ''done'' \<and> go_settled final \<and> response = gdax_response args fc ec final"
proof -
  obtain order fc ec where req: "gdax_request args = Ok (order, fc, ec)"
    using assms by (auto simp: gdax_CreateMarketOrder_def bind_act_def result_act_def split: go_result.splits)
  obtain placed where placed: "create order tr = Ok placed"
    using assms
    by (cases "create order tr") (auto simp: gdax_CreateMarketOrder_def req bind_act_def result_act_def wrap_act_def logged_def)
  obtain final where "poll_order (logged create get) (go_id placed) gdaxRetries (tr @ [Created order]) = (Ok (Some final), tr1)"
    and "response = gdax_response args fc ec final"
    using assms placed
    by (auto simp: gdax_CreateMarketOrder_def req bind_act_def result_act_def wrap_act_def logged_def
        split: go_result.splits option.splits prod.splits)
  with req placed poll_settled show ?thesis
    by blast
qed

lemma gdax_fill_is_settled_witness:
  "\<exists>before final. two_questions ''7'' before = Ok final \<and> go_settled final \<and> go_filled_size final = Fin 2"
  using gdax_fill_is_settled[OF two_client_run]
  by (clarsimp simp: gdax_response_def btc_buy_def) metis

text \<open>An order that was placed is given up when a question about it fails for any reason but the
  rate limit: the caller gets an error, although the exchange has the order.\<close>

theorem gdax_placed_order_given_up:
  assumes "gdax_request args = Ok (order, fc, ec)" and "create order tr = Ok placed"
    and "get (go_id placed) (tr @ [Created order]) = Err e" and "\<not> rate_limited e"
  shows "gdax_CreateMarketOrder (logged create get) args tr =
    (Err (Wrapf e ''error fetching GDAX order''), tr @ [Created order, Asked (go_id placed)])"
  using assms by (simp add: gdax_CreateMarketOrder_def bind_act_def result_act_def wrap_act_def logged_def gdaxRetries_def numeral_nat Let_def)

lemma gdax_placed_order_given_up_witness:
  "fst (gdax_CreateMarketOrder (logged (\<lambda>o1 tr. Ok (placed_order ''pending'' o1)) (\<lambda>i tr. Err (Errorf ''timeout''))) btc_buy []) =
     Err (Wrapf (Errorf ''timeout'') ''error fetching GDAX order'')"
proof -
  have "\<not> rate_limited (Errorf ''timeout'')"
    by code_simp
  then show ?thesis
    by (subst gdax_placed_order_given_up) (auto simp: gdax_request_def btc_buy_def gdax_products_def)
qed

section \<open>The guard on the number of candlesticks\<close>

lemma few_intervals:
  assumes "0 \<le> n" "n * second < 2 ^ 63" "0 < k" "k < 2 ^ 53"
  shows "\<not> fle (Fin 200) (fdiv (duration_seconds (time_sub start (start + n * second))) (float_of_int k))"
proof -
  have n: "n < 2 ^ 53"
    using assms(2) by (simp add: second_def)
  have "time_sub start (start + n * second) = (- n) * second"
    using assms by (subst time_sub_exact) (simp_all add: second_def)
  then have "duration_seconds (time_sub start (start + n * second)) = Fin (of_int (- n))"
    using duration_seconds_whole[of "- n"] n assms(1) by simp
  moreover have "fdiv (Fin (of_int (- n))) (Fin (of_int k)) = round64 (of_int (- n) < (0 :: rat)) (of_int (- n) / of_int k)"
    using assms(3) by (simp add: fdiv_def)
  moreover have "fle (round64 (of_int (- n) < (0 :: rat)) (of_int (- n) / of_int k)) (Fin 0)"
    using assms by (intro round64_le_fixed) (simp_all add: divide_le_0_iff)
  ultimately show ?thesis
    using assms fle_trans[of "Fin 200" _ "Fin 0"] by auto
qed

text \<open>The guard against asking GDAX for more than 200 candlesticks never fires: it subtracts the
  end from the start, so that for a period that does not run backwards the number of intervals is
  not positive. Every such period is asked for, whatever its length.\<close>

theorem gdax_guard_never_fires:
  assumes "0 \<le> n" and "n * second < 2 ^ 63" and "0 < k" and "k < 2 ^ 53"
  shows "fst (gdax_GetCandlesticks g p start (start + n * second) k w) \<noteq>
    Err (Errorf ''error: too many candlesticks requested of GDAX'')"
  using few_intervals[OF assms]
  by (auto simp: gdax_GetCandlesticks_def bind_act_def wrap_act_def result_act_def cause_wrap_err Let_def split: go_result.splits prod.splits)

lemma gdax_guard_never_fires_witness:
  "fst (gdax_GetCandlesticks (logged create get) p 0 (1000000 * second) 60 []) \<noteq>
    Err (Errorf ''error: too many candlesticks requested of GDAX'')"
  using gdax_guard_never_fires[of 1000000 60 "logged create get" p 0 "[]"] by (simp add: second_def)

section \<open>The stream of Kraken\<close>

text \<open>
  A server as the documentation describes it: to an id it answers with the candlesticks committed
  after it, the running one, and the id of the last committed one. What it says at each call: that it is down,
  or how many candlesticks of the history are committed.
\<close>

datatype kraken_answer = Down | Committed nat

fun counts :: "kraken_answer list \<Rightarrow> nat list" where
  "counts [] = []"
| "counts (Down # w) = counts w"
| "counts (Committed n # w) = n # counts w"

definition kraken_server :: "(nat \<Rightarrow> kraken_ohlc) \<Rightarrow> (nat \<Rightarrow> kraken_ohlc) \<Rightarrow> kraken_answer list kraken_client" where
  "kraken_server hist running = \<lparr>
     kc_ohlc = (\<lambda>pair since w. case w of
         Committed n # w1 \<Rightarrow>
           (Ok \<lparr>oh_ohlc = map hist [(case since of None \<Rightarrow> 0 | Some i \<Rightarrow> nat (i + 1))..<n] @ [running n],
                oh_last = int n - 1\<rparr>, w1)
       | _ \<Rightarrow> (Err (Errorf ''service unavailable''), tl w)),
     kc_sleep = (\<lambda>d w. w)\<rparr>"

lemma kraken_server_simps [simp]:
  "kc_ohlc (kraken_server hist running) pair since [] = (Err (Errorf ''service unavailable''), [])"
  "kc_ohlc (kraken_server hist running) pair since (Down # w) = (Err (Errorf ''service unavailable''), w)"
  "kc_ohlc (kraken_server hist running) pair since (Committed n # w) =
     (Ok \<lparr>oh_ohlc = map hist [(case since of None \<Rightarrow> 0 | Some i \<Rightarrow> nat (i + 1))..<n] @ [running n], oh_last = int n - 1\<rparr>, w)"
  "kc_sleep (kraken_server hist running) d w = w"
  by (simp_all add: kraken_server_def)

lemma counts_take: "set (counts (take n w)) \<subseteq> set (counts w)"
  by (induction w arbitrary: n rule: counts.induct) (auto simp: take_Cons' split: if_splits)

lemma counts_take_le:
  assumes "sorted (m # counts w)"
  shows "m \<le> last (m # counts (take n w))"
  using assms subsetD[OF counts_take[of n w], OF last_in_set] by auto

lemma map_append_upt: "a \<le> m \<Longrightarrow> m \<le> b \<Longrightarrow> map f [a..<m] @ map f [m..<b] = map f [a..<b]"
  by (metis map_append upt_add_eq_append le_Suc_ex)

lemma kraken_rounds_stream:
  assumes "sorted (a # counts w)"
  shows "kraken_rounds (kraken_server hist running) p n (int a - 1) w =
    (let b = last (a # counts (take n w)) in (Ok (map (candle_of_ohlc p \<circ> hist) [a..<b], int b - 1), drop n w))"
  using assms
proof (induction n arbitrary: a w)
  case (Suc n)
  show ?case
  proof (cases w)
    case Nil
    then show ?thesis
      using Suc.IH[of a "[]"] by simp
  next
    case (Cons x w1)
    show ?thesis
    proof (cases x)
      case Down
      then show ?thesis
        using Suc.IH[of a w1] Suc.prems Cons by simp
    next
      case (Committed m)
      have m: "a \<le> m" "sorted (m # counts w1)"
        using Suc.prems Cons Committed by auto
      have "m \<le> last (m # counts (take n w1))"
        using m(2) by (rule counts_take_le)
      show ?thesis
        using Suc.IH[OF m(2)] m \<open>m \<le> last (m # counts (take n w1))\<close> map_append_upt[of a m _ "\<lambda>i. candle_of_ohlc p (hist i)"]
        by (cases "a = m") (simp_all add: Cons Committed Let_def o_def)
    qed
  qed
qed simp

text \<open>C30. The stream of a product is the history of the exchange without a gap and without a
  repetition: after \<open>n\<close> rounds, of which any may have failed, exactly the candlesticks committed since the call that opened it were
  sent, in order. The running candlestick is never sent.\<close>

theorem kraken_stream_is_gapless:
  assumes "sorted (a # counts w)"
  shows "StreamCandlesticks (kraken_server hist running) p n (Committed a # w) =
    (let b = last (a # counts (take n w)) in (Ok (map (candle_of_ohlc p \<circ> hist) [a..<b], int b - 1), drop n w))"
  using kraken_rounds_stream[OF assms]
  by (simp add: StreamCandlesticks_def bind_act_def wrap_act_def)

definition minute_ohlc :: "nat \<Rightarrow> kraken_ohlc" where
  "minute_ohlc i = \<lparr>ko_time = int i * minute, ko_open = Fin 1, ko_high = Fin 2, ko_low = Fin 1, ko_close = Fin 2, ko_volume = Fin 3\<rparr>"

lemma kraken_stream_is_gapless_witness:
  "fst (StreamCandlesticks (kraken_server minute_ohlc minute_ohlc) ProductXMRUSD 4 [Committed 3, Committed 3, Committed 5, Down, Committed 6]) =
     Ok (map (candle_of_ohlc ProductXMRUSD \<circ> minute_ohlc) [3, 4, 5], 5)"
  using kraken_stream_is_gapless[of 3 "[Committed 3, Committed 5, Down, Committed 6]" minute_ohlc minute_ohlc ProductXMRUSD 4]
  by (simp add: numeral_nat upt_rec)

end
