(* ===== verification/Importers.thy ===== *)
theory Importers
  imports Candlesticks Trading "HOL-Library.AList"
begin

text \<open>
  \<open>realtime_importer.go\<close> and \<open>historical_importer.go\<close>: trades and candlesticks of an exchange on
  their way into the backend. Exchange, backend and clock are parameters. The map of builders is an
  association list. The two goroutines of the realtime importer are modelled twice: one
  operation after the other, and step by step in any interleaving.
\<close>

section \<open>The realtime importer\<close>

record importer =
  ri_product :: product
  ri_candles :: "(int \<times> candlestick_builder) list"

definition NewRealtimeImporter :: "product \<Rightarrow> importer" where
  "NewRealtimeImporter p = \<lparr>ri_product = p, ri_candles = []\<rparr>"

definition dbCandlestickBucketSize :: int where
  "dbCandlestickBucketSize = 1"

text \<open>Under the lock: a builder for the bucket, if there is none.\<close>

definition ensure_bucket :: "time \<Rightarrow> importer \<Rightarrow> importer" where
  "ensure_bucket bucket i =
    (if map_of (ri_candles i) (time_unix bucket) = None
     then i\<lparr>ri_candles := AList.update (time_unix bucket)
              (NewCandlestickBuilder (ri_product i) bucket (time_add bucket minute)) (ri_candles i)\<rparr>
     else i)"

text \<open>Without the lock: the builder is looked up again and fed.\<close>

definition feed_bucket :: "int \<Rightarrow> exchange_message \<Rightarrow> importer \<Rightarrow> importer go_result" where
  "feed_bucket unixBucket m i =
    (case map_of (ri_candles i) unixBucket of
       Some candle \<Rightarrow> Ok (i\<lparr>ri_candles := AList.update unixBucket (ProcessMessage candle m) (ri_candles i)\<rparr>)
     | None \<Rightarrow> Panic ''invalid memory address or nil pointer dereference'')"

definition ProcessExchangeMessage :: "exchange_message \<Rightarrow> importer \<Rightarrow> importer go_result" where
  "ProcessExchangeMessage m i =
    bind_result (CandlestickBucket (em_time m) dbCandlestickBucketSize) (\<lambda>bucket.
      feed_bucket (time_unix bucket) m (ensure_bucket bucket i))"

text \<open>The buckets a flush goes through: all but the last, or none.\<close>

definition flushed_buckets :: "importer \<Rightarrow> int list" where
  "flushed_buckets i =
    (let buckets = sort (map fst (ri_candles i)) in if length buckets < 2 then [] else butlast buckets)"

definition built_candle :: "int \<Rightarrow> importer \<Rightarrow> candlestick go_result" where
  "built_candle bucket i =
    (case map_of (ri_candles i) bucket of
       Some builder \<Rightarrow> Ok (Build builder)
     | None \<Rightarrow> Panic ''invalid memory address or nil pointer dereference'')"

text \<open>The result is whether the bucket is to be deleted: not when the upsert failed.\<close>

definition store_built :: "(candlestick \<Rightarrow> (unit, 'w) act) \<Rightarrow> candlestick \<Rightarrow> (bool, 'w) act" where
  "store_built upsertCandlestick candle w =
    (if flt (Fin 0) (cs_volume candle) then
       (case upsertCandlestick candle w of
          (Ok u, w1) \<Rightarrow> (Ok True, w1)
        | (Err e, w1) \<Rightarrow> (Ok False, w1)
        | (Panic p, w1) \<Rightarrow> (Panic p, w1)
        | (Diverge, w1) \<Rightarrow> (Diverge, w1))
     else (Ok True, w))"

definition delete_bucket :: "int \<Rightarrow> importer \<Rightarrow> importer" where
  "delete_bucket bucket i = i\<lparr>ri_candles := AList.delete bucket (ri_candles i)\<rparr>"

fun flush_loop :: "(candlestick \<Rightarrow> (unit, 'w) act) \<Rightarrow> int list \<Rightarrow> (unit, importer \<times> 'w) act" where
  "flush_loop upsertCandlestick [] s = (Ok (), s)"
| "flush_loop upsertCandlestick (bucket # buckets) (i, w) =
    bind_act (result_act (built_candle bucket i)) (\<lambda>candle.
    bind_act (on_world (store_built upsertCandlestick candle)) (\<lambda>stored (i, w).
      flush_loop upsertCandlestick buckets (if stored then delete_bucket bucket i else i, w))) (i, w)"

definition Flush :: "(candlestick \<Rightarrow> (unit, 'w) act) \<Rightarrow> (unit, importer \<times> 'w) act" where
  "Flush upsertCandlestick s = flush_loop upsertCandlestick (flushed_buckets (fst s)) s"

text \<open>The messages of the channel and the ticks of the ticker, each handled before the next one. A
  channel that cannot be opened changes nothing: it is opened again five seconds later.\<close>

datatype importer_event = Message exchange_message | FlushTick

fun process_events :: "(candlestick \<Rightarrow> (unit, 'w) act) \<Rightarrow> importer_event list \<Rightarrow> (unit, importer \<times> 'w) act" where
  "process_events upsertCandlestick [] s = (Ok (), s)"
| "process_events upsertCandlestick (Message m # es) (i, w) =
    bind_act (result_act (ProcessExchangeMessage m i)) (\<lambda>i1 s. process_events upsertCandlestick es (i1, w)) (i, w)"
| "process_events upsertCandlestick (FlushTick # es) s =
    bind_act (Flush upsertCandlestick) (\<lambda>_. process_events upsertCandlestick es) s"

text \<open>An exchange that emits full candlesticks: each one is upserted, a failure is logged.\<close>

fun StartProcessingCandlesticks :: "(candlestick \<Rightarrow> (unit, 'w) act) \<Rightarrow> candlestick list \<Rightarrow> (unit, 'w) act" where
  "StartProcessingCandlesticks upsertCandlestick [] w = (Ok (), w)"
| "StartProcessingCandlesticks upsertCandlestick (c # cs) w =
    (case upsertCandlestick c w of
       (Ok u, w1) \<Rightarrow> StartProcessingCandlesticks upsertCandlestick cs w1
     | (Err e, w1) \<Rightarrow> StartProcessingCandlesticks upsertCandlestick cs w1
     | (Panic p, w1) \<Rightarrow> (Panic p, w1)
     | (Diverge, w1) \<Rightarrow> (Diverge, w1))"

section \<open>The two goroutines, step by step\<close>

text \<open>
  Between two steps the other goroutine may run. The reader is between messages or has made sure of
  the bucket of one; the flusher is idle, at the head of the buckets left, or has
  built the candlestick of a bucket, or has stored it. A goroutine that panics has no step.
\<close>

datatype reader = Reading | Ensured int exchange_message
datatype flusher = Waiting | Looping "int list" | Built int candlestick "int list" | Stored int "int list"

record 'w race =
  rc_importer :: importer
  rc_world :: 'w
  rc_reader :: reader
  rc_flusher :: flusher

inductive race_step :: "(candlestick \<Rightarrow> (unit, 'w) act) \<Rightarrow> 'w race \<Rightarrow> exchange_message option \<Rightarrow> 'w race \<Rightarrow> bool"
  for upsertCandlestick where
  ensure: "rc_reader s = Reading \<Longrightarrow> CandlestickBucket (em_time m) dbCandlestickBucketSize = Ok bucket \<Longrightarrow>
    race_step upsertCandlestick s (Some m)
      (s\<lparr>rc_importer := ensure_bucket bucket (rc_importer s), rc_reader := Ensured (time_unix bucket) m\<rparr>)"
| feed: "rc_reader s = Ensured bucket m \<Longrightarrow> feed_bucket bucket m (rc_importer s) = Ok i \<Longrightarrow>
    race_step upsertCandlestick s None (s\<lparr>rc_importer := i, rc_reader := Reading\<rparr>)"
| start: "rc_flusher s = Waiting \<Longrightarrow>
    race_step upsertCandlestick s None (s\<lparr>rc_flusher := Looping (flushed_buckets (rc_importer s))\<rparr>)"
| finish: "rc_flusher s = Looping [] \<Longrightarrow> race_step upsertCandlestick s None (s\<lparr>rc_flusher := Waiting\<rparr>)"
| build: "rc_flusher s = Looping (bucket # buckets) \<Longrightarrow> built_candle bucket (rc_importer s) = Ok candle \<Longrightarrow>
    race_step upsertCandlestick s None (s\<lparr>rc_flusher := Built bucket candle buckets\<rparr>)"
| store: "rc_flusher s = Built bucket candle buckets \<Longrightarrow>
    store_built upsertCandlestick candle (rc_world s) = (Ok stored, w) \<Longrightarrow>
    race_step upsertCandlestick s None
      (s\<lparr>rc_world := w, rc_flusher := (if stored then Stored bucket buckets else Looping buckets)\<rparr>)"
| delete: "rc_flusher s = Stored bucket buckets \<Longrightarrow>
    race_step upsertCandlestick s None
      (s\<lparr>rc_importer := delete_bucket bucket (rc_importer s), rc_flusher := Looping buckets\<rparr>)"

text \<open>A run, with the messages it read.\<close>

inductive race_run :: "(candlestick \<Rightarrow> (unit, 'w) act) \<Rightarrow> 'w race \<Rightarrow> exchange_message list \<Rightarrow> 'w race \<Rightarrow> bool"
  for upsertCandlestick s where
  nothing: "race_run upsertCandlestick s [] s"
| one_step: "race_run upsertCandlestick s ms t \<Longrightarrow> race_step upsertCandlestick t None u \<Longrightarrow> race_run upsertCandlestick s ms u"
| one_message: "race_run upsertCandlestick s ms t \<Longrightarrow> race_step upsertCandlestick t (Some m) u \<Longrightarrow>
    race_run upsertCandlestick s (ms @ [m]) u"

definition race_start :: "product \<Rightarrow> 'w \<Rightarrow> 'w race" where
  "race_start p w = \<lparr>rc_importer = NewRealtimeImporter p, rc_world = w, rc_reader = Reading, rc_flusher = Waiting\<rparr>"

section \<open>The historical importer\<close>

record 'w import_services =
  is_candlesticks :: "product \<Rightarrow> time \<Rightarrow> time \<Rightarrow> int \<Rightarrow> (candlestick list, 'w) act"
  is_upsert :: "candlestick \<Rightarrow> (unit, 'w) act"
  is_sleep :: "duration \<Rightarrow> 'w \<Rightarrow> 'w"

definition importerBatchSize :: int where
  "importerBatchSize = 150"

definition importerMaxRetries :: nat where
  "importerMaxRetries = 20"

definition gdaxCandlestickGranularitySeconds :: int where
  "gdaxCandlestickGranularitySeconds = 60"

fun upsert_all :: "'w import_services \<Rightarrow> candlestick list \<Rightarrow> (unit, 'w) act" where
  "upsert_all sv [] w = (Ok (), w)"
| "upsert_all sv (c # cs) w =
    bind_act (wrap_act ''error upserting candlestick'' (is_upsert sv c)) (\<lambda>_. upsert_all sv cs) w"

definition processBatch :: "'w import_services \<Rightarrow> product \<Rightarrow> time \<Rightarrow> time \<Rightarrow> (unit, 'w) act" where
  "processBatch sv p start end =
    bind_act (wrap_act ''error fetching candlesticks'' (is_candlesticks sv p start end gdaxCandlestickGranularitySeconds))
      (upsert_all sv)"

text \<open>One message of the channel, with the tries left; at zero the error is logged and the message is gone.\<close>

fun process_retrying :: "'w import_services \<Rightarrow> product \<Rightarrow> nat \<Rightarrow> time \<Rightarrow> time \<Rightarrow> (unit, 'w) act" where
  "process_retrying sv p 0 start end w = (Ok (), w)"
| "process_retrying sv p (Suc n) start end w =
    (case processBatch sv p start end w of
       (Err e, w1) \<Rightarrow>
         process_retrying sv p n start end (is_sleep sv (wrap64 (second * 2 ^ (importerMaxRetries - Suc n))) w1)
     | r \<Rightarrow> r)"

fun import_worker :: "'w import_services \<Rightarrow> product \<Rightarrow> (time \<times> time) list \<Rightarrow> (unit, 'w) act" where
  "import_worker sv p [] w = (Ok (), w)"
| "import_worker sv p ((start, end) # ms) w =
    bind_act (process_retrying sv p importerMaxRetries start end) (\<lambda>_. import_worker sv p ms) w"

text \<open>The loop over the batches, which ends because the step is positive.\<close>

function batches :: "time \<Rightarrow> time \<Rightarrow> (time \<times> time) list" where
  "batches i end =
    (if i < end \<or> i = end
     then (i, time_add i (importerBatchSize * minute)) # batches (time_add i (importerBatchSize * minute)) end
     else [])"
  by pat_completeness auto
termination
  by (relation "measure (\<lambda>(i, end). nat (end - i + 1))") (auto simp: time_add_def importerBatchSize_def minute_def)

declare batches.simps [simp del]

text \<open>With one worker. Without a worker the first message is never taken from the channel.\<close>

definition Import :: "'w import_services \<Rightarrow> product \<Rightarrow> int \<Rightarrow> time \<Rightarrow> time \<Rightarrow> (unit, 'w) act" where
  "Import sv p concurrency start end =
    (if concurrency \<le> 0 \<and> batches start end \<noteq> [] then result_act Diverge else import_worker sv p (batches start end))"

end
