(* ===== verification/Importer_Specs.thy ===== *)
theory Importer_Specs
  imports Importers Backend_Specs
begin

text \<open>
  The realtime importer keeps every trade, in any interleaving of its goroutines, as long as the
  trades come in order, and replaces a candlestick when they do not; the batches of the historical importer,
  its retries, and what importing twice does to the database.
\<close>

section \<open>Buckets of messages\<close>

definition minute_bucket :: "time \<Rightarrow> time" where
  "minute_bucket t = (case CandlestickBucket t dbCandlestickBucketSize of Ok b \<Rightarrow> b | _ \<Rightarrow> 0)"

definition message_key :: "exchange_message \<Rightarrow> int" where
  "message_key m = time_unix (minute_bucket (em_time m))"

lemma CandlestickBucket_minute: "CandlestickBucket t dbCandlestickBucketSize = Ok (minute_bucket t)"
  by (simp add: minute_bucket_def CandlestickBucket_def dbCandlestickBucketSize_def Let_def in_int64I)

definition of_key :: "int \<Rightarrow> exchange_message list \<Rightarrow> exchange_message list" where
  "of_key k ms = filter (\<lambda>m. message_key m = k) ms"

text \<open>The builder of a bucket: made when its first message came, fed with those that are \<open>fed\<close>.\<close>

definition new_builder :: "product \<Rightarrow> exchange_message \<Rightarrow> candlestick_builder" where
  "new_builder p m = NewCandlestickBuilder p (minute_bucket (em_time m)) (time_add (minute_bucket (em_time m)) minute)"

definition bucket_builder :: "product \<Rightarrow> exchange_message list \<Rightarrow> exchange_message list \<Rightarrow> int \<Rightarrow> candlestick_builder" where
  "bucket_builder p ms fed k = foldl ProcessMessage (new_builder p (hd (of_key k ms))) (of_key k fed)"

lemma of_key_simps [simp]:
  "of_key k [] = []" "of_key k (ms @ ns) = of_key k ms @ of_key k ns"
  "of_key k (m # ms) = (if message_key m = k then m # of_key k ms else of_key k ms)"
  by (simp_all add: of_key_def)

lemma of_key_Nil: "of_key k ms = [] \<longleftrightarrow> k \<notin> message_key ` set ms"
  by (auto simp: of_key_def filter_empty_conv)

lemma bucket_builder_later: "k \<in> message_key ` set ms \<Longrightarrow> bucket_builder p (ms @ ns) fed k = bucket_builder p ms fed k"
  by (simp add: bucket_builder_def hd_append of_key_Nil)

lemma bucket_builder_first: "k \<notin> message_key ` set ms \<Longrightarrow> message_key m = k \<Longrightarrow> bucket_builder p (ms @ [m]) ms k = new_builder p m"
  by (simp add: bucket_builder_def flip: of_key_Nil)

lemma bucket_builder_feed: "bucket_builder p ms (fed @ [m]) k =
    (if message_key m = k then ProcessMessage (bucket_builder p ms fed k) m else bucket_builder p ms fed k)"
  by (simp add: bucket_builder_def)

section \<open>The map of builders\<close>

lemma ensure_bucket_simps [simp]:
  "ri_product (ensure_bucket b i) = ri_product i"
  "map_of (ri_candles (ensure_bucket b i)) = (map_of (ri_candles i))(time_unix b :=
     (case map_of (ri_candles i) (time_unix b) of None \<Rightarrow> Some (NewCandlestickBuilder (ri_product i) b (time_add b minute)) | s \<Rightarrow> s))"
  "distinct (map fst (ri_candles i)) \<Longrightarrow> distinct (map fst (ri_candles (ensure_bucket b i)))"
  by (auto simp: ensure_bucket_def update_conv' distinct_update fun_upd_idem split: option.splits)

lemma delete_bucket_simps [simp]:
  "ri_product (delete_bucket k i) = ri_product i"
  "map_of (ri_candles (delete_bucket k i)) = (map_of (ri_candles i))(k := None)"
  "distinct (map fst (ri_candles i)) \<Longrightarrow> distinct (map fst (ri_candles (delete_bucket k i)))"
  by (simp_all add: delete_bucket_def delete_conv' distinct_delete)

lemma feed_bucket_Ok:
  assumes "feed_bucket k m i = Ok i1"
  obtains b where "map_of (ri_candles i) k = Some b" "ri_product i1 = ri_product i"
    "map_of (ri_candles i1) = (map_of (ri_candles i))(k \<mapsto> ProcessMessage b m)"
    "distinct (map fst (ri_candles i)) \<longrightarrow> distinct (map fst (ri_candles i1))"
  using assms by (auto simp: feed_bucket_def update_conv' distinct_update split: option.splits)

lemma flushed_buckets_below:
  assumes "distinct (map fst (ri_candles i))"
  shows "distinct (flushed_buckets i)" and "k \<in> set (flushed_buckets i) \<Longrightarrow> map_of (ri_candles i) k \<noteq> None"
    and "k \<in> set (flushed_buckets i) \<Longrightarrow> \<exists>j. map_of (ri_candles i) j \<noteq> None \<and> k < j"
proof -
  define ks where "ks = sort (map fst (ri_candles i))"
  have ks: "distinct ks" "sorted ks" "set ks = fst ` set (ri_candles i)"
    using assms by (simp_all add: ks_def)
  show "distinct (flushed_buckets i)"
    using ks(1) by (simp add: flushed_buckets_def Let_def distinct_butlast flip: ks_def)
  assume k: "k \<in> set (flushed_buckets i)"
  then have "k \<in> set (butlast ks)"
    by (auto simp: flushed_buckets_def Let_def simp flip: ks_def split: if_splits)
  moreover from this obtain ys y where y: "ks = ys @ [y]"
    by (cases ks rule: rev_cases) auto
  ultimately have "k < y" "k \<in> set ks" "y \<in> set ks"
    using ks(1,2) by (auto simp: sorted_append less_le)
  then show "map_of (ri_candles i) k \<noteq> None" "\<exists>j. map_of (ri_candles i) j \<noteq> None \<and> k < j"
    using ks(3) by (auto simp: map_of_eq_None_iff)
qed

section \<open>No trade is lost\<close>

text \<open>A backend that counts its calls, keeps what it is given, and fails when it wants to.\<close>

definition logged_upsert :: "(nat \<Rightarrow> bool) \<Rightarrow> candlestick \<Rightarrow> (unit, nat \<times> candlestick list) act" where
  "logged_upsert fails c w = (if fails (fst w) then (Err (Errorf ''connection lost''), (Suc (fst w), snd w))
     else (Ok (), (Suc (fst w), snd w @ [c])))"

text \<open>A bucket is settled when its candlestick was stored, or has no volume.\<close>

definition settled :: "candlestick list \<Rightarrow> candlestick_builder \<Rightarrow> bool" where
  "settled w b \<longleftrightarrow> Build b \<in> set w \<or> \<not> flt (Fin 0) (cs_volume (Build b))"

lemma store_built_settles:
  assumes "store_built (logged_upsert fails) (Build b) w = (Ok stored, w1)"
  shows "stored \<Longrightarrow> settled (snd w1) b" and "settled (snd w) b1 \<Longrightarrow> settled (snd w1) b1"
  using assms by (auto simp: store_built_def logged_upsert_def settled_def split: if_splits)

definition fed_messages :: "reader \<Rightarrow> exchange_message list \<Rightarrow> exchange_message list" where
  "fed_messages r ms = (case r of Reading \<Rightarrow> ms | Ensured _ _ \<Rightarrow> butlast ms)"

fun in_flight :: "flusher \<Rightarrow> int list" where
  "in_flight Waiting = []"
| "in_flight (Looping bs) = bs"
| "in_flight (Built b c bs) = b # bs"
| "in_flight (Stored b bs) = b # bs"

text \<open>
  The invariant: every builder is that of its bucket, a bucket without a builder is settled, the
  bucket of the message in hand has a builder, those in the flusher's hands have one, and are older
  than the last message read.
\<close>

definition builders_ok :: "product \<Rightarrow> exchange_message list \<Rightarrow> exchange_message list \<Rightarrow> candlestick list \<Rightarrow> importer \<Rightarrow> bool" where
  "builders_ok p ms fed w i \<longleftrightarrow> ri_product i = p \<and> distinct (map fst (ri_candles i)) \<and>
    (\<forall>k b. map_of (ri_candles i) k = Some b \<longrightarrow> k \<in> message_key ` set ms \<and> b = bucket_builder p ms fed k) \<and>
    (\<forall>k \<in> message_key ` set fed. map_of (ri_candles i) k = None \<longrightarrow>
      settled w (bucket_builder p ms fed k) \<and> k < message_key (last ms))"

fun reader_ok :: "exchange_message list \<Rightarrow> importer \<Rightarrow> reader \<Rightarrow> bool" where
  "reader_ok ms i Reading = True"
| "reader_ok ms i (Ensured k m) = (ms \<noteq> [] \<and> m = last ms \<and> k = message_key m \<and> map_of (ri_candles i) k \<noteq> None)"

definition held_ok :: "exchange_message list \<Rightarrow> importer \<Rightarrow> int list \<Rightarrow> bool" where
  "held_ok ms i ks \<longleftrightarrow> distinct ks \<and> (\<forall>k \<in> set ks. map_of (ri_candles i) k \<noteq> None \<and> ms \<noteq> [] \<and> k < message_key (last ms))"

fun flusher_ok :: "product \<Rightarrow> exchange_message list \<Rightarrow> exchange_message list \<Rightarrow> candlestick list \<Rightarrow> flusher \<Rightarrow> bool" where
  "flusher_ok p ms fed w (Built k c bs) = (c = Build (bucket_builder p ms fed k))"
| "flusher_ok p ms fed w (Stored k bs) = settled w (bucket_builder p ms fed k)"
| "flusher_ok p ms fed w _ = True"

definition race_inv :: "product \<Rightarrow> exchange_message list \<Rightarrow> (nat \<times> candlestick list) race \<Rightarrow> bool" where
  "race_inv p ms s \<longleftrightarrow> (let i = rc_importer s; fed = fed_messages (rc_reader s) ms; w = snd (rc_world s) in
     builders_ok p ms fed w i \<and> reader_ok ms i (rc_reader s) \<and> held_ok ms i (in_flight (rc_flusher s)) \<and>
     flusher_ok p ms fed w (rc_flusher s))"

inductive_cases race_stepE: "race_step up s om t"

lemma race_inv_start: "race_inv p [] (race_start p (0, []))"
  by (simp add: race_inv_def Let_def race_start_def NewRealtimeImporter_def builders_ok_def held_ok_def fed_messages_def)

lemma race_inv_ensure:
  assumes "race_inv p ms s" and "rc_reader s = Reading" and "\<forall>x \<in> set ms. message_key x \<le> message_key m"
  shows "race_inv p (ms @ [m]) (s\<lparr>rc_importer := ensure_bucket (minute_bucket (em_time m)) (rc_importer s),
    rc_reader := Ensured (message_key m) m\<rparr>)"
proof -
  let ?i = "rc_importer s" and ?j = "ensure_bucket (minute_bucket (em_time m)) (rc_importer s)" and ?k = "message_key m"
  have inv: "builders_ok p ms ms (snd (rc_world s)) ?i" "held_ok ms ?i (in_flight (rc_flusher s))"
    "flusher_ok p ms ms (snd (rc_world s)) (rc_flusher s)"
    using assms(1,2) by (simp_all add: race_inv_def Let_def fed_messages_def)
  have known: "k \<in> message_key ` set ms" if "k \<in> set (in_flight (rc_flusher s))" for k
    using inv(1,2) that by (fastforce simp: held_ok_def builders_ok_def)
  have newest: "ms \<noteq> [] \<and> k < message_key (last ms) \<Longrightarrow> k < ?k" for k
    using assms(3) by (auto intro: less_le_trans)
  have fresh: "?k \<notin> message_key ` set ms" if "map_of (ri_candles ?i) ?k = None"
  proof
    assume "?k \<in> message_key ` set ms"
    then have "?k < message_key (last ms)" "ms \<noteq> []"
      using inv(1) that by (auto simp: builders_ok_def)
    then show False
      using assms(3) by (meson last_in_set leD)
  qed
  have gone: "k < message_key m" if "k \<in> message_key ` set ms" "map_of (ri_candles ?i) k = None" for k
    using inv(1) that assms(3) unfolding builders_ok_def
    by (metis (no_types, lifting) empty_iff empty_set image_empty last_in_set less_le_trans)
  have keys: "map_of (ri_candles ?j) = (map_of (ri_candles ?i))(?k := (case map_of (ri_candles ?i) ?k of
      None \<Rightarrow> Some (new_builder (ri_product ?i) m) | s \<Rightarrow> s))"
    unfolding new_builder_def message_key_def by simp
  have "builders_ok p (ms @ [m]) ms (snd (rc_world s)) ?j"
    unfolding builders_ok_def keys
  proof (intro conjI allI ballI impI)
    show "ri_product ?j = p" "distinct (map fst (ri_candles ?j))"
      using inv(1) by (simp_all add: builders_ok_def)
  next
    fix k b
    assume "((map_of (ri_candles ?i))(?k := (case map_of (ri_candles ?i) ?k of
      None \<Rightarrow> Some (new_builder (ri_product ?i) m) | s \<Rightarrow> s))) k = Some b"
    then show "k \<in> message_key ` set (ms @ [m])" "b = bucket_builder p (ms @ [m]) ms k"
      using inv(1) fresh unfolding builders_ok_def
      by (auto simp: bucket_builder_later bucket_builder_first split: option.splits if_splits)
  next
    fix k
    assume "k \<in> message_key ` set ms" "((map_of (ri_candles ?i))(?k := (case map_of (ri_candles ?i) ?k of
      None \<Rightarrow> Some (new_builder (ri_product ?i) m) | s \<Rightarrow> s))) k = None"
    then show "settled (snd (rc_world s)) (bucket_builder p (ms @ [m]) ms k)" "k < message_key (last (ms @ [m]))"
      using inv(1) gone unfolding builders_ok_def
      by (auto simp: bucket_builder_later split: option.splits if_splits)
  qed
  moreover have "held_ok (ms @ [m]) ?j (in_flight (rc_flusher s))"
    using inv(2) newest unfolding held_ok_def keys by (auto split: option.splits)
  moreover have "flusher_ok p (ms @ [m]) ms (snd (rc_world s)) (rc_flusher s)"
    using inv(3) known by (cases "rc_flusher s") (simp_all add: bucket_builder_later)
  ultimately show ?thesis
    by (simp add: race_inv_def Let_def fed_messages_def message_key_def[symmetric] split: option.splits)
qed

lemma race_inv_feed:
  assumes inv: "race_inv p ms s" and r: "rc_reader s = Ensured k m" and "feed_bucket k m (rc_importer s) = Ok i"
  shows "race_inv p ms (s\<lparr>rc_importer := i, rc_reader := Reading\<rparr>)"
proof -
  let ?i = "rc_importer s"
  obtain old where ms: "ms = old @ [m]"
    using inv r by (cases ms rule: rev_cases) (simp_all add: race_inv_def Let_def)
  have inv: "builders_ok p ms old (snd (rc_world s)) ?i" "held_ok ms ?i (in_flight (rc_flusher s))"
    "flusher_ok p ms old (snd (rc_world s)) (rc_flusher s)" and k: "k = message_key m"
    using inv r by (simp_all add: race_inv_def Let_def fed_messages_def ms)
  obtain b where b: "map_of (ri_candles ?i) k = Some b" "ri_product i = ri_product ?i"
    "map_of (ri_candles i) = (map_of (ri_candles ?i))(k \<mapsto> ProcessMessage b m)"
    "distinct (map fst (ri_candles ?i)) \<longrightarrow> distinct (map fst (ri_candles i))"
    using assms(3) by (rule feed_bucket_Ok)
  have "builders_ok p ms ms (snd (rc_world s)) i"
    using inv(1) b(1,2,4) unfolding builders_ok_def b(3) k
    by (auto simp: ms bucket_builder_feed simp del: map_of_eq_Some_iff split: if_splits)
  moreover have "held_ok ms i (in_flight (rc_flusher s))"
    using inv(2) by (auto simp: held_ok_def b(3))
  moreover have "flusher_ok p ms ms (snd (rc_world s)) (rc_flusher s)"
    using inv(2,3) by (cases "rc_flusher s") (auto simp: ms bucket_builder_feed held_ok_def)
  ultimately show ?thesis
    by (simp add: race_inv_def Let_def fed_messages_def)
qed

text \<open>The flusher: starting, and each bucket's three steps.\<close>

lemma held_start:
  assumes "builders_ok p ms fed w i" and "\<forall>x \<in> set ms. message_key x \<le> message_key (last ms)"
  shows "held_ok ms i (flushed_buckets i)"
  unfolding held_ok_def
proof (intro conjI ballI)
  have d: "distinct (map fst (ri_candles i))"
    using assms(1) by (simp add: builders_ok_def)
  show "distinct (flushed_buckets i)"
    using d by (rule flushed_buckets_below)
  fix k
  assume k: "k \<in> set (flushed_buckets i)"
  then obtain j b where "map_of (ri_candles i) j = Some b" "k < j"
    using flushed_buckets_below(3)[OF d] by blast
  then have "j \<in> message_key ` set ms" "k < j"
    using assms(1) unfolding builders_ok_def by blast+
  then show "ms \<noteq> []" "k < message_key (last ms)"
    using assms(2) by (auto intro: less_le_trans)
  show "map_of (ri_candles i) k \<noteq> None"
    using flushed_buckets_below(2)[OF d k] .
qed

lemma builders_ok_settles:
  "builders_ok p ms fed w i \<Longrightarrow> (\<And>b. settled w b \<Longrightarrow> settled w1 b) \<Longrightarrow> builders_ok p ms fed w1 i"
  by (simp add: builders_ok_def)

lemma builders_ok_delete:
  assumes "builders_ok p ms fed w i" and "settled w (bucket_builder p ms fed k)" and "k < message_key (last ms)"
  shows "builders_ok p ms fed w (delete_bucket k i)"
  using assms unfolding builders_ok_def by (auto simp del: map_of_eq_Some_iff split: if_splits)

lemma race_inv_step:
  assumes inv: "race_inv p ms s" and sorted: "\<forall>x \<in> set ms. message_key x \<le> message_key (last ms)"
    and "race_step (logged_upsert fails) s None t"
  shows "race_inv p ms t"
  using assms(3)
proof cases
  case (feed bucket m i)
  then show ?thesis
    using race_inv_feed[OF inv] by simp
next
  case start
  then show ?thesis
    using inv held_start[OF _ sorted] by (auto simp: race_inv_def Let_def)
next
  case finish
  then show ?thesis
    using inv by (simp add: race_inv_def Let_def)
next
  case (build bucket buckets candle)
  then obtain b where "map_of (ri_candles (rc_importer s)) bucket = Some b" "candle = Build b"
    by (auto simp: built_candle_def split: option.splits)
  moreover from this have "b = bucket_builder p ms (fed_messages (rc_reader s) ms) bucket"
    using inv unfolding race_inv_def Let_def builders_ok_def by blast
  ultimately show ?thesis
    using inv build(1,2) by (simp add: race_inv_def Let_def)
next
  case (store bucket candle buckets stored w)
  let ?b = "bucket_builder p ms (fed_messages (rc_reader s) ms) bucket"
  have c: "candle = Build ?b"
    using inv store(2) by (simp add: race_inv_def Let_def)
  have up: "settled (snd (rc_world s)) b \<Longrightarrow> settled (snd w) b" "stored \<Longrightarrow> settled (snd w) ?b" for b
    using store_built_settles[OF store(3)[unfolded c]] by simp_all
  show ?thesis
    using inv up store(1,2) builders_ok_settles[of p ms _ "snd (rc_world s)" "rc_importer s" "snd w"]
    by (auto simp: race_inv_def Let_def held_ok_def)
next
  case (delete bucket buckets)
  have "bucket < message_key (last ms)" "bucket \<notin> set buckets"
    using inv delete(2) by (auto simp: race_inv_def Let_def held_ok_def)
  moreover have "reader_ok ms (delete_bucket bucket (rc_importer s)) (rc_reader s)"
    using inv calculation by (cases "rc_reader s") (auto simp: race_inv_def Let_def)
  ultimately show ?thesis
    using inv delete builders_ok_delete[of p ms _ "snd (rc_world s)" "rc_importer s" bucket]
    by (auto simp: race_inv_def Let_def held_ok_def)
qed

lemma race_inv_message:
  assumes "race_inv p ms s" and "\<forall>x \<in> set ms. message_key x \<le> message_key m" and "race_step up s (Some m) t"
  shows "race_inv p (ms @ [m]) t"
  using assms(3)
proof cases
  case (ensure bucket)
  then show ?thesis
    using race_inv_ensure[OF assms(1) _ assms(2)] CandlestickBucket_minute[of "em_time m"] by (simp add: message_key_def)
qed

lemma race_inv_run:
  assumes "race_run (logged_upsert fails) (race_start p (0, [])) ms s" and "sorted (map message_key ms)"
  shows "race_inv p ms s"
  using assms
proof (induction rule: race_run.induct)
  case (one_step ms t u)
  have "\<forall>x \<in> set ms. message_key x \<le> message_key (last ms)"
    using one_step.prems by (cases ms rule: rev_cases) (auto simp: sorted_append)
  then show ?case
    using race_inv_step one_step by blast
next
  case (one_message ms t m u)
  then show ?case
    using race_inv_message[of p ms t m] by (auto simp: sorted_append)
qed (simp add: race_inv_start)

text \<open>C3. However the reader and the flusher interleave and whichever upserts fail, no trade is lost while
  trades come in the order of their minutes: the bucket of every trade read so far either is in
  memory, built from all of its trades in their order, or its complete candlestick was stored
  (unless it has no volume).\<close>

theorem no_trade_is_lost:
  assumes "race_run (logged_upsert fails) (race_start p (0, [])) ms s" and "sorted (map message_key ms)"
    and "rc_reader s = Reading" and "m \<in> set ms"
  shows "map_of (ri_candles (rc_importer s)) (message_key m) = Some (bucket_builder p ms ms (message_key m)) \<or>
    settled (snd (rc_world s)) (bucket_builder p ms ms (message_key m))"
  using race_inv_run[OF assms(1,2)] assms(3,4)
  by (cases "map_of (ri_candles (rc_importer s)) (message_key m)")
    (simp_all add: race_inv_def Let_def builders_ok_def fed_messages_def)

text \<open>C21. Nor does either goroutine find that the builder it needs was deleted by the other one: it
  never panics on a nil builder.\<close>

theorem goroutines_never_panic:
  assumes "race_run (logged_upsert fails) (race_start p (0, [])) ms s" and "sorted (map message_key ms)"
  shows "(case rc_reader s of Reading \<Rightarrow> True | Ensured k m \<Rightarrow> is_ok (feed_bucket k m (rc_importer s))) \<and>
    (case rc_flusher s of Looping (k # ks) \<Rightarrow> is_ok (built_candle k (rc_importer s)) | _ \<Rightarrow> True)"
  using race_inv_run[OF assms]
  by (auto simp: race_inv_def Let_def feed_bucket_def built_candle_def held_ok_def simp del: map_of_eq_Some_iff
      split: reader.splits flusher.splits list.splits)

definition a_trade :: "time \<Rightarrow> f64 \<Rightarrow> f64 \<Rightarrow> exchange_message" where
  "a_trade t p n = \<lparr>em_price = p, em_product = ProductBTCUSD, em_size = n, em_type = MessageMatch, em_time = t\<rparr>"

definition base_minute :: "int \<Rightarrow> time" where
  "base_minute n = candlestickBaseTime + n * minute"

lemma base_minute_bucket: "0 \<le> n \<Longrightarrow> n < 1000 \<Longrightarrow> minute_bucket (base_minute n) = base_minute n"
  using CandlestickBucket_eq[of "base_minute n" 1]
  by (simp add: minute_bucket_def dbCandlestickBucketSize_def bucket_window_def base_minute_def minute_def second_def
      valid_tick_def bucket_of_def candlestickBaseTime_def unix_time_def)

lemma trade_facts [simp]:
  assumes "0 \<le> n" "n < 1000"
  shows "message_key (a_trade (base_minute n) p v) = time_unix candlestickBaseTime + 60 * n"
    and "minute_bucket (em_time (a_trade (base_minute n) p v)) = base_minute n"
    and "cs_volume (Build (ProcessMessage (new_builder ProductBTCUSD (a_trade (base_minute n) p v)) (a_trade (base_minute n) q w))) = fadd (Fin 0) w"
proof -
  show key: "minute_bucket (em_time (a_trade (base_minute n) p v)) = base_minute n" for p v
    using assms by (simp add: a_trade_def base_minute_bucket)
  show "message_key (a_trade (base_minute n) p v) = time_unix candlestickBaseTime + 60 * n"
    by (simp add: message_key_def key) (simp add: base_minute_def time_unix_def minute_def second_def candlestickBaseTime_def unix_time_def)
  show "cs_volume (Build (ProcessMessage (new_builder ProductBTCUSD (a_trade (base_minute n) p v)) (a_trade (base_minute n) q w))) = fadd (Fin 0) w"
    by (simp add: new_builder_def key Build_def ProcessMessage_def NewCandlestickBuilder_def)
      (simp add: a_trade_def time_add_def minute_def Let_def)
qed

text \<open>The two steps of a message, one after the other.\<close>

lemma run_message:
  assumes "race_run up s ms t" and "rc_reader t = Reading"
  obtains i where "ProcessExchangeMessage m (rc_importer t) = Ok i" "race_run up s (ms @ [m]) (t\<lparr>rc_importer := i\<rparr>)"
proof -
  let ?b = "minute_bucket (em_time m)"
  let ?u = "t\<lparr>rc_importer := ensure_bucket ?b (rc_importer t), rc_reader := Ensured (time_unix ?b) m\<rparr>"
  obtain c where "map_of (ri_candles (ensure_bucket ?b (rc_importer t))) (time_unix ?b) = Some c"
    by (cases "map_of (ri_candles (rc_importer t)) (time_unix ?b)") auto
  then obtain i where i: "feed_bucket (time_unix ?b) m (ensure_bucket ?b (rc_importer t)) = Ok i"
    by (auto simp: feed_bucket_def)
  have "race_step up t (Some m) ?u"
    using assms(2) by (intro ensure CandlestickBucket_minute)
  then have "race_run up s (ms @ [m]) ?u"
    using assms(1) by (rule one_message[rotated])
  moreover have "race_step up ?u None (?u\<lparr>rc_importer := i, rc_reader := Reading\<rparr>)"
    using i by (intro feed) simp_all
  moreover have "?u\<lparr>rc_importer := i, rc_reader := Reading\<rparr> = t\<lparr>rc_importer := i\<rparr>"
    using assms(2) by simp
  ultimately have "race_run up s (ms @ [m]) (t\<lparr>rc_importer := i\<rparr>)"
    by (metis one_step)
  then show ?thesis
    using i by (intro that) (simp_all add: ProcessExchangeMessage_def CandlestickBucket_minute)
qed

text \<open>Two trades in two minutes.\<close>

definition two_trades :: "exchange_message list" where
  "two_trades = [a_trade (base_minute 0) (Fin 4) (Fin 2), a_trade (base_minute 1) (Fin 5) (Fin 1)]"

lemma two_trades_sorted: "sorted (map message_key two_trades)"
  by (simp add: two_trades_def)

lemma two_trades_run:
  "\<exists>s. race_run (logged_upsert fails) (race_start ProductBTCUSD (0, [])) two_trades s \<and> rc_reader s = Reading \<and> rc_flusher s = Waiting"
proof -
  let ?s = "race_start ProductBTCUSD (0, [])"
  have "race_run (logged_upsert fails) ?s [] ?s" "rc_reader ?s = Reading"
    by (simp_all add: race_run.nothing race_start_def)
  then obtain i where 1: "race_run (logged_upsert fails) ?s ([] @ [two_trades ! 0]) (?s\<lparr>rc_importer := i\<rparr>)"
    by (rule run_message)
  moreover have "rc_reader (?s\<lparr>rc_importer := i\<rparr>) = Reading"
    by (simp add: race_start_def)
  ultimately obtain j where "race_run (logged_upsert fails) ?s (([] @ [two_trades ! 0]) @ [two_trades ! 1]) (?s\<lparr>rc_importer := i, rc_importer := j\<rparr>)"
    by (rule run_message)
  then show ?thesis
    by (intro exI[of _ "?s\<lparr>rc_importer := j\<rparr>"]) (simp add: two_trades_def race_start_def)
qed

lemma no_trade_is_lost_witness:
  "\<exists>s. race_run (logged_upsert (\<lambda>_. False)) (race_start ProductBTCUSD (0, [])) two_trades s \<and>
     (let m = two_trades ! 0 in map_of (ri_candles (rc_importer s)) (message_key m) = Some (bucket_builder ProductBTCUSD two_trades two_trades (message_key m)) \<or>
      settled (snd (rc_world s)) (bucket_builder ProductBTCUSD two_trades two_trades (message_key m)))"
proof -
  obtain s where s: "race_run (logged_upsert (\<lambda>_. False)) (race_start ProductBTCUSD (0, [])) two_trades s" "rc_reader s = Reading"
    using two_trades_run[of "\<lambda>_. False"] by blast
  show ?thesis
    using s no_trade_is_lost[OF s(1) two_trades_sorted s(2), of "two_trades ! 0"]
    unfolding Let_def by (intro exI[of _ s] conjI) (simp_all add: two_trades_def)
qed

text \<open>The flusher at work: it starts on the two buckets, and finds the first one.\<close>

lemma goroutines_never_panic_witness:
  "\<exists>s. race_run (logged_upsert (\<lambda>_. True)) (race_start ProductBTCUSD (0, [])) two_trades s \<and>
     rc_flusher s = Looping (flushed_buckets (rc_importer s)) \<and>
     (case flushed_buckets (rc_importer s) of k # ks \<Rightarrow> is_ok (built_candle k (rc_importer s)) | [] \<Rightarrow> True)"
proof -
  obtain s where s: "race_run (logged_upsert (\<lambda>_. True)) (race_start ProductBTCUSD (0, [])) two_trades s" "rc_flusher s = Waiting"
    using two_trades_run[of "\<lambda>_. True"] by blast
  let ?t = "s\<lparr>rc_flusher := Looping (flushed_buckets (rc_importer s))\<rparr>"
  have t: "race_run (logged_upsert (\<lambda>_. True)) (race_start ProductBTCUSD (0, [])) two_trades ?t"
    using s(1) race_step.start[OF s(2)] by (rule one_step)
  have "case flushed_buckets (rc_importer s) of k # ks \<Rightarrow> is_ok (built_candle k (rc_importer s)) | [] \<Rightarrow> True"
    using goroutines_never_panic[OF t two_trades_sorted, THEN conjunct2]
    by (cases "flushed_buckets (rc_importer s)") simp_all
  then show ?thesis
    using t by (intro exI[of _ ?t]) (simp cong: list.case_cong)
qed

section \<open>Late trades\<close>

lemma update_new: "map_of cs k = None \<Longrightarrow> AList.update k v cs = cs @ [(k, v)]"
  by (induction cs) auto

lemma update_end: "map_of cs k = None \<Longrightarrow> AList.update k v (cs @ [(k, u)]) = cs @ [(k, v)]"
  by (induction cs) auto

text \<open>A message of a bucket that has no builder.\<close>

lemma process_first:
  assumes "map_of (ri_candles i) (message_key m) = None"
  shows "ProcessExchangeMessage m i =
    Ok (i\<lparr>ri_candles := ri_candles i @ [(message_key m, ProcessMessage (new_builder (ri_product i) m) m)]\<rparr>)"
  using assms
  by (simp add: ProcessExchangeMessage_def CandlestickBucket_minute ensure_bucket_def feed_bucket_def new_builder_def
      update_new update_end message_key_def map_add_def)

lemma new_builder_frame:
  "candle_key (Build (ProcessMessage (new_builder p m) m)) = (minute_bucket (em_time m), p)"
  "cs_end (Build (ProcessMessage (new_builder p m) m)) = time_add (minute_bucket (em_time m)) minute"
  using msg.frame[of "new_builder p m" m]
  by (simp_all add: candle_key_def Build_def new_builder_def NewCandlestickBuilder_def)

lemma flush_one:
  assumes "ri_candles i = [(k, b), (k2, b2)] \<or> ri_candles i = [(k2, b2), (k, b)]" and "k < k2"
    and "flt (Fin 0) (cs_volume (Build b))"
  shows "Flush (UpsertCandlestick None now) (i, d) = (Ok (), (i\<lparr>ri_candles := [(k2, b2)]\<rparr>, upsert now (Build b) d))"
  using assms
  by (auto simp: Flush_def flushed_buckets_def built_candle_def store_built_def delete_bucket_def bind_act_def result_act_def
      on_world_def upsert_def UpsertCandlestick_def statement_def Let_def)

text \<open>C22. A trade that comes after the flush of its minute gets a builder of its own, and the
  next flush replaces the candlestick of the minute by one of the late trade alone: what was
  stored of the earlier trade is gone.\<close>

theorem late_trade_replaces_candle:
  assumes "minute_bucket (em_time late) = minute_bucket (em_time m1)" and "message_key m1 < message_key m2"
    and "flt (Fin 0) (cs_volume (Build (ProcessMessage (new_builder p m1) m1)))"
    and "flt (Fin 0) (cs_volume (Build (ProcessMessage (new_builder p late) late)))"
    and "book d (minute_bucket (em_time m1), p) = None"
  shows "\<exists>i d1. process_events (UpsertCandlestick None now) [Message m1, Message m2, FlushTick, Message late, FlushTick]
      (NewRealtimeImporter p, d) = (Ok (), (i, d1)) \<and>
    book d1 (minute_bucket (em_time m1), p) = Some (row_data (Build (ProcessMessage (new_builder p late) late)))"
proof -
  let ?k = "message_key m1" and ?k2 = "message_key m2"
  let ?b = "ProcessMessage (new_builder p m1) m1" and ?l = "ProcessMessage (new_builder p late) late"
    and ?b2 = "ProcessMessage (new_builder p m2) m2"
  have k: "message_key late = ?k"
    using assms(1) by (simp add: message_key_def)
  have d1: "book (upsert now (Build ?l) (upsert now (Build ?b) d)) (minute_bucket (em_time m1), p) = Some (row_data (Build ?l))"
  proof -
    have "(row_data (Build ?l))\<lparr>cs_end := cs_end (Build ?b)\<rparr> = row_data (Build ?l)"
      using new_builder_frame(2)[of p m1] new_builder_frame(2)[of p late] assms(1)
      by (simp add: row_data_def)
    then show ?thesis
      using assms(1,5) new_builder_frame(1)[of p m1] new_builder_frame(1)[of p late]
      by (simp add: upsert_refines store_candle_def)
  qed
  have "process_events (UpsertCandlestick None now) [Message m1, Message m2, FlushTick, Message late, FlushTick] (NewRealtimeImporter p, d) =
    (Ok (), (\<lparr>ri_product = p, ri_candles = [(?k2, ?b2)]\<rparr>, upsert now (Build ?l) (upsert now (Build ?b) d)))"
    using assms(2-4) flush_one[of _ ?k _ ?k2 ?b2 now]
    by (simp add: NewRealtimeImporter_def bind_act_def result_act_def process_first k)
  then show ?thesis
    using d1 by blast
qed

definition empty_db :: db where
  "empty_db = \<lparr>db_candles = [], db_orders = [], db_strategies = [], db_candle_id = 1, db_order_id = 1, db_strategy_id = 1\<rparr>"

lemma late_trade_replaces_candle_witness:
  "\<exists>i d1. process_events (UpsertCandlestick None 0) [Message (two_trades ! 0), Message (two_trades ! 1), FlushTick,
      Message (a_trade (base_minute 0) (Fin 3) (Fin 1)), FlushTick] (NewRealtimeImporter ProductBTCUSD, empty_db) = (Ok (), (i, d1)) \<and>
    book d1 (minute_bucket (em_time (two_trades ! 0)), ProductBTCUSD) =
      Some (row_data (Build (ProcessMessage (new_builder ProductBTCUSD (a_trade (base_minute 0) (Fin 3) (Fin 1))) (a_trade (base_minute 0) (Fin 3) (Fin 1)))))"
  using round64_int[of 1] round64_int[of 2]
  by (intro late_trade_replaces_candle) (simp_all add: two_trades_def book_def empty_db_def fadd_def)

section \<open>Historical imports\<close>

abbreviation batch_step :: duration where
  "batch_step \<equiv> importerBatchSize * minute"

lemma batch_step_pos [simp]: "0 < batch_step"
  by (simp add: importerBatchSize_def minute_def)

lemma batches_map:
  assumes "start \<le> end"
  shows "batches start end = map (\<lambda>k. (start + int k * batch_step, start + (int k + 1) * batch_step))
    [0..<Suc (nat ((end - start) div batch_step))]"
  using assms
proof (induction start "end" rule: batches.induct)
  case (1 i e)
  let ?j = "i + batch_step"
  show ?case
  proof (cases "?j \<le> e")
    case True
    have "(e - i) div batch_step = (e - ?j) div batch_step + 1"
      using div_add_self2[of batch_step "e - ?j"] by (simp add: importerBatchSize_def minute_def)
    moreover have "0 \<le> (e - ?j) div batch_step"
      using True batch_step_pos by (simp add: pos_imp_zdiv_nonneg_iff)
    ultimately have n: "nat ((e - i) div batch_step) = Suc (nat ((e - ?j) div batch_step))"
      by (simp add: nat_add_distrib)
    have "batches i e = (i, ?j) # batches ?j e"
      using "1.prems" by (subst batches.simps) (auto simp: time_add_def)
    moreover have "batches ?j e = map (\<lambda>k. (i + int (Suc k) * batch_step, i + (int (Suc k) + 1) * batch_step))
        [0..<Suc (nat ((e - ?j) div batch_step))]"
      using "1.IH"[OF order.order_iff_strict[THEN iffD1, OF "1.prems"]] True by (simp add: time_add_def algebra_simps del: upt_Suc)
    ultimately show ?thesis
      unfolding n map_upt_Suc[of _ "Suc (nat ((e - ?j) div batch_step))"] by simp
  next
    case False
    then have "(e - i) div batch_step = 0"
      using "1.prems" by (intro div_pos_pos_trivial) auto
    moreover have "batches ?j e = []"
      using False by (subst batches.simps) auto
    ultimately show ?thesis
      using "1.prems" by (subst batches.simps) (auto simp: time_add_def)
  qed
qed

text \<open>The batches of an import cover its period without a gap: they follow each other in steps of
  150 minutes from the start, every instant of the period is in one of them, and each asks for 150 candlesticks at most.\<close>

theorem batches_cover:
  assumes "start \<le> end"
  shows "batches start end = map (\<lambda>k. (start + int k * batch_step, start + (int k + 1) * batch_step))
      [0..<Suc (nat ((end - start) div batch_step))] \<and>
    {start..end} \<subseteq> (\<Union>(s, e) \<in> set (batches start end). {s..<e})"
proof -
  have "\<exists>k < Suc (nat ((end - start) div batch_step)). start + int k * batch_step \<le> t \<and> t < start + (int k + 1) * batch_step"
    if "start \<le> t" "t \<le> end" for t
  proof (intro exI conjI)
    let ?k = "(t - start) div batch_step"
    have "?k \<le> (end - start) div batch_step" "0 \<le> ?k"
      using that by (simp_all add: zdiv_mono1 pos_imp_zdiv_nonneg_iff)
    then show "nat ?k < Suc (nat ((end - start) div batch_step))"
      by (simp add: nat_mono less_Suc_eq_le)
    have "t - start = ?k * batch_step + (t - start) mod batch_step"
      by (rule div_mult_mod_eq[symmetric])
    then show "start + int (nat ?k) * batch_step \<le> t" "t < start + (int (nat ?k) + 1) * batch_step"
      using \<open>0 \<le> ?k\<close> pos_mod_bound[OF batch_step_pos, of "t - start"] pos_mod_sign[OF batch_step_pos, of "t - start"]
      by (simp_all add: algebra_simps)
  qed
  then have "{start..end} \<subseteq> (\<Union>k \<in> {..<Suc (nat ((end - start) div batch_step))}. {start + int k * batch_step..<start + (int k + 1) * batch_step})"
    by (intro subsetI) (simp only: UN_iff lessThan_iff atLeastLessThan_iff atLeastAtMost_iff, blast)
  then show ?thesis
    unfolding batches_map[OF assms] by (simp add: atLeast0LessThan del: upt_Suc)
qed

lemma batches_cover_witness:
  "batches 0 (200 * minute) = [(0, 150 * minute), (150 * minute, 300 * minute)]"
  using batches_cover[of 0 "200 * minute"] by (simp add: importerBatchSize_def minute_def)

text \<open>An import of a database that never fails, from an exchange with one answer for each period.\<close>

definition db_import :: "(time \<Rightarrow> time \<Rightarrow> candlestick list) \<Rightarrow> time \<Rightarrow> db import_services" where
  "db_import rates now = \<lparr>is_candlesticks = (\<lambda>p s e k d. (Ok (rates s e), d)), is_upsert = UpsertCandlestick None now, is_sleep = (\<lambda>_ d. d)\<rparr>"

definition imported :: "(time \<Rightarrow> time \<Rightarrow> candlestick list) \<Rightarrow> (time \<times> time) list \<Rightarrow> candlestick list" where
  "imported rates ms = concat (map (\<lambda>(s, e). rates s e) ms)"

lemma db_upsert_all: "upsert_all (db_import rates now) cs d = (Ok (), db.put_all now cs d)"
  by (induction cs arbitrary: d) (simp_all add: db_import_def bind_act_def wrap_act_def upsert_def UpsertCandlestick_def statement_def)

lemma db_put_all_append: "db.put_all now (xs @ ys) d = db.put_all now ys (db.put_all now xs d)"
  by (simp add: db.put_all_def)

lemma db_worker: "import_worker (db_import rates now) p ms d = (Ok (), db.put_all now (imported rates ms) d)"
proof (induction ms arbitrary: d)
  case (Cons m ms)
  have "processBatch (db_import rates now) p s e d = (Ok (), db.put_all now (rates s e) d)" for s e
    using db_upsert_all by (simp add: processBatch_def bind_act_def wrap_act_def) (simp add: db_import_def)
  then show ?case
    using Cons.IH by (cases m) (simp add: bind_act_def importerMaxRetries_def numeral_nat imported_def db_put_all_append)
qed (simp add: imported_def)

text \<open>Importing a period again changes nothing: after the second import the table holds, by starting time and product,
  what it held after the first, which is every candlestick the exchange gave for any of the batches (with overlaps that agree).\<close>

theorem import_is_idempotent:
  assumes "0 < concurrency" and "unique_rows d" and "agreeing (imported rates (batches start end))"
    and "Import (db_import rates now) p concurrency start end d = (r1, d1)"
    and "Import (db_import rates now) p concurrency start end d1 = (r2, d2)"
  shows "r1 = Ok () \<and> r2 = Ok () \<and> book d1 = foldl store_candle (book d) (imported rates (batches start end)) \<and> book d2 = book d1"
  using assms db.put_all_holds[OF assms(2)] db.put_all_again[OF assms(2,3)] by (auto simp: Import_def db_worker)

lemma import_is_idempotent_witness:
  "\<exists>d1 d2. Import (db_import (\<lambda>s e. [minute_candle 3 5]) 7) ProductBTCUSD 1 0 minute empty_db = (Ok (), d1) \<and>
     Import (db_import (\<lambda>s e. [minute_candle 3 5]) 7) ProductBTCUSD 1 0 minute d1 = (Ok (), d2) \<and> book d2 = book d1"
proof -
  obtain r1 d1 r2 d2 where "Import (db_import (\<lambda>s e. [minute_candle 3 5]) 7) ProductBTCUSD 1 0 minute empty_db = (r1, d1)"
    "Import (db_import (\<lambda>s e. [minute_candle 3 5]) 7) ProductBTCUSD 1 0 minute d1 = (r2, d2)"
    by (metis prod.collapse)
  moreover have "unique_rows empty_db" "agreeing (imported (\<lambda>s e. [minute_candle 3 5]) (batches 0 minute))"
    by (auto simp: unique_rows_def empty_db_def agreeing_def imported_def)
  ultimately show ?thesis
    using import_is_idempotent[of 1 empty_db "\<lambda>s e. [minute_candle 3 5]" 0 minute 7 ProductBTCUSD r1 d1 r2 d2] by auto
qed

text \<open>An exchange that always fails, and a world that counts how often it was asked.\<close>

definition failing_import :: "go_error \<Rightarrow> nat import_services" where
  "failing_import e = \<lparr>is_candlesticks = (\<lambda>p s t k n. (Err e, Suc n)), is_upsert = (\<lambda>c n. (Ok (), n)), is_sleep = (\<lambda>_ n. n)\<rparr>"

lemma failing_retries: "process_retrying (failing_import e) p k s t n = (Ok (), n + k)"
  by (induction k arbitrary: n) (simp_all add: failing_import_def processBatch_def bind_act_def wrap_act_def)

lemma failing_worker: "import_worker (failing_import e) p ms n = (Ok (), n + importerMaxRetries * length ms)"
  by (induction ms arbitrary: n) (auto simp: bind_act_def failing_retries)

text \<open>An import whose every request fails ends as one that succeeds: each batch is asked for twenty
  times, then it is dropped, and nobody is told.\<close>

theorem failing_import_reports_nothing:
  assumes "start \<le> end"
  shows "Import (failing_import e) p 1 start end n = (Ok (), n + 20 * Suc (nat ((end - start) div batch_step)))"
  using batches_map[OF assms] by (simp add: Import_def failing_worker importerMaxRetries_def del: upt_Suc)

lemma failing_import_reports_nothing_witness:
  "Import (failing_import e) p 1 0 (200 * minute) 0 = (Ok (), 40)"
  using failing_import_reports_nothing[of 0 "200 * minute" e p 0] by (simp add: importerBatchSize_def minute_def)

end
