(* ===== verification/Migrations.thy ===== *)
theory Migrations
  imports Go_Prelude
begin

text \<open>
  \<open>migrations.go\<close>: the migrations as data and the source driver the migration library walks them
  with. A version is a \<open>uint\<close>: it counts from one, and wraps. The SQL of a migration is the list of its statements between
  \<open>BEGIN\<close> and \<open>COMMIT\<close>.
\<close>

section \<open>The driver\<close>

record 'q migration =
  mg_up :: 'q
  mg_down :: 'q

definition SetUp :: "'q \<Rightarrow> 'q migration \<Rightarrow> 'q migration" where
  "SetUp s m = m\<lparr>mg_up := s\<rparr>"

definition SetDown :: "'q \<Rightarrow> 'q migration \<Rightarrow> 'q migration" where
  "SetDown s m = m\<lparr>mg_down := s\<rparr>"

record 'q code_migrations =
  cm_migrations :: "'q migration list"

definition AddMigration :: "'q code_migrations \<Rightarrow> 'q migration \<Rightarrow> 'q code_migrations" where
  "AddMigration c m = c\<lparr>cm_migrations := cm_migrations c @ [m]\<rparr>"

definition First :: "'q code_migrations \<Rightarrow> u64 go_result" where
  "First c = (if length (cm_migrations c) = 0 then Err ErrNotExist else Ok 1)"

definition Prev :: "'q code_migrations \<Rightarrow> u64 \<Rightarrow> u64 go_result" where
  "Prev c version =
    (let v = version - 1
     in if v \<ge> of_nat (length (cm_migrations c)) + 1 \<or> v < 1 then Err ErrNotExist else Ok v)"

definition Next :: "'q code_migrations \<Rightarrow> u64 \<Rightarrow> u64 go_result" where
  "Next c version =
    (let v = version + 1
     in if v \<ge> of_nat (length (cm_migrations c)) + 1 \<or> v < 1 then Err ErrNotExist else Ok v)"

definition migration_identifier :: "string \<Rightarrow> u64 \<Rightarrow> string" where
  "migration_identifier t version = ''code-migration-'' @ t @ ''-'' @ show_u64 version"

text \<open>\<open>c.migrations[version-1]\<close>, with the bounds check of the runtime.\<close>

definition migration_at :: "'q code_migrations \<Rightarrow> u64 \<Rightarrow> 'q migration go_result" where
  "migration_at c version =
    (let i = unat (version - 1)
     in if i < length (cm_migrations c) then Ok (cm_migrations c ! i) else Panic ''index out of range'')"

text \<open>The text to read, beside the identifier that is returned with and without an error.\<close>

definition ReadUp :: "'q code_migrations \<Rightarrow> u64 \<Rightarrow> 'q go_result \<times> string" where
  "ReadUp c version =
    (if version \<ge> of_nat (length (cm_migrations c) + 1) \<or> version < 1
     then (Err ErrNotExist, migration_identifier ''up'' version)
     else (bind_result (migration_at c version) (\<lambda>m. Ok (mg_up m)), migration_identifier ''up'' version))"

definition ReadDown :: "'q code_migrations \<Rightarrow> u64 \<Rightarrow> 'q go_result \<times> string" where
  "ReadDown c version =
    (if version \<ge> of_nat (length (cm_migrations c) + 1) \<or> version < 1
     then (Err ErrNotExist, migration_identifier ''down'' version)
     else (bind_result (migration_at c version) (\<lambda>m. Ok (mg_down m)), migration_identifier ''down'' version))"

section \<open>The migrations of the program\<close>

datatype column = Column (col_name: string) (col_type: string)
  | PrimaryKey (col_name: string) (col_type: string)
  | References (col_name: string) (col_type: string) (col_table: string)

datatype sql =
    CreateTable string "column list"
  | DropTable string
  | TruncateTable string
  | CreateUniqueIndex string string "string list"
  | DropIndex string
  | AddColumn string column
  | DropColumn string string
  | AddPrimaryKey string "string list"
  | DropConstraint string string

text \<open>The SQL of the migrations: the table of candlesticks and the three steps after it.\<close>

definition candlesticks_up :: "sql list" where
  "candlesticks_up = [CreateTable ''candlesticks''
     [Column ''id'' ''serial'', Column ''start_time'' ''timestamptz'', Column ''end_time'' ''timestamptz'',
      Column ''low'' ''double precision'', Column ''high'' ''double precision'', Column ''open'' ''double precision'',
      Column ''close'' ''double precision'', Column ''volume'' ''double precision'', Column ''direction'' ''text'',
      Column ''product'' ''text'']]"

definition strategies_up :: "sql list" where
  "strategies_up = [
     CreateTable ''trading_strategies''
       [PrimaryKey ''id'' ''serial'', Column ''created_at'' ''timestamptz NOT NULL'', Column ''updated_at'' ''timestamptz'',
        Column ''deactivated_at'' ''timestamptz'', Column ''last_tick_at'' ''timestamptz'', Column ''next_tick_at'' ''timestamptz'',
        Column ''product'' ''text'', Column ''history_ticks'' ''integer'', Column ''state'' ''text'',
        Column ''initial_budget'' ''double precision'', Column ''budget'' ''double precision'', Column ''budget_currency'' ''text'',
        Column ''invested'' ''double precision'', Column ''invested_currency'' ''text'', Column ''tick_size_minutes'' ''integer'',
        Column ''trading_strategy'' ''text'', Column ''trading_strategy_data'' ''bytea''],
     CreateTable ''market_orders''
       [PrimaryKey ''id'' ''serial'', Column ''created_at'' ''timestamptz NOT NULL'', Column ''updated_at'' ''timestamptz'',
        References ''trading_strategy_id'' ''integer'' ''trading_strategies'', Column ''exchange_id'' ''text'',
        Column ''product'' ''text'', Column ''side'' ''text'', Column ''cost'' ''double precision'', Column ''cost_currency'' ''text'',
        Column ''filled_size'' ''double precision'', Column ''size_currency'' ''text'', Column ''fees'' ''double precision'',
        Column ''fees_currency'' ''text''],
     DropIndex ''candlesticks_start_time_idx'',
     CreateUniqueIndex ''candlesticks_start_time_product_idx'' ''candlesticks'' [''start_time'', ''product''],
     AddColumn ''candlesticks'' (Column ''created_at'' ''timestamptz''),
     AddColumn ''candlesticks'' (Column ''updated_at'' ''timestamptz'')]"

definition strategies_down :: "sql list" where
  "strategies_down = [
     DropTable ''market_orders'',
     DropTable ''trading_strategies'',
     DropIndex ''candlesticks_start_time_product_idx'',
     CreateUniqueIndex ''candlesticks_start_time_idx'' ''candlesticks'' [''start_time''],
     DropColumn ''candlesticks'' ''created_at'',
     DropColumn ''candlesticks'' ''updated_at'']"

text \<open>\<open>new(Migration)\<close> is the migration with empty texts.\<close>

definition new_migration :: "sql list migration" where
  "new_migration = \<lparr>mg_up = [], mg_down = []\<rparr>"

definition migrations :: "sql list code_migrations" where
  "migrations =
    (let cm = \<lparr>cm_migrations = []\<rparr>;
         cm = AddMigration cm (SetDown [DropTable ''candlesticks''] (SetUp candlesticks_up new_migration));
         cm = AddMigration cm (SetDown [DropIndex ''candlesticks_start_time_idx'']
                (SetUp [TruncateTable ''candlesticks'',
                        CreateUniqueIndex ''candlesticks_start_time_idx'' ''candlesticks'' [''start_time'']] new_migration));
         cm = AddMigration cm (SetDown strategies_down (SetUp strategies_up new_migration))
     in AddMigration cm (SetDown [DropConstraint ''candlesticks'' ''candlesticks_pkey'']
                (SetUp [AddPrimaryKey ''candlesticks'' [''id'']] new_migration)))"

end
