(* ===== verification/Migration_Specs.thy ===== *)
theory Migration_Specs
  imports Migrations
begin

text \<open>
  The driver as the migration library uses it, as a locale interpreted on the program's
  migrations, and what the migrations do to a schema: every rollback undoes its step.
\<close>

section \<open>The interface of a source driver\<close>

text \<open>What the library does with a driver: it steps from version to version to the end.\<close>

fun walk :: "nat \<Rightarrow> ('v \<Rightarrow> 'v go_result) \<Rightarrow> 'v go_result \<Rightarrow> 'v list go_result" where
  "walk 0 step r = Diverge"
| "walk (Suc n) step (Ok v) = bind_result (walk n step (step v)) (\<lambda>vs. Ok (v # vs))"
| "walk (Suc n) step (Err e) = (if cause e = ErrNotExist then Ok [] else Err e)"
| "walk (Suc n) step (Panic p) = Panic p"
| "walk (Suc n) step Diverge = Diverge"

lemma walk_list:
  assumes "\<And>i. Suc i < length vs \<Longrightarrow> step (vs ! i) = Ok (vs ! Suc i)" and "vs \<noteq> [] \<Longrightarrow> step (last vs) = Err ErrNotExist"
  shows "walk (Suc (length vs)) step (case vs of [] \<Rightarrow> Err ErrNotExist | v # _ \<Rightarrow> Ok v) = Ok vs"
  using assms
proof (induction vs)
  case (Cons v vs)
  have "step v = (case vs of [] \<Rightarrow> Err ErrNotExist | v # _ \<Rightarrow> Ok v)"
    using Cons.prems(1)[of 0] Cons.prems(2) by (cases vs) auto
  moreover have "walk (Suc (length vs)) step (case vs of [] \<Rightarrow> Err ErrNotExist | v # _ \<Rightarrow> Ok v) = Ok vs"
    using Cons.prems(1)[of "Suc i" for i] Cons.prems(2) by (intro Cons.IH) auto
  ultimately show ?case
    by simp
qed simp

locale source_driver =
  fixes first :: "'v go_result" and nxt prv :: "'v \<Rightarrow> 'v go_result" and up down :: "'v \<Rightarrow> 'q go_result" and versions :: "'v list"
  assumes first: "first = (case versions of [] \<Rightarrow> Err ErrNotExist | v # _ \<Rightarrow> Ok v)"
    and nxt: "i < length versions \<Longrightarrow>
      nxt (versions ! i) = (if Suc i < length versions then Ok (versions ! Suc i) else Err ErrNotExist)"
    and prv: "i < length versions \<Longrightarrow>
      prv (versions ! i) = (if i = 0 then Err ErrNotExist else Ok (versions ! (i - 1)))"
    and readable: "v \<in> set versions \<Longrightarrow> is_ok (up v) \<and> is_ok (down v)"
begin

lemma walk_up: "walk (Suc (length versions)) nxt first = Ok versions"
  using walk_list[of versions nxt] first nxt by (auto simp: last_conv_nth)

lemma walk_down:
  assumes "versions \<noteq> []"
  shows "walk (Suc (length versions)) prv (Ok (last versions)) = Ok (rev versions)"
proof -
  have "prv (rev versions ! i) = Ok (rev versions ! Suc i)" if "Suc i < length versions" for i
    using that prv[of "length versions - Suc i"] by (simp add: rev_nth)
  moreover have "prv (last (rev versions)) = Err ErrNotExist"
    using assms prv[of 0] by (simp add: last_rev hd_conv_nth)
  ultimately have "walk (Suc (length (rev versions))) prv (case rev versions of [] \<Rightarrow> Err ErrNotExist | v # _ \<Rightarrow> Ok v) = Ok (rev versions)"
    by (intro walk_list) auto
  moreover have "rev versions = last versions # tl (rev versions)"
    using assms by (metis hd_rev list.collapse rev_is_Nil_conv)
  ultimately show ?thesis
    by (metis length_rev list.case(2))
qed

end

section \<open>The program's driver\<close>

definition version_list :: "'q code_migrations \<Rightarrow> u64 list" where
  "version_list c = map of_nat [1..<Suc (length (cm_migrations c))]"

lemma version_list_length [simp]: "length (version_list c) = length (cm_migrations c)"
  by (simp add: version_list_def del: upt_Suc)

lemma version_nth [simp]: "i < length (cm_migrations c) \<Longrightarrow> version_list c ! i = of_nat (Suc i)"
  by (simp add: version_list_def del: upt_Suc)

text \<open>The bounds tests of the driver, and its steps, on version numbers.\<close>

lemma version_unat: "n < 2 ^ 63 \<Longrightarrow> v \<le> Suc n \<Longrightarrow> unat (of_nat v :: u64) = v"
  by (simp add: unat_of_nat)

lemma version_bounds:
  assumes "n < 2 ^ 63" and "v \<le> Suc n"
  shows "of_nat n + 1 \<le> (of_nat v :: u64) \<longleftrightarrow> n < v" "(of_nat v :: u64) < 1 \<longleftrightarrow> v = 0"
proof -
  have "of_nat n + 1 \<le> (of_nat v :: u64) \<longleftrightarrow> (of_nat (Suc n) :: u64) \<le> of_nat v"
    by (simp add: add.commute)
  then show "of_nat n + 1 \<le> (of_nat v :: u64) \<longleftrightarrow> n < v"
    using version_unat[OF assms] version_unat[OF assms(1), of "Suc n"] by (simp only: word_le_nat_alt) auto
  show "(of_nat v :: u64) < 1 \<longleftrightarrow> v = 0"
    using version_unat[OF assms] by (simp add: word_less_nat_alt)
qed

lemma Next_nat: "length (cm_migrations c) < 2 ^ 63 \<Longrightarrow> v \<le> length (cm_migrations c) \<Longrightarrow>
    Next c (of_nat v) = (if v < length (cm_migrations c) then Ok (of_nat (Suc v)) else Err ErrNotExist)"
  using version_bounds[of "length (cm_migrations c)" "Suc v"] by (auto simp: Next_def Let_def add.commute)

lemma Prev_nat: "length (cm_migrations c) < 2 ^ 63 \<Longrightarrow> Suc v \<le> length (cm_migrations c) \<Longrightarrow>
    Prev c (of_nat (Suc v)) = (if v = 0 then Err ErrNotExist else Ok (of_nat v))"
  using version_bounds[of "length (cm_migrations c)" v] by (simp add: Prev_def Let_def)

lemma read_nat:
  assumes short: "length (cm_migrations c) < 2 ^ 63" and "v < length (cm_migrations c)"
  shows "ReadUp c (of_nat (Suc v)) = (Ok (mg_up (cm_migrations c ! v)), migration_identifier ''up'' (of_nat (Suc v)))"
    "ReadDown c (of_nat (Suc v)) = (Ok (mg_down (cm_migrations c ! v)), migration_identifier ''down'' (of_nat (Suc v)))"
  using assms version_bounds[OF short, of "Suc v"] version_unat[OF short, of v]
  by (simp_all add: ReadUp_def ReadDown_def migration_at_def add.commute)

lemma code_driver:
  assumes short: "length (cm_migrations c) < 2 ^ 63"
  shows "source_driver (First c) (Next c) (Prev c) (\<lambda>v. fst (ReadUp c v)) (\<lambda>v. fst (ReadDown c v)) (version_list c)"
proof
  show "First c = (case version_list c of [] \<Rightarrow> Err ErrNotExist | v # _ \<Rightarrow> Ok v)"
    by (cases "cm_migrations c") (simp_all add: First_def version_list_def upt_conv_Cons del: upt_Suc)
  fix i
  assume "i < length (version_list c)"
  then have i: "i < length (cm_migrations c)"
    by simp
  then show "Next c (version_list c ! i) = (if Suc i < length (version_list c) then Ok (version_list c ! Suc i) else Err ErrNotExist)"
    using Next_nat[OF short, of "Suc i"] by (simp del: of_nat_Suc)
  show "Prev c (version_list c ! i) = (if i = 0 then Err ErrNotExist else Ok (version_list c ! (i - 1)))"
    using Prev_nat[OF short, of i] i by (simp del: of_nat_Suc)
next
  fix v
  assume "v \<in> set (version_list c)"
  then obtain i where "i < length (cm_migrations c)" "v = of_nat (Suc i)"
    by (metis in_set_conv_nth version_list_length version_nth)
  then show "is_ok (fst (ReadUp c v)) \<and> is_ok (fst (ReadDown c v))"
    using read_nat[OF short] by simp
qed

lemma program_migrations: "length (cm_migrations migrations) = 4"
  by (simp add: migrations_def AddMigration_def Let_def)

interpretation driver: source_driver "First migrations" "Next migrations" "Prev migrations"
  "\<lambda>v. fst (ReadUp migrations v)" "\<lambda>v. fst (ReadDown migrations v)" "version_list migrations"
  by (rule code_driver) (simp add: program_migrations)

text \<open>The library sees the migrations in the order they were added: stepping from the first version
  it visits one to the number of them and stops, stepping back from the last it visits them in
  reverse and stops, and reading along the way gives each migration's texts, without a panic.\<close>

theorem migrations_are_walked:
  assumes "length (cm_migrations c) < 2 ^ 63" and "cm_migrations c \<noteq> []"
  shows "walk (Suc (length (cm_migrations c))) (Next c) (First c) = Ok (version_list c) \<and>
    walk (Suc (length (cm_migrations c))) (Prev c) (Ok (last (version_list c))) = Ok (rev (version_list c)) \<and>
    map (\<lambda>v. fst (ReadUp c v)) (version_list c) = map (\<lambda>m. Ok (mg_up m)) (cm_migrations c) \<and>
    map (\<lambda>v. fst (ReadDown c v)) (version_list c) = map (\<lambda>m. Ok (mg_down m)) (cm_migrations c)"
proof -
  have "version_list c \<noteq> []"
    using assms(2) by (metis length_0_conv version_list_length)
  then show ?thesis
    using source_driver.walk_up[OF code_driver[OF assms(1)]] source_driver.walk_down[OF code_driver[OF assms(1)]]
      read_nat[OF assms(1)]
    by (auto intro: nth_equalityI simp del: of_nat_Suc)
qed

lemma program_versions: "version_list migrations = [1, 2, 3, 4]"
  by code_simp

lemma migrations_are_walked_witness:
  "walk (Suc 4) (Next migrations) (First migrations) = Ok [1, 2, 3, 4]"
  using migrations_are_walked[of migrations] program_migrations
  by (cases "cm_migrations migrations") (simp_all add: program_versions)

section \<open>What the statements do\<close>

text \<open>
  The part of PostgreSQL the statements are about: tables with their columns and rows, unique indexes,
  primary keys and references. A row lists the columns that are not NULL with their values.
\<close>

record sql_table =
  tb_name :: string
  tb_columns :: "column list"
  tb_rows :: "(string \<times> string) list list"

record schema =
  sc_tables :: "sql_table list"
  sc_indexes :: "(string \<times> string \<times> string list) list"
  sc_keys :: "(string \<times> string \<times> string list) list"

definition find_table :: "schema \<Rightarrow> string \<Rightarrow> sql_table option" where
  "find_table d n = find (\<lambda>t. tb_name t = n) (sc_tables d)"

definition update_table :: "string \<Rightarrow> (sql_table \<Rightarrow> sql_table) \<Rightarrow> schema \<Rightarrow> schema" where
  "update_table n f d = d\<lparr>sc_tables := map (\<lambda>t. if tb_name t = n then f t else t) (sc_tables d)\<rparr>"

definition name_used :: "schema \<Rightarrow> string \<Rightarrow> bool" where
  "name_used d n \<longleftrightarrow> n \<in> set (map tb_name (sc_tables d)) \<union> set (map fst (sc_indexes d)) \<union> set (map fst (sc_keys d))"

fun refers_to :: "string \<Rightarrow> column \<Rightarrow> bool" where
  "refers_to n (References _ _ t) = (t = n)"
| "refers_to n _ = False"

definition referenced :: "schema \<Rightarrow> string \<Rightarrow> bool" where
  "referenced d n \<longleftrightarrow> list_ex (\<lambda>t. tb_name t \<noteq> n \<and> list_ex (refers_to n) (tb_columns t)) (sc_tables d)"

text \<open>No two rows agree on all the columns; a row with a NULL agrees with no other.\<close>

definition unique_on :: "string list \<Rightarrow> (string \<times> string) list list \<Rightarrow> bool" where
  "unique_on cols rows \<longleftrightarrow> distinct (map (\<lambda>r. map (map_of r) cols) (filter (\<lambda>r. list_all (\<lambda>c. map_of r c \<noteq> None) cols) rows))"

definition primary_columns :: "column list \<Rightarrow> string list" where
  "primary_columns cols = map col_name (filter (\<lambda>c. case c of PrimaryKey _ _ \<Rightarrow> True | _ \<Rightarrow> False) cols)"

fun run_sql :: "sql \<Rightarrow> schema \<Rightarrow> schema option" where
  "run_sql (CreateTable n cols) d =
     (if name_used d n \<or> list_ex (\<lambda>c. case c of References _ _ t \<Rightarrow> find_table d t = None | _ \<Rightarrow> False) cols then None
      else Some (d\<lparr>sc_tables := sc_tables d @ [\<lparr>tb_name = n, tb_columns = cols, tb_rows = []\<rparr>],
        sc_keys := sc_keys d @ (if primary_columns cols = [] then [] else [(n @ ''_pkey'', n, primary_columns cols)])\<rparr>))"
| "run_sql (DropTable n) d =
     (if find_table d n = None \<or> referenced d n then None
      else Some (d\<lparr>sc_tables := filter (\<lambda>t. tb_name t \<noteq> n) (sc_tables d),
        sc_indexes := filter (\<lambda>(_, t, _). t \<noteq> n) (sc_indexes d), sc_keys := filter (\<lambda>(_, t, _). t \<noteq> n) (sc_keys d)\<rparr>))"
| "run_sql (TruncateTable n) d =
     (if find_table d n = None \<or> referenced d n then None else Some (update_table n (\<lambda>t. t\<lparr>tb_rows := []\<rparr>) d))"
| "run_sql (CreateUniqueIndex i n cols) d =
     (case find_table d n of
        None \<Rightarrow> None
      | Some t \<Rightarrow> if name_used d i \<or> \<not> set cols \<subseteq> set (map col_name (tb_columns t)) \<or> \<not> unique_on cols (tb_rows t) then None
                  else Some (d\<lparr>sc_indexes := sc_indexes d @ [(i, n, cols)]\<rparr>))"
| "run_sql (DropIndex i) d =
     (if i \<notin> set (map fst (sc_indexes d)) then None else Some (d\<lparr>sc_indexes := filter (\<lambda>(j, _, _). j \<noteq> i) (sc_indexes d)\<rparr>))"
| "run_sql (AddColumn n c) d =
     (case find_table d n of
        None \<Rightarrow> None
      | Some t \<Rightarrow> if col_name c \<in> set (map col_name (tb_columns t)) then None
                  else Some (update_table n (\<lambda>t. t\<lparr>tb_columns := tb_columns t @ [c]\<rparr>) d))"
| "run_sql (DropColumn n c) d =
     (case find_table d n of
        None \<Rightarrow> None
      | Some t \<Rightarrow> if c \<notin> set (map col_name (tb_columns t)) then None
                  else Some (update_table n (\<lambda>t. t\<lparr>tb_columns := filter (\<lambda>x. col_name x \<noteq> c) (tb_columns t),
                      tb_rows := map (filter (\<lambda>(k, _). k \<noteq> c)) (tb_rows t)\<rparr>)
                    (d\<lparr>sc_indexes := filter (\<lambda>(_, t, cs). \<not> (t = n \<and> c \<in> set cs)) (sc_indexes d),
                       sc_keys := filter (\<lambda>(_, t, cs). \<not> (t = n \<and> c \<in> set cs)) (sc_keys d)\<rparr>)))"
| "run_sql (AddPrimaryKey n cols) d =
     (case find_table d n of
        None \<Rightarrow> None
      | Some t \<Rightarrow> if list_ex (\<lambda>(_, t, _). t = n) (sc_keys d) \<or> name_used d (n @ ''_pkey'') \<or>
                     \<not> set cols \<subseteq> set (map col_name (tb_columns t)) \<or> \<not> unique_on cols (tb_rows t) \<or>
                     \<not> list_all (\<lambda>r. list_all (\<lambda>c. map_of r c \<noteq> None) cols) (tb_rows t) then None
                  else Some (d\<lparr>sc_keys := sc_keys d @ [(n @ ''_pkey'', n, cols)]\<rparr>))"
| "run_sql (DropConstraint n k) d =
     (if list_ex (\<lambda>(j, t, _). j = k \<and> t = n) (sc_keys d)
      then Some (d\<lparr>sc_keys := filter (\<lambda>(j, t, _). \<not> (j = k \<and> t = n)) (sc_keys d)\<rparr>) else None)"

text \<open>A transaction: all of its statements, or nothing.\<close>

fun transaction :: "sql list \<Rightarrow> schema \<Rightarrow> schema option" where
  "transaction [] d = Some d"
| "transaction (q # qs) d = (case run_sql q d of None \<Rightarrow> None | Some d1 \<Rightarrow> transaction qs d1)"

definition empty_schema :: schema where
  "empty_schema = \<lparr>sc_tables = [], sc_indexes = [], sc_keys = []\<rparr>"

text \<open>The schema after the first \<open>n\<close> migrations.\<close>

definition schema_at :: "nat \<Rightarrow> schema option" where
  "schema_at n = transaction (concat (map mg_up (take n (cm_migrations migrations)))) empty_schema"

text \<open>The schema after the rollback of the \<open>n\<close>-th.\<close>

definition rollback :: "nat \<Rightarrow> schema option" where
  "rollback n = (case schema_at n of Some d \<Rightarrow> transaction (mg_down (cm_migrations migrations ! (n - 1))) d | None \<Rightarrow> None)"

text \<open>A schema with rows in the table of candlesticks.\<close>

definition with_rows :: "(string \<times> string) list list \<Rightarrow> schema \<Rightarrow> schema" where
  "with_rows rows = update_table ''candlesticks'' (\<lambda>t. t\<lparr>tb_rows := rows\<rparr>)"

section \<open>Databases at a version\<close>

text \<open>
  A database at version \<open>k\<close> has the tables, indexes and keys of the first \<open>k\<close> migrations, and any rows that
  they admit: the columns of a row are columns of its table, the indexes and keys are unique, and the
  candlesticks have the ids that \<open>serial\<close> gives, which are not NULL and differ.
\<close>

definition filled :: "(string \<Rightarrow> (string \<times> string) list list) \<Rightarrow> schema \<Rightarrow> schema" where
  "filled rows d = d\<lparr>sc_tables := map (\<lambda>t. t\<lparr>tb_rows := rows (tb_name t)\<rparr>) (sc_tables d)\<rparr>"

definition rows_ok :: "(string \<Rightarrow> (string \<times> string) list list) \<Rightarrow> schema \<Rightarrow> bool" where
  "rows_ok rows d \<longleftrightarrow>
     (\<forall>t \<in> set (sc_tables d). \<forall>r \<in> set (rows (tb_name t)). fst ` set r \<subseteq> set (map col_name (tb_columns t))) \<and>
     (\<forall>(i, n, cols) \<in> set (sc_indexes d @ sc_keys d). unique_on cols (rows n)) \<and>
     unique_on [''id''] (rows ''candlesticks'') \<and> (\<forall>r \<in> set (rows ''candlesticks''). map_of r ''id'' \<noteq> None)"

definition at_version :: "nat \<Rightarrow> schema \<Rightarrow> bool" where
  "at_version k d \<longleftrightarrow> (\<exists>rows. d = filled rows (the (schema_at k)) \<and> rows_ok rows (the (schema_at k)))"

definition rows_of :: "schema \<Rightarrow> string \<Rightarrow> (string \<times> string) list list" where
  "rows_of d n = (case find_table d n of Some t \<Rightarrow> tb_rows t | None \<Rightarrow> [])"

lemma unique_on_Nil [simp]: "unique_on cols []"
  by (simp add: unique_on_def)

text \<open>More columns tell more rows apart.\<close>

lemma distinct_finer:
  assumes "distinct (map f (filter P xs))" and "\<And>x. Q x \<Longrightarrow> P x" and "\<And>x y. g x = g y \<Longrightarrow> f x = f y"
  shows "distinct (map g (filter Q xs))"
  using assms(1)
proof (induction xs)
  case (Cons x xs)
  have rest: "distinct (map g (filter Q xs))"
    using Cons.prems by (intro Cons.IH) (simp split: if_splits)
  show ?case
  proof (cases "Q x")
    case True
    have "g x \<noteq> g y" if "y \<in> set xs" "Q y" for y
    proof
      assume "g x = g y"
      then have "f x = f y"
        by (rule assms(3))
      moreover have "y \<in> set (filter P xs)"
        using assms(2) that by simp
      ultimately have "f x \<in> f ` set (filter P xs)"
        by (metis imageI)
      then show False
        using Cons.prems assms(2)[OF True] by simp
    qed
    then show ?thesis
      using True rest by auto
  qed (use rest in simp)
qed simp

lemma unique_on_more: "unique_on [c] rows \<Longrightarrow> unique_on (c # cs) rows"
  unfolding unique_on_def by (erule distinct_finer) simp_all

definition candle_columns :: "column list" where
  "candle_columns = (case candlesticks_up of [CreateTable _ cs] \<Rightarrow> cs)"

definition strategy_columns :: "column list" where
  "strategy_columns = (case strategies_up of CreateTable _ cs # _ \<Rightarrow> cs)"

definition order_columns :: "column list" where
  "order_columns = (case strategies_up of _ # CreateTable _ cs # _ \<Rightarrow> cs)"

definition stamped_columns :: "column list" where
  "stamped_columns = candle_columns @ [Column ''created_at'' ''timestamptz'', Column ''updated_at'' ''timestamptz'']"

lemma version_0: "the (schema_at 0) = empty_schema"
  by code_simp

lemma version_1: "the (schema_at (Suc 0)) = \<lparr>sc_tables = [\<lparr>tb_name = ''candlesticks'', tb_columns = candle_columns, tb_rows = []\<rparr>],
   sc_indexes = [], sc_keys = []\<rparr>"
  by code_simp

lemma version_2: "the (schema_at 2) = \<lparr>sc_tables = [\<lparr>tb_name = ''candlesticks'', tb_columns = candle_columns, tb_rows = []\<rparr>],
   sc_indexes = [(''candlesticks_start_time_idx'', ''candlesticks'', [''start_time''])], sc_keys = []\<rparr>"
  by code_simp

definition three_tables :: "sql_table list" where
  "three_tables = [\<lparr>tb_name = ''candlesticks'', tb_columns = stamped_columns, tb_rows = []\<rparr>,
     \<lparr>tb_name = ''trading_strategies'', tb_columns = strategy_columns, tb_rows = []\<rparr>,
     \<lparr>tb_name = ''market_orders'', tb_columns = order_columns, tb_rows = []\<rparr>]"

lemma version_3: "the (schema_at 3) = \<lparr>sc_tables = three_tables,
   sc_indexes = [(''candlesticks_start_time_product_idx'', ''candlesticks'', [''start_time'', ''product''])],
   sc_keys = [(''trading_strategies_pkey'', ''trading_strategies'', [''id'']), (''market_orders_pkey'', ''market_orders'', [''id''])]\<rparr>"
  by code_simp

lemma version_4: "the (schema_at 4) = \<lparr>sc_tables = three_tables,
   sc_indexes = [(''candlesticks_start_time_product_idx'', ''candlesticks'', [''start_time'', ''product''])],
   sc_keys = [(''trading_strategies_pkey'', ''trading_strategies'', [''id'']), (''market_orders_pkey'', ''market_orders'', [''id'']),
     (''candlesticks_pkey'', ''candlesticks'', [''id''])]\<rparr>"
  by code_simp

lemmas version_schemas = version_0 version_1 version_2 version_3 version_4

text \<open>The SQL of the four migrations.\<close>

lemma program_sql:
  "map mg_up (cm_migrations migrations) = [candlesticks_up,
     [TruncateTable ''candlesticks'', CreateUniqueIndex ''candlesticks_start_time_idx'' ''candlesticks'' [''start_time'']],
     strategies_up, [AddPrimaryKey ''candlesticks'' [''id'']]]"
  "map mg_down (cm_migrations migrations) = [[DropTable ''candlesticks''], [DropIndex ''candlesticks_start_time_idx''],
     strategies_down, [DropConstraint ''candlesticks'' ''candlesticks_pkey'']]"
  by (simp_all add: migrations_def AddMigration_def SetUp_def SetDown_def new_migration_def Let_def)

definition up_sql :: "nat \<Rightarrow> sql list" where
  "up_sql k = mg_up (cm_migrations migrations ! k)"

definition down_sql :: "nat \<Rightarrow> sql list" where
  "down_sql k = mg_down (cm_migrations migrations ! k)"

lemma sql_at:
  "up_sql 0 = candlesticks_up"
  "up_sql (Suc 0) = [TruncateTable ''candlesticks'', CreateUniqueIndex ''candlesticks_start_time_idx'' ''candlesticks'' [''start_time'']]"
  "up_sql 2 = strategies_up" "up_sql 3 = [AddPrimaryKey ''candlesticks'' [''id'']]"
  "down_sql 0 = [DropTable ''candlesticks'']" "down_sql (Suc 0) = [DropIndex ''candlesticks_start_time_idx'']"
  "down_sql 2 = strategies_down" "down_sql 3 = [DropConstraint ''candlesticks'' ''candlesticks_pkey'']"
  by code_simp+

lemmas schema_simps = filled_def version_schemas version_2[unfolded numeral_2_eq_2] three_tables_def update_table_def find_table_def referenced_def name_used_def
  empty_schema_def

lemma less_four: "k < 4 \<Longrightarrow> k = 0 \<or> k = Suc 0 \<or> k = 2 \<or> k = (3 :: nat)"
  by auto

lemma migration_applies:
  assumes "k < 4" and "rows_ok rows (the (schema_at k))"
  shows "\<exists>rows1. transaction (up_sql k) (filled rows (the (schema_at k))) = Some (filled rows1 (the (schema_at (Suc k)))) \<and>
    rows_ok rows1 (the (schema_at (Suc k))) \<and> (0 < k \<longrightarrow> rows1 ''candlesticks'' = (if k = 1 then [] else rows ''candlesticks''))"
  using less_four[OF assms(1)]
proof (elim disjE)
  assume k: "k = 0"
  show ?thesis
    unfolding k by (intro exI[of _ "\<lambda>_. []"]) (simp add: sql_at schema_simps rows_ok_def candlesticks_up_def candle_columns_def primary_columns_def)
next
  assume k: "k = Suc 0"
  show ?thesis
    unfolding k by (intro exI[of _ "\<lambda>_. []"])
      (simp add: sql_at schema_simps rows_ok_def candle_columns_def candlesticks_up_def)
next
  assume k: "k = 2"
  have "unique_on [''start_time'', ''product''] (rows ''candlesticks'')"
    using assms(2) unique_on_more unfolding k by (simp add: rows_ok_def version_schemas)
  then show ?thesis
    using assms(2) unfolding k
    by (intro exI[of _ "\<lambda>n. if n = ''candlesticks'' then rows n else []"])
      (simp add: sql_at schema_simps rows_ok_def candle_columns_def candlesticks_up_def strategies_up_def stamped_columns_def
        strategy_columns_def order_columns_def primary_columns_def, blast)
next
  assume k: "k = 3"
  show ?thesis
    using assms(2) unfolding k
    by (intro exI[of _ rows])
      (simp add: sql_at schema_simps rows_ok_def candle_columns_def candlesticks_up_def strategies_up_def stamped_columns_def
        strategy_columns_def order_columns_def list_all_iff)
qed

text \<open>A migration fails on the schema it has led to, and the first one fails on every later schema.\<close>

lemma reapplied_fails:
  assumes "0 < k" and "k \<le> 4" and "at_version k d"
  shows "transaction (up_sql (k - 1)) d = None" and "transaction (up_sql 0) d = None"
proof -
  obtain rows where d: "d = filled rows (the (schema_at k))"
    using assms(3) by (auto simp: at_version_def)
  have "k = Suc 0 \<or> k = 2 \<or> k = 3 \<or> k = 4"
    using assms(1,2) by auto
  then show "transaction (up_sql (k - 1)) d = None" "transaction (up_sql 0) d = None"
    unfolding d by (auto simp: sql_at schema_simps candlesticks_up_def strategies_up_def split: if_splits)
qed

text \<open>A row that loses a column keeps the others.\<close>

definition without :: "string \<Rightarrow> (string \<times> string) list list \<Rightarrow> (string \<times> string) list list" where
  "without c = map (filter (\<lambda>(k, _). k \<noteq> c))"

lemma map_of_without: "x \<noteq> c \<Longrightarrow> map_of (filter (\<lambda>(k, _). k \<noteq> c) r) x = map_of r x"
  by (induction r) auto

lemma unique_on_without:
  assumes "c \<notin> set cols"
  shows "unique_on cols (without c rows) \<longleftrightarrow> unique_on cols rows"
proof -
  have key: "map (map_of (filter (\<lambda>(k, _). k \<noteq> c) r)) cols = map (map_of r) cols" for r
    using assms by (auto intro!: map_of_without)
  have all: "list_all (\<lambda>x. map_of (filter (\<lambda>(k, _). k \<noteq> c) r) x \<noteq> None) cols \<longleftrightarrow> list_all (\<lambda>x. map_of r x \<noteq> None) cols" for r
    using assms by (intro list.pred_cong refl) (subst map_of_without, auto)
  have "map (\<lambda>r. map (map_of r) cols) (filter (\<lambda>r. list_all (\<lambda>x. map_of r x \<noteq> None) cols) (without c rows)) =
      map (\<lambda>r. map (map_of r) cols) (filter (\<lambda>r. list_all (\<lambda>x. map_of r x \<noteq> None) cols) rows)"
    unfolding without_def filter_map map_map comp_def key all ..
  then show ?thesis
    by (simp only: unique_on_def)
qed

lemma without_absent: "(\<And>r. r \<in> set rows \<Longrightarrow> c \<notin> fst ` set r) \<Longrightarrow> without c rows = rows"
  by (force simp: without_def intro!: map_idI filter_True)

lemma without_columns: "r \<in> set (without c rows) \<Longrightarrow> \<exists>r0 \<in> set rows. fst ` set r = fst ` set r0 - {c}"
  by (force simp: without_def)

lemma without_map_of: "r \<in> set (without c rows) \<Longrightarrow> x \<noteq> c \<Longrightarrow> \<exists>r0 \<in> set rows. map_of r x = map_of r0 x"
  using map_of_without by (force simp: without_def)

text \<open>The two columns that the third rollback drops.\<close>

definition unstamped :: "(string \<times> string) list list \<Rightarrow> (string \<times> string) list list" where
  "unstamped rows = without ''updated_at'' (without ''created_at'' rows)"

lemma rollback_applies:
  assumes "k < 4" and "rows_ok rows (the (schema_at (Suc k)))"
  shows "transaction (down_sql k) (filled rows (the (schema_at (Suc k)))) =
    (if k = 2 \<and> \<not> unique_on [''start_time''] (rows ''candlesticks'') then None
     else Some (filled (\<lambda>n. if k = 2 then unstamped (rows n) else rows n) (the (schema_at k))))"
  using less_four[OF assms(1)]
proof (elim disjE)
  assume k: "k = 2"
  show ?thesis
    unfolding k by (simp add: sql_at schema_simps strategies_down_def stamped_columns_def candle_columns_def candlesticks_up_def
      strategy_columns_def order_columns_def strategies_up_def unstamped_def without_def)
qed (simp_all add: sql_at schema_simps stamped_columns_def candle_columns_def candlesticks_up_def
      strategy_columns_def order_columns_def strategies_up_def)

lemma filled_rows: "sc_tables (filled rows d) = map (\<lambda>t. t\<lparr>tb_rows := rows (tb_name t)\<rparr>) (sc_tables d)"
  by (simp add: filled_def)

lemma filled_cong: "(\<And>t. t \<in> set (sc_tables d) \<Longrightarrow> rows (tb_name t) = rows1 (tb_name t)) \<Longrightarrow> filled rows d = filled rows1 d"
  by (simp add: filled_def)

lemma candle_rows: "0 < k \<Longrightarrow> k \<le> 4 \<Longrightarrow> rows_of (filled rows (the (schema_at k))) ''candlesticks'' = rows ''candlesticks''"
proof -
  assume "0 < k" "k \<le> 4"
  then have "k = Suc 0 \<or> k = 2 \<or> k = 3 \<or> k = 4"
    by auto
  then show ?thesis
    by (auto simp: rows_of_def schema_simps)
qed

lemma rolled_back_ok:
  assumes "k < 4" and "rows_ok rows (the (schema_at (Suc k)))" and "k = 2 \<Longrightarrow> unique_on [''start_time''] (rows ''candlesticks'')"
  shows "rows_ok (\<lambda>n. if k = 2 then unstamped (rows n) else rows n) (the (schema_at k))"
  using less_four[OF assms(1)]
proof (elim disjE)
  assume k: "k = 2"
  have "fst ` set r \<subseteq> set (map col_name candle_columns)" if r: "r \<in> set (unstamped (rows ''candlesticks''))" for r
  proof -
    obtain r1 where r1: "r1 \<in> set (without ''created_at'' (rows ''candlesticks''))" "fst ` set r = fst ` set r1 - {''updated_at''}"
      using without_columns[OF r[unfolded unstamped_def]] by blast
    then obtain r0 where "r0 \<in> set (rows ''candlesticks'')" "fst ` set r = fst ` set r0 - {''created_at''} - {''updated_at''}"
      using without_columns[OF r1(1)] by auto
    moreover have "\<forall>r \<in> set (rows ''candlesticks''). fst ` set r \<subseteq> set (map col_name stamped_columns)"
      using assms(2) unfolding k by (simp add: rows_ok_def version_schemas three_tables_def)
    ultimately show ?thesis
      by (auto simp: stamped_columns_def)
  qed
  moreover have "map_of r ''id'' \<noteq> None" if r: "r \<in> set (unstamped (rows ''candlesticks''))" for r
  proof -
    obtain r1 where r1: "r1 \<in> set (without ''created_at'' (rows ''candlesticks''))" "map_of r ''id'' = map_of r1 ''id''"
      using without_map_of[OF r[unfolded unstamped_def], of "''id''"] by auto
    then obtain r0 where "r0 \<in> set (rows ''candlesticks'')" "map_of r ''id'' = map_of r0 ''id''"
      using without_map_of[OF r1(1), of "''id''"] by auto
    moreover have "\<forall>r \<in> set (rows ''candlesticks''). map_of r ''id'' \<noteq> None"
      using assms(2) unfolding rows_ok_def by blast
    ultimately show ?thesis
      by simp
  qed
  ultimately show ?thesis
    using assms(2,3) unfolding k by (simp add: rows_ok_def version_schemas unstamped_def unique_on_without)
qed (use assms(2) in \<open>auto simp: rows_ok_def schema_simps stamped_columns_def\<close>)

text \<open>C32. Every rollback undoes its migration, with the rows. On any database at version \<open>k\<close> the next migration
  runs and leads to one at the version after, and the rollback run on that leads back to exactly the
  database before, its tables, columns, indexes, keys and rows, but that the second migration has emptied
  the table of candlesticks, whose rows the later ones keep. And a database at the version after
  that has been written to since is rolled back to one at version \<open>k\<close>, the candlesticks kept as far as there
  are columns for them, unless, at the third, two of them start at the same time: then nothing is changed.\<close>

theorem rollback_undoes_migration:
  assumes "k < 4" and "at_version k d"
  shows "(\<exists>d1. transaction (up_sql k) d = Some d1 \<and> at_version (Suc k) d1 \<and>
      transaction (down_sql k) d1 = Some (if k = 1 then with_rows [] d else d) \<and>
      (1 < k \<longrightarrow> rows_of d1 ''candlesticks'' = rows_of d ''candlesticks'')) \<and>
    (\<forall>d1. at_version (Suc k) d1 \<longrightarrow> (case transaction (down_sql k) d1 of
       Some d0 \<Rightarrow> at_version k d0 \<and>
         (0 < k \<longrightarrow> rows_of d0 ''candlesticks'' = (if k = 2 then unstamped else id) (rows_of d1 ''candlesticks''))
     | None \<Rightarrow> k = 2 \<and> \<not> unique_on [''start_time''] (rows_of d1 ''candlesticks'')))"
proof (intro conjI allI impI)
  obtain rows where d: "d = filled rows (the (schema_at k))" and ok: "rows_ok rows (the (schema_at k))"
    using assms(2) by (auto simp: at_version_def)
  obtain rows1 where up: "transaction (up_sql k) d = Some (filled rows1 (the (schema_at (Suc k))))"
    and ok1: "rows_ok rows1 (the (schema_at (Suc k)))" and kept: "0 < k \<Longrightarrow> rows1 ''candlesticks'' = (if k = 1 then [] else rows ''candlesticks'')"
    using migration_applies[OF assms(1) ok] d by blast
  have starts: "unique_on [''start_time''] (rows1 ''candlesticks'')" if "k = 2"
    using ok that kept by (simp add: rows_ok_def version_schemas)
  have undone: "filled (\<lambda>n. if k = 2 then unstamped (rows1 n) else rows1 n) (the (schema_at k)) = (if k = 1 then with_rows [] d else d)"
    using less_four[OF assms(1)]
  proof (elim disjE)
    assume k: "k = 2"
    have "\<forall>r \<in> set (rows ''candlesticks''). fst ` set r \<subseteq> set (map col_name candle_columns)"
      using ok unfolding k by (simp add: rows_ok_def version_schemas)
    then have "''created_at'' \<notin> fst ` set r \<and> ''updated_at'' \<notin> fst ` set r" if "r \<in> set (rows ''candlesticks'')" for r
      using that by (auto simp: candle_columns_def candlesticks_up_def)
    then have "unstamped (rows ''candlesticks'') = rows ''candlesticks''"
      by (simp add: unstamped_def without_absent)
    then show ?thesis
      using kept d unfolding k by (simp add: schema_simps)
  next
    assume k: "k = 3"
    have "transaction (up_sql 3) d = Some (d\<lparr>sc_keys := sc_keys d @ [(''candlesticks_pkey'', ''candlesticks'', [''id''])]\<rparr>)"
      using up unfolding k by (auto simp: sql_at split: option.splits if_splits)
    then have "sc_tables d = sc_tables (filled rows1 (the (schema_at (Suc k))))"
      using up unfolding k by auto
    then show ?thesis
      unfolding k d by (simp add: schema_simps)
  qed (use kept d in \<open>simp_all add: schema_simps with_rows_def\<close>)
  show "\<exists>d1. transaction (up_sql k) d = Some d1 \<and> at_version (Suc k) d1 \<and>
      transaction (down_sql k) d1 = Some (if k = 1 then with_rows [] d else d) \<and>
      (1 < k \<longrightarrow> rows_of d1 ''candlesticks'' = rows_of d ''candlesticks'')"
  proof (intro exI conjI impI)
    show "at_version (Suc k) (filled rows1 (the (schema_at (Suc k))))"
      using ok1 by (auto simp: at_version_def)
    show "transaction (down_sql k) (filled rows1 (the (schema_at (Suc k)))) = Some (if k = 1 then with_rows [] d else d)"
      using rollback_applies[OF assms(1) ok1] starts undone by (auto split: if_splits)
    show "rows_of (filled rows1 (the (schema_at (Suc k)))) ''candlesticks'' = rows_of d ''candlesticks''" if "1 < k"
      using that assms(1) kept by (simp add: d candle_rows)
  qed (rule up)
next
  fix d1
  assume "at_version (Suc k) d1"
  then obtain rows where d1: "d1 = filled rows (the (schema_at (Suc k)))" and ok: "rows_ok rows (the (schema_at (Suc k)))"
    by (auto simp: at_version_def)
  have candles: "rows_of d1 ''candlesticks'' = rows ''candlesticks''"
    using assms(1) by (simp add: d1 candle_rows)
  show "case transaction (down_sql k) d1 of
       Some d0 \<Rightarrow> at_version k d0 \<and>
         (0 < k \<longrightarrow> rows_of d0 ''candlesticks'' = (if k = 2 then unstamped else id) (rows_of d1 ''candlesticks''))
     | None \<Rightarrow> k = 2 \<and> \<not> unique_on [''start_time''] (rows_of d1 ''candlesticks'')"
  proof (cases "k = 2 \<and> \<not> unique_on [''start_time''] (rows ''candlesticks'')")
    case True
    then show ?thesis
      using rollback_applies[OF assms(1) ok] candles by (simp add: d1)
  next
    case False
    then have "at_version k (filled (\<lambda>n. if k = 2 then unstamped (rows n) else rows n) (the (schema_at k)))"
      using rolled_back_ok[OF assms(1) ok] unfolding at_version_def by blast
    then show ?thesis
      using rollback_applies[OF assms(1) ok] candles False assms(1) by (auto simp: d1 candle_rows simp flip: d1)
  qed
qed

text \<open>A database with two candlesticks.\<close>

definition two_candles :: "(string \<times> string) list list" where
  "two_candles = [[(''id'', ''1''), (''start_time'', ''a''), (''product'', ''BTC-USD'')], [(''id'', ''2''), (''start_time'', ''b''), (''product'', ''BTC-USD'')]]"

lemma two_candles_at_2: "at_version 2 (filled (\<lambda>_. two_candles) (the (schema_at 2)))"
proof -
  have "rows_ok (\<lambda>_. two_candles) (the (schema_at 2))"
    by (simp add: rows_ok_def version_schemas two_candles_def unique_on_def candle_columns_def candlesticks_up_def)
  then show ?thesis
    by (auto simp: at_version_def)
qed

lemma rollback_undoes_migration_witness:
  "\<exists>d1. transaction (up_sql 2) (filled (\<lambda>_. two_candles) (the (schema_at 2))) = Some d1 \<and>
    transaction (down_sql 2) d1 = Some (filled (\<lambda>_. two_candles) (the (schema_at 2))) \<and> rows_of d1 ''candlesticks'' = two_candles"
proof -
  have "rows_of (filled (\<lambda>_. two_candles) (the (schema_at 2))) ''candlesticks'' = two_candles"
    by (simp add: candle_rows)
  then show ?thesis
    using rollback_undoes_migration[OF _ two_candles_at_2] by auto
qed

text \<open>The index that the upsert of a candlestick resolves its conflicts with.\<close>

lemma upsert_index:
  "at_version 4 d \<Longrightarrow> sc_indexes d = [(''candlesticks_start_time_product_idx'', ''candlesticks'', [''start_time'', ''product''])]"
  by (auto simp: at_version_def filled_def version_schemas)

text \<open>The rollback of the third migration needs the rows to be of one product: it makes the starting time
  unique again, so that it fails as soon as two of them, say of two products, start together. Without such rows it succeeds.\<close>

theorem third_rollback_needs_unique_starts:
  "transaction strategies_down (with_rows rows (the (schema_at 3))) \<noteq> None \<longleftrightarrow> unique_on [''start_time''] rows"
  by (simp add: version_3 three_tables_def stamped_columns_def candle_columns_def strategy_columns_def order_columns_def
      with_rows_def strategies_down_def update_table_def find_table_def referenced_def name_used_def strategies_up_def candlesticks_up_def)

end
