(* ===== verification/Results_CSV.thy ===== *)
theory Results_CSV
  imports Backtesting
begin

text \<open>
  \<open>resultsCSV\<close> of \<open>backtesting.go\<close>, with what it uses of Go's \<open>encoding/csv\<close> and of \<open>fmt\<close>: the
  quoting of a field and \<open>%f\<close>. The format of a time is a parameter.
\<close>

section \<open>encoding/csv\<close>

abbreviation quote :: char where "quote \<equiv> CHR 0x22"
abbreviation newline :: char where "newline \<equiv> CHR 0x0A"

definition is_space :: "char \<Rightarrow> bool" where
  "is_space c \<longleftrightarrow> c \<in> {CHR 0x09, newline, CHR 0x0B, CHR 0x0C, CHR 0x0D, CHR '' ''}"

definition fieldNeedsQuotes :: "string \<Rightarrow> bool" where
  "fieldNeedsQuotes field =
    (if field = [] then False
     else field = [CHR 0x5C, CHR ''.''] \<or> list_ex (\<lambda>c. c = CHR '','' \<or> c \<in> {quote, CHR 0x0D, newline}) field \<or> is_space (hd field))"

definition write_field :: "string \<Rightarrow> string" where
  "write_field field =
    (if fieldNeedsQuotes field
     then [quote] @ concat (map (\<lambda>c. if c = quote then [quote, quote] else [c]) field) @ [quote]
     else field)"

fun write_record :: "string list \<Rightarrow> string" where
  "write_record [] = [newline]"
| "write_record [f] = write_field f @ [newline]"
| "write_record (f # fs) = write_field f @ [CHR '',''] @ write_record fs"

section \<open>The verb \<open>%f\<close>\<close>

text \<open>Six decimals of a number of millionths.\<close>

definition show_millionths :: "nat \<Rightarrow> string" where
  "show_millionths n = show_nat (n div 10 ^ 6) @ ''.'' @ map (\<lambda>k. digit_char (n div 10 ^ k mod 10)) [5, 4, 3, 2, 1, 0]"

fun show_float :: "f64 \<Rightarrow> string" where
  "show_float NaN = ''NaN''"
| "show_float PInf = ''+Inf''"
| "show_float NInf = ''-Inf''"
| "show_float NZero = ''-0.000000''"
| "show_float (Fin q) = (if q < 0 then ''-'' else []) @ show_millionths (nat (round_half_even (\<bar>q\<bar> * 10 ^ 6)))"

section \<open>The table of results\<close>

definition csv_columns :: "string list" where
  "csv_columns = [''start_time'', ''end_time'', ''low'', ''high'', ''open'', ''close'', ''volume'', ''bought_size'', ''sold_size'',
     ''budget'', ''invested'']"

fun deref_all :: "'a option list \<Rightarrow> 'a list go_result" where
  "deref_all [] = Ok []"
| "deref_all (p # ps) = bind_result (deref p) (\<lambda>a. bind_result (deref_all ps) (\<lambda>as. Ok (a # as)))"

definition order_cells :: "market_order_model option \<Rightarrow> string list" where
  "order_cells om = (case om of
     Some m \<Rightarrow> [(if mm_side m = OrderBuy then show_float (mm_filled_size m) else []),
                (if mm_side m = OrderSell then show_float (mm_filled_size m) else [])]
   | None \<Rightarrow> [[], []])"

definition csv_row :: "(time \<Rightarrow> string) \<Rightarrow> backtest_result \<Rightarrow> string list go_result" where
  "csv_row rfc3339 r =
    bind_result (deref (br_candle r)) (\<lambda>c.
    bind_result (deref (br_indicator_set r)) (\<lambda>is.
    bind_result (deref_all (is_values is)) (\<lambda>vs.
      Ok ([rfc3339 (cs_start c), rfc3339 (cs_end c), show_float (cs_low c), show_float (cs_high c), show_float (cs_open c),
           show_float (cs_close c), show_float (cs_volume c)] @ order_cells (br_market_order r) @
          [show_float (br_budget r), show_float (br_invested r)] @ map (\<lambda>v. show_float (iv_value v)) vs))))"

fun csv_rows :: "(time \<Rightarrow> string) \<Rightarrow> backtest_result list \<Rightarrow> string list list go_result" where
  "csv_rows rfc3339 [] = Ok []"
| "csv_rows rfc3339 (r # rs) =
    bind_result (csv_row rfc3339 r) (\<lambda>row. bind_result (csv_rows rfc3339 rs) (\<lambda>rows. Ok (row # rows)))"

text \<open>The names of the columns come from the first result, which must exist.\<close>

definition resultsCSV :: "(time \<Rightarrow> string) \<Rightarrow> backtest_result list \<Rightarrow> string go_result" where
  "resultsCSV rfc3339 results =
    (case results of
       [] \<Rightarrow> Panic ''index out of range''
     | firstRow # _ \<Rightarrow>
         bind_result (deref (br_indicator_set firstRow)) (\<lambda>is.
         bind_result (deref_all (is_values is)) (\<lambda>vs.
         bind_result (csv_rows rfc3339 results) (\<lambda>rows.
           Ok (concat (map write_record ((csv_columns @ map iv_name vs) # rows)))))))"

end
