(* ===== verification/Results_CSV_Specs.thy ===== *)
theory Results_CSV_Specs
  imports Results_CSV
begin

text \<open>
  A reader of the format and one of decimals: the table of results reads back as it was
  written, and every number in it to half a millionth.
\<close>

section \<open>Reading the table\<close>

fun read_quoted :: "string \<Rightarrow> (string \<times> string) option" where
  "read_quoted [] = None"
| "read_quoted [c] = (if c = quote then Some ([], []) else None)"
| "read_quoted (c # d # s) =
    (if c = quote then
       if d = quote then map_option (\<lambda>(f, r). (quote # f, r)) (read_quoted s) else Some ([], d # s)
     else map_option (\<lambda>(f, r). (c # f, r)) (read_quoted (d # s)))"

definition ends_field :: "char \<Rightarrow> bool" where
  "ends_field c \<longleftrightarrow> c = CHR '','' \<or> c = newline"

definition read_field :: "string \<Rightarrow> (string \<times> string) option" where
  "read_field s = (case s of
     c # r \<Rightarrow> if c = quote then read_quoted r else Some (takeWhile (\<lambda>c. \<not> ends_field c) s, dropWhile (\<lambda>c. \<not> ends_field c) s)
   | [] \<Rightarrow> None)"

fun read_record :: "nat \<Rightarrow> string \<Rightarrow> (string list \<times> string) option" where
  "read_record 0 s = None"
| "read_record (Suc n) s =
    (case read_field s of
       Some (f, c # r) \<Rightarrow>
         if c = newline then Some ([f], r)
         else map_option (\<lambda>(fs, r1). (f # fs, r1)) (read_record n r)
     | _ \<Rightarrow> None)"

fun read_csv :: "nat \<Rightarrow> string \<Rightarrow> string list list option" where
  "read_csv 0 s = None"
| "read_csv (Suc n) s =
    (if s = [] then Some []
     else case read_record (length s) s of
       Some (fs, r) \<Rightarrow> map_option ((#) fs) (read_csv n r)
     | None \<Rightarrow> None)"

lemma read_quoted_written:
  assumes "s = c # t" and "c \<noteq> quote"
  shows "read_quoted (concat (map (\<lambda>c. if c = quote then [quote, quote] else [c]) f) @ quote # s) = Some (f, s)"
proof (induction f)
  case (Cons a f)
  then show ?case
    by (cases "concat (map (\<lambda>c. if c = quote then [quote, quote] else [c]) f) @ quote # s") auto
qed (simp add: assms)

lemma read_field_written:
  assumes "ends_field c"
  shows "read_field (write_field f @ c # t) = Some (f, c # t)"
proof (cases "fieldNeedsQuotes f")
  case True
  have "c \<noteq> quote"
    using assms by (auto simp: ends_field_def)
  then show ?thesis
    using read_quoted_written[of "c # t" c t f] True by (simp add: read_field_def write_field_def)
next
  case False
  then have clean: "\<not> ends_field d" "d \<noteq> quote" if "d \<in> set f" for d
    using that by (auto simp: fieldNeedsQuotes_def list_ex_iff ends_field_def split: if_splits)
  have "takeWhile (\<lambda>c. \<not> ends_field c) (f @ c # t) = f" "dropWhile (\<lambda>c. \<not> ends_field c) (f @ c # t) = c # t"
    using clean(1) assms by (simp_all add: takeWhile_append2 dropWhile_append2)
  moreover have "c \<noteq> quote"
    using assms by (auto simp: ends_field_def)
  ultimately show ?thesis
    using False clean(2) by (cases f) (auto simp: read_field_def write_field_def)
qed

lemma read_record_written:
  "fs \<noteq> [] \<Longrightarrow> length fs \<le> n \<Longrightarrow> read_record n (write_record fs @ t) = Some (fs, t)"
proof (induction fs arbitrary: n rule: write_record.induct)
  case (2 f)
  then show ?case
    using read_field_written[of newline f t] by (cases n) (simp_all add: ends_field_def)
next
  case (3 f g gs)
  then obtain m where m: "n = Suc m" "length (g # gs) \<le> m"
    by (cases n) auto
  then show ?case
    using "3.IH"[of m] read_field_written[of "CHR '',''" f "write_record (g # gs) @ t"] by (simp add: ends_field_def)
qed simp

lemma write_record_length: "length fs \<le> length (write_record fs)"
  by (induction fs rule: write_record.induct) simp_all

lemma read_csv_written:
  assumes "\<And>fs. fs \<in> set rows \<Longrightarrow> fs \<noteq> []" and "length rows < n"
  shows "read_csv n (concat (map write_record rows)) = Some rows"
  using assms
proof (induction rows arbitrary: n)
  case Nil
  then show ?case by (cases n) simp_all
next
  case (Cons fs rows)
  then obtain m where m: "n = Suc m" "length rows < m"
    by (cases n) auto
  let ?t = "concat (map write_record rows)"
  have "read_record (length (write_record fs @ ?t)) (write_record fs @ ?t) = Some (fs, ?t)"
    using Cons.prems(1) write_record_length[of fs] by (intro read_record_written) auto
  moreover have "write_record fs \<noteq> []"
    by (cases fs rule: write_record.cases) simp_all
  ultimately show ?case
    using Cons.IH[of m] Cons.prems(1) m by simp
qed

section \<open>Reading decimals\<close>

definition read_nat :: "string \<Rightarrow> nat" where
  "read_nat s = foldl (\<lambda>n c. 10 * n + (of_char c - 48)) 0 s"

lemma read_nat_snoc: "d < 10 \<Longrightarrow> read_nat (s @ [digit_char d]) = 10 * read_nat s + d"
  by (simp add: read_nat_def digit_char_code)

lemma read_nat_show: "read_nat (show_nat n) = n"
proof (induction n rule: show_nat.induct)
  case (1 n)
  show ?case
  proof (cases "n < 10")
    case True
    then show ?thesis
      using read_nat_snoc[of n "[]"] by (subst show_nat.simps) (simp add: read_nat_def)
  next
    case False
    then show ?thesis
      using 1 read_nat_snoc[of "n mod 10" "show_nat (n div 10)"] by (subst show_nat.simps) simp
  qed
qed

text \<open>The value of a decimal with six places: its digits, as millionths.\<close>

definition read_float :: "string \<Rightarrow> rat" where
  "read_float s =
    (let digits = filter (\<lambda>c. c \<noteq> CHR ''.'' \<and> c \<noteq> CHR ''-'') s; n = of_nat (read_nat digits) / 10 ^ 6
     in if s \<noteq> [] \<and> hd s = CHR ''-'' then - n else n)"

lemma plain_digits: "(48 :: nat) \<le> of_char c \<Longrightarrow> c \<noteq> CHR ''.'' \<and> c \<noteq> CHR ''-''"
  by auto

lemma filter_digits: "(\<And>c. c \<in> set s \<Longrightarrow> (48 :: nat) \<le> of_char c) \<Longrightarrow> filter (\<lambda>c. c \<noteq> CHR ''.'' \<and> c \<noteq> CHR ''-'') s = s"
  using plain_digits by (intro filter_True) blast

lemma read_millionths: "filter (\<lambda>c. c \<noteq> CHR ''.'' \<and> c \<noteq> CHR ''-'') (show_millionths n) =
    show_nat (n div 10 ^ 6) @ map (\<lambda>k. digit_char (n div 10 ^ k mod 10)) [5, 4, 3, 2, 1, 0]"
proof -
  have "filter (\<lambda>c. c \<noteq> CHR ''.'' \<and> c \<noteq> CHR ''-'') (show_nat (n div 10 ^ 6)) = show_nat (n div 10 ^ 6)"
    using show_nat_digits by (rule filter_digits)
  moreover have "filter (\<lambda>c. c \<noteq> CHR ''.'' \<and> c \<noteq> CHR ''-'') (map (\<lambda>k. digit_char (n div 10 ^ k mod 10)) [5, 4, 3, 2, 1, 0]) =
      map (\<lambda>k. digit_char (n div 10 ^ k mod 10)) [5, 4, 3, 2, 1, 0]"
    by (rule filter_digits) (auto simp: digit_char_code)
  ultimately show ?thesis
    by (simp add: show_millionths_def)
qed

text \<open>Reading on: the digits from place \<open>k\<close> down.\<close>

lemma read_digits_on:
  "read_nat s = n div 10 ^ k \<Longrightarrow> read_nat (s @ map (\<lambda>j. digit_char (n div 10 ^ j mod 10)) (rev [0..<k])) = n"
proof (induction k arbitrary: s)
  case (Suc k)
  have "10 * (n div 10 ^ Suc k) + n div 10 ^ k mod 10 = n div 10 ^ k"
    by (metis div_mult2_eq mult_div_mod_eq power_Suc2)
  then have "read_nat (s @ [digit_char (n div 10 ^ k mod 10)]) = n div 10 ^ k"
    using read_nat_snoc[of "n div 10 ^ k mod 10" s] Suc.prems by simp
  then show ?case
    using Suc.IH[of "s @ [digit_char (n div 10 ^ k mod 10)]"] by simp
qed simp

lemma read_show_millionths: "read_nat (show_nat (n div 10 ^ 6) @ map (\<lambda>k. digit_char (n div 10 ^ k mod 10)) [5, 4, 3, 2, 1, 0]) = n"
proof -
  have places: "rev [0..<6] = [5, 4, 3, 2, 1, 0]"
    by code_simp
  show ?thesis
    using read_digits_on[of "show_nat (n div 10 ^ 6)" n 6] unfolding places by (simp only: read_nat_show)
qed

section \<open>Properties\<close>

text \<open>Every number of the table can be read back to half a millionth, signs included.\<close>

theorem float_reads_back: "\<bar>read_float (show_float (Fin q)) - q\<bar> \<le> 1 / 2000000"
proof -
  define n where "n = nat (round_half_even (\<bar>q\<bar> * 10 ^ 6))"
  have "0 \<le> round_half_even (\<bar>q\<bar> * 10 ^ 6)"
    using round_half_even_ge_floor[of "\<bar>q\<bar> * 10 ^ 6"] by (rule order_trans[rotated]) simp
  then have n: "(of_nat n :: rat) = of_int (round_half_even (\<bar>q\<bar> * 10 ^ 6))"
    by (simp add: n_def)
  have "hd (show_millionths n) \<in> set (show_nat (n div 10 ^ 6))"
    by (simp add: show_millionths_def hd_append)
  then have "hd (show_millionths n) \<noteq> CHR ''-''" "show_millionths n \<noteq> []"
    using plain_digits[OF show_nat_digits] by (blast, simp add: show_millionths_def)
  moreover have "show_float (Fin q) = (if q < 0 then ''-'' else []) @ show_millionths n"
    by (simp add: n_def)
  ultimately have "read_float (show_float (Fin q)) = (if q < 0 then - (of_nat n / 10 ^ 6) else of_nat n / 10 ^ 6)"
    using read_millionths[of n] read_show_millionths[of n] by (simp only: read_float_def Let_def) simp
  moreover have "\<bar>of_nat n / 10 ^ 6 - \<bar>q\<bar>\<bar> \<le> 1 / 2000000"
  proof -
    have "of_nat n / 10 ^ 6 - \<bar>q\<bar> = (of_nat n - \<bar>q\<bar> * 10 ^ 6) / 10 ^ 6"
      by (simp add: diff_divide_distrib)
    then show ?thesis
      using round_half_even_dist[of "\<bar>q\<bar> * 10 ^ 6"] n by (simp add: field_simps)
  qed
  ultimately show ?thesis
    by (cases "q < 0") (auto simp: abs_if split: if_splits)
qed

lemma csv_rows_Ok:
  "csv_rows ft rs = Ok rows \<Longrightarrow> length rows = length rs \<and> (\<forall>i < length rs. csv_row ft (rs ! i) = Ok (rows ! i))"
  by (induction rs arbitrary: rows) (auto simp: bind_result_Ok_iff nth_Cons split: nat.splits)

lemma csv_row_nonempty: "csv_row ft r = Ok row \<Longrightarrow> row \<noteq> []"
  by (auto simp: csv_row_def bind_result_Ok_iff)

text \<open>What a reader expects of the table: the fixed columns by name, then the indicators by place. A
  number is read back to half a millionth.\<close>

definition prints :: "string \<Rightarrow> f64 \<Rightarrow> bool" where
  "prints cell x \<longleftrightarrow> (case x of Fin q \<Rightarrow> \<bar>read_float cell - q\<bar> \<le> 1 / 2000000 | _ \<Rightarrow> cell = show_float x)"

definition header_of :: "indicator_set \<Rightarrow> string list" where
  "header_of is = csv_columns @ map (iv_name \<circ> the) (is_values is)"

definition filled_as :: "string \<Rightarrow> string \<Rightarrow> backtest_result \<Rightarrow> bool" where
  "filled_as side cell r \<longleftrightarrow> (case br_market_order r of
     Some m \<Rightarrow> if mm_side m = side then prints cell (mm_filled_size m) else cell = []
   | None \<Rightarrow> cell = [])"

definition reads_as :: "(time \<Rightarrow> string) \<Rightarrow> string list \<Rightarrow> backtest_result \<Rightarrow> string list \<Rightarrow> bool" where
  "reads_as rfc3339 header r row \<longleftrightarrow> (\<exists>c is cell. br_candle r = Some c \<and> br_indicator_set r = Some is \<and>
     (\<forall>name \<in> set csv_columns. map_of (zip header row) name = Some (cell name)) \<and>
     cell ''start_time'' = rfc3339 (cs_start c) \<and> cell ''end_time'' = rfc3339 (cs_end c) \<and>
     prints (cell ''low'') (cs_low c) \<and> prints (cell ''high'') (cs_high c) \<and> prints (cell ''open'') (cs_open c) \<and>
     prints (cell ''close'') (cs_close c) \<and> prints (cell ''volume'') (cs_volume c) \<and>
     filled_as OrderBuy (cell ''bought_size'') r \<and> filled_as OrderSell (cell ''sold_size'') r \<and>
     prints (cell ''budget'') (br_budget r) \<and> prints (cell ''invested'') (br_invested r) \<and>
     list_all2 (\<lambda>cell v. \<exists>value. v = Some value \<and> prints cell (iv_value value)) (drop (length csv_columns) row) (is_values is))"

lemma prints_float [simp]: "prints (show_float x) x"
  using float_reads_back by (cases x) (simp_all add: prints_def)

lemma filled_cells: "order_cells om = [a, b] \<Longrightarrow> br_market_order r = om \<Longrightarrow> filled_as OrderBuy a r \<and> filled_as OrderSell b r"
  by (auto simp: order_cells_def filled_as_def split: option.splits)

lemma order_cells_two: "\<exists>a b. order_cells om = [a, b]"
  by (simp add: order_cells_def split: option.split)

lemma deref_all_Ok: "deref_all ps = Ok vs \<Longrightarrow> ps = map Some vs"
  by (induction ps arbitrary: vs) (auto simp: bind_result_Ok_iff deref_def split: option.splits)

lemma csv_row_reads:
  assumes "csv_row rfc3339 r = Ok row"
  shows "reads_as rfc3339 (csv_columns @ names) r row"
proof -
  obtain c "is" vs where c: "br_candle r = Some c" "br_indicator_set r = Some is" and vs: "deref_all (is_values is) = Ok vs"
    and row: "row = [rfc3339 (cs_start c), rfc3339 (cs_end c), show_float (cs_low c), show_float (cs_high c), show_float (cs_open c),
      show_float (cs_close c), show_float (cs_volume c)] @ order_cells (br_market_order r) @
      [show_float (br_budget r), show_float (br_invested r)] @ map (\<lambda>v. show_float (iv_value v)) vs"
    using assms by (auto simp: csv_row_def bind_result_Ok_iff deref_def split: option.splits)
  obtain a b where ab: "order_cells (br_market_order r) = [a, b]"
    using order_cells_two by blast
  define cell where "cell = the \<circ> map_of (zip (csv_columns @ names) row)"
  have "list_all2 (\<lambda>cell v. \<exists>value. v = Some value \<and> prints cell (iv_value value)) (map (\<lambda>v. show_float (iv_value v)) vs) (is_values is)"
    unfolding deref_all_Ok[OF vs] by (induction vs) simp_all
  then show ?thesis
    using c filled_cells[OF ab refl] unfolding reads_as_def
    by (intro exI[of _ c] exI[of _ "is"] exI[of _ cell]) (simp add: row ab cell_def csv_columns_def)
qed

text \<open>C36. The table of results reads back: whatever the names, numbers and printed times contain, a
  reader of the format finds the header, which is the fixed columns and the names of the indicators
  of the first result in their order, and one row for each result, in order; by the names of the
  columns, a row has the times and the five numbers of the candlestick, what a purchase and what a
  sale filled or nothing, the budget and the investment, and behind them the values of the
  indicators of that result, every number to half a millionth.\<close>

theorem csv_reads_back:
  assumes "resultsCSV rfc3339 results = Ok csv"
  shows "\<exists>is header rows. br_indicator_set (hd results) = Some is \<and> header = header_of is \<and>
    read_csv (Suc (Suc (length results))) csv = Some (header # rows) \<and>
    list_all2 (reads_as rfc3339 header) results rows"
proof -
  obtain first rest "is" vs rows where first: "results = first # rest" "br_indicator_set first = Some is"
    and vs: "deref_all (is_values is) = Ok vs" and rows: "csv_rows rfc3339 results = Ok rows"
    and csv: "csv = concat (map write_record ((csv_columns @ map iv_name vs) # rows))"
    using assms by (auto simp: resultsCSV_def bind_result_Ok_iff deref_def split: list.splits option.splits)
  have header: "header_of is = csv_columns @ map iv_name vs"
    by (simp add: header_of_def deref_all_Ok[OF vs])
  have r: "list_all2 (reads_as rfc3339 (header_of is)) results rows"
    using csv_rows_Ok[OF rows] csv_row_reads by (auto simp: header list_all2_conv_all_nth)
  have "fs \<noteq> []" if "fs \<in> set ((csv_columns @ map iv_name vs) # rows)" for fs
    using that csv_rows_Ok[OF rows] csv_row_nonempty by (auto simp: csv_columns_def in_set_conv_nth)
  then have "read_csv (Suc (Suc (length results))) csv = Some (header_of is # rows)"
    unfolding csv header using csv_rows_Ok[OF rows] by (intro read_csv_written) simp_all
  with r first show ?thesis
    by auto
qed

definition one_result :: backtest_result where
  "one_result = empty_result\<lparr>br_candle := Some zero_candlestick,
     br_indicator_set := Some \<lparr>is_time = 0, is_values = [Some \<lparr>iv_time = 0, iv_value = Fin (1 / 4), iv_name = ''a,b''\<rparr>]\<rparr>\<rparr>"

lemma csv_reads_back_witness:
  "\<exists>csv rows. resultsCSV (\<lambda>t. ''now'') [one_result] = Ok csv \<and> read_csv 3 csv = Some ((csv_columns @ [''a,b'']) # rows) \<and>
    list_all2 (reads_as (\<lambda>t. ''now'') (csv_columns @ [''a,b''])) [one_result] rows"
proof -
  obtain csv where csv: "resultsCSV (\<lambda>t. ''now'') [one_result] = Ok csv"
    by (simp add: resultsCSV_def one_result_def csv_row_def deref_def)
  moreover have "header_of (the (br_indicator_set one_result)) = csv_columns @ [''a,b'']"
    by (simp add: header_of_def one_result_def)
  ultimately show ?thesis
    using csv_reads_back[OF csv] by (auto simp: numeral_nat)
qed

end
