(* ===== verification/Commands.thy ===== *)
theory Commands
  imports Backend Bot Exchanges Importers Migrations Optimization Results_CSV
begin

text \<open>
  \<open>cli.go\<close>: the commands over the parts of the program. The values of the flags are arguments. A
  command that prints an error and exits with status one is an error here; what else it prints is
  its result. The clock, the parser of times and the packages for flags, configuration, migrations and the genetic
  search are parameters.
\<close>

section \<open>The runner\<close>

datatype exchange_choice = GDAX | FakeGDAX | Kraken | FakeKraken

record runner =
  rn_bots :: "(product \<times> exchange_choice) list"
  rn_realtime :: "(product \<times> exchange_choice) list"
  rn_historical :: "(product \<times> exchange_choice \<times> int) list"
  rn_gdax :: exchange_choice
  rn_kraken :: exchange_choice

definition createRunner :: "bool \<Rightarrow> runner" where
  "createRunner use_fake_exchange =
    (let (gdax, kraken) = (if use_fake_exchange then (FakeGDAX, FakeKraken) else (GDAX, Kraken));
         products = [ProductBTCUSD, ProductETHUSD, ProductLTCUSD]
     in \<lparr>rn_bots = map (\<lambda>p. (p, gdax)) products, rn_realtime = map (\<lambda>p. (p, gdax)) products,
         rn_historical = map (\<lambda>p. (p, gdax, 6)) [ProductBTCUSD, ProductLTCUSD, ProductETHUSD],
         rn_gdax = gdax, rn_kraken = kraken\<rparr>)"

text \<open>\<open>GetCandlesticks\<close> of an exchange: the fake GDAX is made with a nil client, Kraken does not have it.\<close>

definition nil_client :: "'w gdax_client" where
  "nil_client = \<lparr>gc_rates = (\<lambda>_ _ _ _ w. (Panic ''invalid memory address or nil pointer dereference'', w)),
      gc_create = (\<lambda>_ w. (Panic ''invalid memory address or nil pointer dereference'', w)),
      gc_get = (\<lambda>_ w. (Panic ''invalid memory address or nil pointer dereference'', w)), gc_sleep = (\<lambda>_ w. w)\<rparr>"

fun exchange_GetCandlesticks :: "'w gdax_client \<Rightarrow> exchange_choice \<Rightarrow> product \<Rightarrow> time \<Rightarrow> time \<Rightarrow> int \<Rightarrow> (candlestick list, 'w) act" where
  "exchange_GetCandlesticks g GDAX p s e k = gdax_GetCandlesticks g p s e k"
| "exchange_GetCandlesticks g FakeGDAX p s e k = gdax_GetCandlesticks nil_client p s e k"
| "exchange_GetCandlesticks g _ p s e k = result_act (Panic ''not implemented'')"

text \<open>The products a strategy is for, and the exchange of the importer that \<open>realtime-import\<close> starts for one.\<close>

definition realtime_exchange :: "runner \<Rightarrow> product_metadata \<Rightarrow> exchange_choice" where
  "realtime_exchange r md = (if pm_exchange md = ExchangeKraken then rn_kraken r else rn_gdax r)"

definition realtime_import :: "runner \<Rightarrow> product \<Rightarrow> (importer \<times> exchange_choice) option" where
  "realtime_import r p = map_option (\<lambda>md. (NewRealtimeImporter p, realtime_exchange r md)) (ProductToMetadata p)"

definition import_services_of :: "'w gdax_client \<Rightarrow> (candlestick \<Rightarrow> (unit, 'w) act) \<Rightarrow> exchange_choice \<Rightarrow> 'w import_services" where
  "import_services_of g upsertCandlestick exchange = \<lparr>is_candlesticks = exchange_GetCandlesticks g exchange,
     is_upsert = upsertCandlestick, is_sleep = gc_sleep g\<rparr>"

definition historical_import :: "(string \<Rightarrow> time go_result) \<Rightarrow> (exchange_choice \<Rightarrow> 'w import_services) \<Rightarrow> runner \<Rightarrow>
    product \<Rightarrow> string \<Rightarrow> string \<Rightarrow> (unit, 'w) act" where
  "historical_import parse sv r product startTime endTime =
    bind_act (result_act (wrap_err ''error parsing start time'' (parse startTime))) (\<lambda>s.
    bind_act (result_act (wrap_err ''error parsing end time'' (parse endTime))) (\<lambda>e.
      case map_of (rn_historical r) product of
        Some (exchange, concurrency) \<Rightarrow> Import (sv exchange) product concurrency s e
      | None \<Rightarrow> result_act (Err (Errorf ''unsupported product''))))"

section \<open>Creating strategies\<close>

text \<open>The fields that the commands set in a new model, the others having their zero value.\<close>

definition new_model :: "product \<Rightarrow> product_metadata \<Rightarrow> f64 \<Rightarrow> u64 \<Rightarrow> string \<Rightarrow> trading_strategy_model" where
  "new_model p md budget tick kind = \<lparr>tm_id = 0, tm_created_at = zero_time, tm_updated_at = zero_time,
     tm_deactivated_at = zero_time, tm_last_tick_at = zero_time, tm_next_tick_at = zero_time, tm_product = p,
     tm_history_ticks = 1000, tm_state = StrategyStateTryingToBuy, tm_initial_budget = budget, tm_budget = budget,
     tm_budget_currency = pm_buy_currency md, tm_invested = Fin 0, tm_invested_currency = pm_sell_currency md,
     tm_tick_size_minutes = tick, tm_trading_strategy = kind, tm_data = []\<rparr>"

definition known_product :: "product \<Rightarrow> product_metadata go_result" where
  "known_product p = (case ProductToMetadata p of Some md \<Rightarrow> Ok md | None \<Rightarrow> Err (Errorf ''unknown product''))"

definition first_tick :: "time \<Rightarrow> u64 \<Rightarrow> time go_result" where
  "first_tick now tick = bind_result (CandlestickBucket now (sint tick)) (\<lambda>bucket.
     Ok (time_add bucket (duration_mul minute (sint tick))))"

text \<open>From the model on: the strategy is attached and the model stored, its id is printed.\<close>

definition store_strategy :: "yaml_ops \<Rightarrow> strategy \<Rightarrow> (trading_strategy_model \<Rightarrow> (int, 'w) act) \<Rightarrow> trading_strategy_model \<Rightarrow> (int, 'w) act" where
  "store_strategy y s create m =
    (case SetStrategy y m s of (r, m1, s1) \<Rightarrow>
      bind_act (result_act (wrap_err ''error setting trading strategy'' r)) (\<lambda>_.
      wrap_act ''error creating trading strategy'' (create m1)))"

definition create_ema :: "yaml_ops \<Rightarrow> (trading_strategy_model \<Rightarrow> (int, 'w) act) \<Rightarrow> time \<Rightarrow> product \<Rightarrow> f64 \<Rightarrow> u64 \<Rightarrow>
    u64 \<Rightarrow> u64 \<Rightarrow> f64 \<Rightarrow> f64 \<Rightarrow> (int, 'w) act" where
  "create_ema y create now p budget tick short long down up =
    bind_act (result_act (known_product p)) (\<lambda>md.
    if feq budget (Fin 0) then result_act (Err (Errorf ''budget must be specified''))
    else
      bind_act (result_act (first_tick now tick)) (\<lambda>next.
      store_strategy y (SEMACrossover \<lparr>eco_ShortPeriod = short, eco_LongPeriod = long, eco_UpThreshold = up, eco_DownThreshold = down,
          eco_attached = False\<rparr>) create
        ((new_model p md budget tick TradingStrategyEMACrossover)\<lparr>tm_next_tick_at := next\<rparr>)))"

definition create_s1 :: "yaml_ops \<Rightarrow> (trading_strategy_model \<Rightarrow> (int, 'w) act) \<Rightarrow> time \<Rightarrow> product \<Rightarrow> f64 \<Rightarrow> f64 \<Rightarrow> u64 \<Rightarrow>
    s1_strategy \<Rightarrow> (int, 'w) act" where
  "create_s1 y create now p invested budget tick strategy =
    bind_act (result_act (known_product p)) (\<lambda>md.
    if feq budget (Fin 0) then result_act (Err (Errorf ''budget must be specified''))
    else
      bind_act (result_act (first_tick now tick)) (\<lambda>next.
      let s = (new_model p md budget tick [])\<lparr>tm_next_tick_at := next\<rparr>;
          s = (if flt (Fin 0) invested
               then s\<lparr>tm_invested := invested, tm_budget := Fin 0, tm_state := StrategyStateTryingToSell\<rparr> else s)
      in store_strategy y (SS1 strategy) create s))"

section \<open>Backtests\<close>

text \<open>The figures that are printed, of the results of a backtest.\<close>

record report =
  rp_trades :: u64
  rp_net_profit :: f64
  rp_profit_factor :: f64
  rp_expected_payoff :: f64
  rp_currency_gains :: f64
  rp_trading_gains :: f64
  rp_results :: backtest_results

definition report_of :: "backtest_results \<Rightarrow> report" where
  "report_of r = \<lparr>rp_trades = rt_loss_trades r + rt_profit_trades r, rp_net_profit = NetProfit r,
     rp_profit_factor = ProfitFactor r, rp_expected_payoff = ExpectedPayoff r,
     rp_currency_gains = fdiv (fmul (Fin 100) (fsub (rt_final_price r) (rt_initial_price r))) (rt_initial_price r),
     rp_trading_gains = fdiv (fmul (Fin 100) (NetProfit r)) (rt_initial_budget r), rp_results = r\<rparr>"

text \<open>The part the three commands have in common, from the times on.\<close>

definition run_backtest :: "yaml_ops \<Rightarrow> 'g backtest_env \<Rightarrow> (string \<Rightarrow> time go_result) \<Rightarrow> 'g \<Rightarrow> string \<Rightarrow> string \<Rightarrow>
    trading_strategy_model \<Rightarrow> (report \<times> backtest_result list) go_result" where
  "run_backtest y env parse source startTime endTime model =
    bind_result (wrap_err ''error parsing start time'' (parse startTime)) (\<lambda>s.
    bind_result (wrap_err ''error parsing end time'' (parse endTime)) (\<lambda>e.
    bind_result (wrap_err ''error creating backtester'' (NewBacktester y s e model)) (\<lambda>b.
      case Backtest env b (model, new_world source) of (r, (model1, w)) \<Rightarrow>
        bind_result (wrap_err ''error running backtest'' r) (\<lambda>_.
        bind_result (Results b model1 (bw_results w)) (\<lambda>results. Ok (report_of results, bw_results w))))))"

text \<open>The first command marshals the strategy itself, the others attach it with \<open>SetStrategy\<close>.\<close>

definition backtest_ema :: "yaml_ops \<Rightarrow> 'g backtest_env \<Rightarrow> (string \<Rightarrow> time go_result) \<Rightarrow> (time \<Rightarrow> string) \<Rightarrow> 'g \<Rightarrow> string \<Rightarrow> string \<Rightarrow>
    product \<Rightarrow> u64 \<Rightarrow> u64 \<Rightarrow> u64 \<Rightarrow> f64 \<Rightarrow> f64 \<Rightarrow> (report \<times> f64 \<times> string) go_result" where
  "backtest_ema y env parse rfc3339 source startTime endTime p granularity short long down up =
    bind_result (known_product p) (\<lambda>md.
    bind_result (wrap_err ''error marshaling trading strategy''
      (ym_marshal y (SEMACrossover \<lparr>eco_ShortPeriod = short, eco_LongPeriod = long, eco_UpThreshold = up, eco_DownThreshold = down,
          eco_attached = False\<rparr>))) (\<lambda>data.
    bind_result (run_backtest y env parse source startTime endTime
      ((new_model p md (Fin 100) granularity TradingStrategyEMACrossover)\<lparr>tm_data := data\<rparr>)) (\<lambda>(rep, results).
    bind_result (SharpeRatio (rp_results rep)) (\<lambda>sharpe.
    bind_result (wrap_err ''error creating results CS'' (resultsCSV rfc3339 results)) (\<lambda>csv.
      Ok (rep, sharpe, csv))))))"

definition attach_strategy :: "yaml_ops \<Rightarrow> strategy \<Rightarrow> trading_strategy_model \<Rightarrow> trading_strategy_model go_result" where
  "attach_strategy y s m = (case SetStrategy y m s of (r, m1, _) \<Rightarrow>
     bind_result (wrap_err ''error setting trading strategy'' r) (\<lambda>_. Ok m1))"

definition backtest_s1 :: "yaml_ops \<Rightarrow> 'g backtest_env \<Rightarrow> (string \<Rightarrow> time go_result) \<Rightarrow> (time \<Rightarrow> string) \<Rightarrow> 'g \<Rightarrow> string \<Rightarrow> string \<Rightarrow>
    product \<Rightarrow> u64 \<Rightarrow> s1_strategy \<Rightarrow> (report \<times> string) go_result" where
  "backtest_s1 y env parse rfc3339 source startTime endTime p granularity strategy =
    bind_result (known_product p) (\<lambda>md.
    bind_result (attach_strategy y (SS1 strategy) (new_model p md (Fin 100) granularity [])) (\<lambda>model.
    bind_result (run_backtest y env parse source startTime endTime model) (\<lambda>(rep, results).
    bind_result (wrap_err ''error creating results CS'' (resultsCSV rfc3339 results)) (\<lambda>csv. Ok (rep, csv)))))"

text \<open>\<open>uint(rsiPeriod)\<close> of an \<open>int\<close> flag.\<close>

definition backtest_rsi :: "yaml_ops \<Rightarrow> 'g backtest_env \<Rightarrow> (string \<Rightarrow> time go_result) \<Rightarrow> 'g \<Rightarrow> string \<Rightarrow> string \<Rightarrow>
    product \<Rightarrow> u64 \<Rightarrow> int \<Rightarrow> f64 \<Rightarrow> f64 \<Rightarrow> report go_result" where
  "backtest_rsi y env parse source startTime endTime p granularity period entrance exit =
    bind_result (known_product p) (\<lambda>md.
    bind_result (attach_strategy y (SRSI \<lparr>rs_Period = word_of_int period, rs_BuyThreshold = entrance, rs_SellThreshold = exit,
        rs_attached = False\<rparr>) (new_model p md (Fin 100) granularity [])) (\<lambda>model.
    bind_result (run_backtest y env parse source startTime endTime model) (\<lambda>(rep, results). Ok rep)))"

section \<open>The genetic search\<close>

text \<open>The vendored search: a population of a factory and a size, a generation, the best genome.\<close>

record 'p search_ops =
  so_population :: "genome_factory \<Rightarrow> int \<Rightarrow> 'p"
  so_enhance :: "'p \<Rightarrow> unit go_result \<times> 'p"
  so_best :: "'p \<Rightarrow> backtester_genome"

text \<open>The best value that is printed after each generation.\<close>

fun generations_loop :: "'p search_ops \<Rightarrow> (backtester_genome \<Rightarrow> f64 go_result) \<Rightarrow> nat \<Rightarrow> 'p \<Rightarrow> f64 list go_result" where
  "generations_loop ops evaluate 0 ga = Ok []"
| "generations_loop ops evaluate (Suc n) ga =
    (case so_enhance ops ga of (r, ga1) \<Rightarrow>
      bind_result (wrap_err ''error enhancing generation'' r) (\<lambda>_.
      bind_result (evaluate (so_best ops ga1)) (\<lambda>v.
      bind_result (generations_loop ops evaluate n ga1) (\<lambda>vs. Ok (fneg v # vs)))))"

definition optimize_strategy :: "'p search_ops \<Rightarrow> (backtester_genome \<Rightarrow> f64 go_result) \<Rightarrow> (string \<Rightarrow> time go_result) \<Rightarrow>
    string \<Rightarrow> string \<Rightarrow> product \<Rightarrow> u64 \<Rightarrow> string \<Rightarrow> u64 \<Rightarrow> u64 \<Rightarrow> f64 list go_result" where
  "optimize_strategy ops evaluate parse startTime endTime p granularity kind populationSize generations =
    bind_result (known_product p) (\<lambda>md.
    bind_result (wrap_err ''error parsing start time'' (parse startTime)) (\<lambda>s.
    bind_result (wrap_err ''error parsing end time'' (parse endTime)) (\<lambda>e.
      generations_loop ops evaluate (nat (sint generations))
        (so_population ops (NewBacktesterGenomeFactory s e (new_model p md (Fin 100) granularity kind)) (sint populationSize)))))"

section \<open>Migrating\<close>

text \<open>What the commands use of the migration library. \<open>None\<close> is the nil version.\<close>

record 'w migrate_ops =
  mo_version :: "((u64 \<times> bool) option, 'w) act"
  mo_force :: "int \<Rightarrow> (unit, 'w) act"
  mo_up :: "(unit, 'w) act"
  mo_steps :: "int \<Rightarrow> (unit, 'w) act"

definition ErrNoChange :: go_error where
  "ErrNoChange = Errorf ''no change''"

definition migrate_command :: "'w migrate_ops \<Rightarrow> (unit, 'w) act" where
  "migrate_command ops =
    bind_act (wrap_act ''error getting migration version'' (mo_version ops)) (\<lambda>v.
    let (currentVersion, dirty) = (case v of None \<Rightarrow> (0, False) | Some vd \<Rightarrow> vd)
    in bind_act
         (if dirty then
            (if currentVersion - 1 = 0 then result_act (Panic ''v0 migration detected'')
             else wrap_act ''error forcing version'' (mo_force ops (sint (currentVersion - 1))))
          else result_act (Ok ())) (\<lambda>_ w.
       case mo_up ops w of
         (Err e, w1) \<Rightarrow> (if e = ErrNoChange then Ok () else Err (Wrapf e ''error migrating''), w1)
       | r \<Rightarrow> r))"

definition rollback_command :: "'w migrate_ops \<Rightarrow> (unit, 'w) act" where
  "rollback_command ops =
    bind_act (wrap_act ''error getting migration version'' (mo_version ops)) (\<lambda>v w.
    let currentVersion = (case v of None \<Rightarrow> 0 | Some (n, _) \<Rightarrow> n)
    in case mo_steps ops (- 1) w of
         (Err e, w1) \<Rightarrow>
           (case mo_force ops (sint currentVersion) w1 of
              (Panic p, w2) \<Rightarrow> (Panic p, w2)
            | (Diverge, w2) \<Rightarrow> (Diverge, w2)
            | (_, w2) \<Rightarrow> (Err (Wrapf e ''error rolling back''), w2))
       | r \<Rightarrow> r)"

end
