(* ===== verification/Command_Specs.thy ===== *)
theory Command_Specs
  imports Commands Bot_Specs Exchange_Specs Importer_Specs
begin

text \<open>
  What the commands do with the parts: the strategies they create are those a deployment relies
  on, and the fake exchange is used everywhere or nowhere.
\<close>

section \<open>Created strategies\<close>

text \<open>\<open>Backend.CreateTradingStrategy\<close> on the database: the driver sets the id of the model.\<close>

definition db_create :: "go_error option \<Rightarrow> time \<Rightarrow> trading_strategy_model \<Rightarrow> (int, db) act" where
  "db_create failure now m d = (case CreateTradingStrategy failure now m d of
     (r, d1) \<Rightarrow> (bind_result r (\<lambda>_. Ok (db_strategy_id d)), d1))"

lemma SetStrategy_frame:
  assumes "SetStrategy y m s = (r, m1, s1)"
  shows "tm_state m1 = tm_state m" "tm_invested m1 = tm_invested m" "tm_budget m1 = tm_budget m" "tm_product m1 = tm_product m"
    "tm_next_tick_at m1 = tm_next_tick_at m" "tm_deactivated_at m1 = tm_deactivated_at m"
  using assms by (auto simp: SetStrategy_def Let_def split: go_result.splits)

lemma store_strategy_Ok:
  assumes "store_strategy y s (db_create f t) m d = (Ok i, d1)"
  obtains m1 where "db_strategies d1 = db_strategies d @ [m1]" "i = tm_id m1" "tm_state m1 = tm_state m" "tm_invested m1 = tm_invested m"
    "tm_budget m1 = tm_budget m" "tm_product m1 = tm_product m" "tm_next_tick_at m1 = tm_next_tick_at m" "tm_deactivated_at m1 = tm_deactivated_at m"
proof -
  obtain r m1 s1 where set: "SetStrategy y m s = (r, m1, s1)"
    by (metis prod.collapse)
  then have r: "r = Ok ()" "f = None" "d1 = snd (CreateTradingStrategy None t m1 d)" "i = db_strategy_id d"
    using assms
    by (cases r; cases f; auto simp: store_strategy_def bind_act_def result_act_def wrap_act_def db_create_def CreateTradingStrategy_def statement_def)+
  show ?thesis
    using SetStrategy_frame[OF set] r
    by (intro that[of "m1\<lparr>tm_created_at := t, tm_id := db_strategy_id d\<rparr>"]) (simp_all add: CreateTradingStrategy_def)
qed

lemma first_tick_Ok:
  assumes "bucket_window now" and "valid_tick (sint tick)"
  shows "first_tick now tick = Ok (bucket_of (sint tick) now + sint tick * minute)"
  using CandlestickBucket_eq[OF assms] tick_duration_valid[OF assms(2)] wrap64_id[OF in_int64I, of "sint tick"] assms(2)
  by (simp add: valid_tick_def first_tick_def time_add_def tick_duration_def duration_mul_def mult.commute)

lemma first_tick_later:
  assumes "valid_tick (sint tick)"
  shows "now < bucket_of (sint tick) now + sint tick * minute" and "bucket_of (sint tick) now + sint tick * minute \<le> now + sint tick * minute"
  using bucket_of_bounds[OF assms, of now] by simp_all

text \<open>What the two commands build before they store it.\<close>

definition created_ok :: "product \<Rightarrow> time \<Rightarrow> trading_strategy_model \<Rightarrow> bool" where
  "created_ok p nxt m \<longleftrightarrow> model_ok m \<and> tm_product m = p \<and> ProductToMetadata p \<noteq> None \<and> tm_next_tick_at m = nxt \<and>
     is_zero_time (tm_deactivated_at m)"

lemma stored_created:
  assumes "store_strategy y s (db_create f t) m d = (Ok i, d1)" and "created_ok p nxt m"
  shows "\<exists>m1. db_strategies d1 = db_strategies d @ [m1] \<and> i = tm_id m1 \<and> created_ok p nxt m1"
proof -
  obtain m1 where "db_strategies d1 = db_strategies d @ [m1]" "i = tm_id m1" "tm_state m1 = tm_state m" "tm_invested m1 = tm_invested m"
    "tm_budget m1 = tm_budget m" "tm_product m1 = tm_product m" "tm_next_tick_at m1 = tm_next_tick_at m" "tm_deactivated_at m1 = tm_deactivated_at m"
    using assms(1) by (rule store_strategy_Ok)
  then show ?thesis
    using assms(2) by (simp add: created_ok_def model_ok_def)
qed

lemma new_created:
  assumes "ProductToMetadata p = Some md"
  shows "created_ok p nxt ((new_model p md budget tick kind)\<lparr>tm_next_tick_at := nxt\<rparr>)"
    and "created_ok p nxt ((new_model p md budget tick kind)\<lparr>tm_next_tick_at := nxt, tm_invested := invested, tm_budget := Fin 0,
      tm_state := StrategyStateTryingToSell\<rparr>)"
  using assms by (simp_all add: created_ok_def model_ok_def new_model_def is_zero_time_def)

lemma create_ema_stores:
  assumes "create_ema y (db_create f t) now p budget tick short long down up d = (Ok i, d1)"
  shows "\<exists>nxt m. first_tick now tick = Ok nxt \<and> db_strategies d1 = db_strategies d @ [m] \<and> i = tm_id m \<and> created_ok p nxt m"
proof -
  obtain md nxt s where "ProductToMetadata p = Some md" "first_tick now tick = Ok nxt"
    "store_strategy y s (db_create f t) ((new_model p md budget tick TradingStrategyEMACrossover)\<lparr>tm_next_tick_at := nxt\<rparr>) d = (Ok i, d1)"
    using assms
    by (auto simp: create_ema_def bind_act_def result_act_def known_product_def split: go_result.splits option.splits if_splits)
  then show ?thesis
    using stored_created new_created(1) by blast
qed

lemma create_s1_stores:
  assumes "create_s1 y (db_create f t) now p invested budget tick strategy d = (Ok i, d1)"
  shows "\<exists>nxt m. first_tick now tick = Ok nxt \<and> db_strategies d1 = db_strategies d @ [m] \<and> i = tm_id m \<and> created_ok p nxt m"
proof -
  obtain md nxt s m0 where "ProductToMetadata p = Some md" "first_tick now tick = Ok nxt"
    "m0 \<in> {(new_model p md budget tick [])\<lparr>tm_next_tick_at := nxt\<rparr>, (new_model p md budget tick [])\<lparr>tm_next_tick_at := nxt,
        tm_invested := invested, tm_budget := Fin 0, tm_state := StrategyStateTryingToSell\<rparr>}"
    "store_strategy y s (db_create f t) m0 d = (Ok i, d1)"
    using assms
    by (auto simp: create_s1_def bind_act_def result_act_def known_product_def Let_def split: go_result.splits option.splits if_splits)
  moreover from this have "created_ok p nxt m0"
    using new_created by auto
  ultimately show ?thesis
    using stored_created by blast
qed

text \<open>C12. A strategy that a command creates is one the bot can run: it is in a consistent state, as
  every stored strategy stays, is for a known product, active, and due at the end of the bucket the command ran
  in, later than now and at most one tick later. The id that is printed is its id.\<close>

theorem created_strategies_are_sound:
  assumes "create_ema y (db_create f t) now p budget tick short long down up d = (Ok i, d1) \<or>
      create_s1 y (db_create f t) now p invested budget tick strategy d = (Ok i, d1)"
    and "stored_ok d" and "bucket_window now" and "valid_tick (sint tick)"
  shows "stored_ok d1 \<and> (\<exists>m. db_strategies d1 = db_strategies d @ [m] \<and> i = tm_id m \<and> model_ok m \<and> tm_product m = p \<and>
    ProductToMetadata p \<noteq> None \<and> is_zero_time (tm_deactivated_at m) \<and>
    now < tm_next_tick_at m \<and> tm_next_tick_at m \<le> now + sint tick * minute)"
proof -
  obtain nxt m where "first_tick now tick = Ok nxt" "db_strategies d1 = db_strategies d @ [m]" "i = tm_id m" "created_ok p nxt m"
    using assms(1) create_ema_stores create_s1_stores by metis
  then show ?thesis
    using assms(2) first_tick_Ok[OF assms(3,4)] first_tick_later[OF assms(4), of now]
    by (auto simp: created_ok_def stored_ok_def)
qed

definition rsi_yaml :: yaml_ops where
  "rsi_yaml = \<lparr>ym_marshal = (\<lambda>_. Ok ''data''), ym_unmarshal_eco = (\<lambda>_. Err (Errorf ''yaml'')),
     ym_unmarshal_rsi = (\<lambda>_. Err (Errorf ''yaml'')), ym_unmarshal_s1 = (\<lambda>_. Err (Errorf ''yaml''))\<rparr>"

definition created_db :: db where
  "created_db = snd (create_ema rsi_yaml (db_create None 5) candlestickBaseTime ProductXMRUSD (Fin 100) 15 10 25 (Fin 0) (Fin 0) empty_db)"

lemma create_ema_run:
  "create_ema rsi_yaml (db_create None 5) candlestickBaseTime ProductXMRUSD (Fin 100) 15 10 25 (Fin 0) (Fin 0) empty_db = (Ok 1, created_db)"
proof -
  have w: "bucket_window candlestickBaseTime" "valid_tick (sint (15 :: u64))"
    by (simp_all add: bucket_window_def valid_tick_def)
  show ?thesis
    by (simp add: created_db_def create_ema_def bind_act_def result_act_def known_product_def ProductToMetadata_def first_tick_Ok[OF w]
        store_strategy_def SetStrategy_def rsi_yaml_def wrap_act_def db_create_def CreateTradingStrategy_def statement_def empty_db_def Let_def)
qed

lemma created_strategies_are_sound_witness:
  "stored_ok created_db \<and> map tm_product (db_strategies created_db) = [ProductXMRUSD]"
  using created_strategies_are_sound[OF disjI1[OF create_ema_run]]
  by (auto simp: empty_db_def stored_ok_def bucket_window_def valid_tick_def)

section \<open>Which exchange is used\<close>

definition runner_exchanges :: "runner \<Rightarrow> exchange_choice set" where
  "runner_exchanges r = snd ` set (rn_bots r) \<union> snd ` set (rn_realtime r) \<union> (fst \<circ> snd) ` set (rn_historical r) \<union>
     (\<lambda>md. realtime_exchange r md) ` ran ProductToMetadata"

lemma runner_exchanges_ran: "runner_exchanges (createRunner b) = (if b then {FakeGDAX, FakeKraken} else {GDAX, Kraken})"
proof -
  have "metadata ExchangeKraken CurrencyXMR \<in> ran ProductToMetadata" "metadata ExchangeGDAX CurrencyBTC \<in> ran ProductToMetadata"
    by (rule ranI[of _ ProductXMRUSD], simp add: ProductToMetadata_def, rule ranI[of _ ProductBTCUSD], simp add: ProductToMetadata_def)
  then show ?thesis
    by (force simp: runner_exchanges_def createRunner_def realtime_exchange_def metadata_def Let_def)
qed

text \<open>A strategy can be created for any product, a bot only runs for three.\<close>

lemma kraken_products_have_no_bot:
  assumes "ProductToMetadata p = Some md" and "pm_exchange md = ExchangeKraken"
  shows "p \<notin> fst ` set (rn_bots (createRunner b))"
  using assms by (auto simp: createRunner_def ProductToMetadata_def metadata_def Let_def split: if_splits)

lemma retrying_panics:
  "fst (processBatch sv p s e w) = Panic m \<Longrightarrow> 0 < n \<Longrightarrow> fst (process_retrying sv p n s e w) = Panic m"
  by (cases n) (auto split: prod.splits go_result.splits)

text \<open>C35. With the fake exchange nothing that is started trades on a real one, and without it everything does; but the
  historical import, which has no use for an exchange's orders, gets the fake one too, and panics at
  its first batch: the client behind it is nil.\<close>

theorem fake_exchange_cannot_import:
  assumes "map_of (rn_historical (createRunner True)) p \<noteq> None" and "parse startTime = Ok s" and "parse endTime = Ok e" and "s \<le> e"
  shows "runner_exchanges (createRunner True) = {FakeGDAX, FakeKraken} \<and> runner_exchanges (createRunner False) = {GDAX, Kraken} \<and>
    fst (historical_import parse (import_services_of g up) (createRunner True) p startTime endTime w) =
      Panic ''invalid memory address or nil pointer dereference''"
proof -
  have p: "map_of (rn_historical (createRunner True)) p = Some (FakeGDAX, 6)"
    using assms(1) by (auto simp: createRunner_def split: if_splits)
  have "\<not> fle (Fin 200) (fdiv (duration_seconds (time_sub s (s + 9000 * second))) (float_of_int 60))"
    by (rule few_intervals) (simp_all add: second_def)
  moreover have "s + batch_step = s + 9000 * second"
    by (simp add: importerBatchSize_def minute_def second_def)
  ultimately have "fst (gdax_GetCandlesticks nil_client p s (s + batch_step) gdaxCandlestickGranularitySeconds w) =
      Panic ''invalid memory address or nil pointer dereference''"
    by (simp add: gdax_GetCandlesticks_def nil_client_def bind_act_def wrap_act_def gdaxCandlestickGranularitySeconds_def Let_def)
  then have "fst (processBatch (import_services_of g up FakeGDAX) p s (s + batch_step) w) = Panic ''invalid memory address or nil pointer dereference''"
    by (auto simp: processBatch_def bind_act_def wrap_act_def import_services_of_def split: prod.splits)
  then have "fst (process_retrying (import_services_of g up FakeGDAX) p importerMaxRetries s (s + batch_step) w) =
      Panic ''invalid memory address or nil pointer dereference''"
    by (rule retrying_panics) (simp add: importerMaxRetries_def)
  then have "fst (Import (import_services_of g up FakeGDAX) p 6 s e w) = Panic ''invalid memory address or nil pointer dereference''"
    using assms(4) by (subst Import_def, subst batches.simps) (auto simp: time_add_def bind_act_def split: prod.splits)
  then show ?thesis
    using assms p by (simp add: runner_exchanges_ran historical_import_def bind_act_def result_act_def)
qed

lemma fake_exchange_cannot_import_witness:
  "fst (historical_import (\<lambda>t. Ok 0) (import_services_of (logged (\<lambda>_ _. Err ErrNotExist) (\<lambda>_ _. Err ErrNotExist)) (\<lambda>_ w. (Ok (), w)))
     (createRunner True) ProductBTCUSD ''a'' ''b'' []) = Panic ''invalid memory address or nil pointer dereference''"
proof -
  have p: "map_of (rn_historical (createRunner True)) ProductBTCUSD \<noteq> None"
    by (simp add: createRunner_def Let_def)
  show ?thesis
    by (rule fake_exchange_cannot_import[OF p refl refl order_refl, THEN conjunct2, THEN conjunct2])
qed

section \<open>Empty backtests\<close>

text \<open>A backtest that has no tick to trade in is reported, and then panics on its table.\<close>

lemma empty_backtest_panics:
  assumes "known_product p = Ok md" and "attach_strategy y (SS1 strategy) (new_model p md (Fin 100) granularity []) = Ok model"
    and "run_backtest y env parse source startTime endTime model = Ok (rep, [])"
  shows "backtest_s1 y env parse rfc3339 source startTime endTime p granularity strategy = Panic ''index out of range''"
  using assms by (simp add: backtest_s1_def resultsCSV_def)

end
