(* ===== verification/Import_Workers.thy ===== *)
theory Import_Workers
  imports Importers
begin

text \<open>
  \<open>Import\<close> of \<open>historical_importer.go\<close> as it runs: a producer that hands batches over an unbuffered channel, and
  workers that fetch, store, sleep and retry, in any interleaving. A step ends where the exchange,
  the database or the clock is called; the world is what these see.
\<close>

text \<open>
  A worker waits for a message, is about to ask the exchange for a batch, has candlesticks of one
  left to store, sleeps after a failed try, or has left its loop; the number is that of the tries that failed.
\<close>

datatype import_task =
    Taking
  | Asking time time nat
  | Storing time time nat "candlestick list"
  | Sleeping time time nat
  | Stopped

text \<open>The loop variable and the end of the producer, the channel, the workers, the batches whose loss was logged.\<close>

record 'w importing =
  ir_next :: time
  ir_end :: time
  ir_closed :: bool
  ir_workers :: "import_task list"
  ir_log :: "(time \<times> time) list"
  ir_world :: 'w

definition Import_start :: "int \<Rightarrow> time \<Rightarrow> time \<Rightarrow> 'w \<Rightarrow> 'w importing" where
  "Import_start concurrency start end w = \<lparr>ir_next = start, ir_end = end, ir_closed = False,
     ir_workers = replicate (nat concurrency) Taking, ir_log = [], ir_world = w\<rparr>"

definition in_period :: "'w importing \<Rightarrow> bool" where
  "in_period s \<longleftrightarrow> ir_next s < ir_end s \<or> ir_next s = ir_end s"

text \<open>One worker on its own: what it is to do next, and whether it logs the loss of its batch.\<close>

inductive worker_step :: "'w import_services \<Rightarrow> product \<Rightarrow> import_task \<Rightarrow> 'w \<Rightarrow> (time \<times> time) list \<Rightarrow> import_task \<Rightarrow> 'w \<Rightarrow> bool"
  for sv p where
  give_up: "importerMaxRetries \<le> retries \<Longrightarrow>
    worker_step sv p (Asking s e retries) w [(s, e)] Taking w"
| ask: "retries < importerMaxRetries \<Longrightarrow>
    is_candlesticks sv p s e gdaxCandlestickGranularitySeconds w = (Ok cs, w1) \<Longrightarrow>
    worker_step sv p (Asking s e retries) w [] (Storing s e retries cs) w1"
| ask_fails: "retries < importerMaxRetries \<Longrightarrow>
    is_candlesticks sv p s e gdaxCandlestickGranularitySeconds w = (Err err, w1) \<Longrightarrow>
    worker_step sv p (Asking s e retries) w [] (Sleeping s e retries) w1"
| store: "is_upsert sv c w = (Ok u, w1) \<Longrightarrow>
    worker_step sv p (Storing s e retries (c # cs)) w [] (Storing s e retries cs) w1"
| store_fails: "is_upsert sv c w = (Err err, w1) \<Longrightarrow>
    worker_step sv p (Storing s e retries (c # cs)) w [] (Sleeping s e retries) w1"
| stored: "worker_step sv p (Storing s e retries []) w [] Taking w"
| wake: "worker_step sv p (Sleeping s e retries) w [] (Asking s e (Suc retries)) (is_sleep sv (wrap64 (second * 2 ^ retries)) w)"

text \<open>
  The import: a batch is handed over when a worker takes it, the channel is closed after the last one,
  then the workers leave.
\<close>

inductive import_step :: "'w import_services \<Rightarrow> product \<Rightarrow> 'w importing \<Rightarrow> 'w importing \<Rightarrow> bool" for sv p where
  hand: "in_period s \<Longrightarrow> j < length (ir_workers s) \<Longrightarrow> ir_workers s ! j = Taking \<Longrightarrow>
    import_step sv p s (s\<lparr>ir_next := time_add (ir_next s) (importerBatchSize * minute),
      ir_workers := (ir_workers s)[j := Asking (ir_next s) (time_add (ir_next s) (importerBatchSize * minute)) 0]\<rparr>)"
| close: "\<not> in_period s \<Longrightarrow> \<not> ir_closed s \<Longrightarrow> import_step sv p s (s\<lparr>ir_closed := True\<rparr>)"
| leave: "ir_closed s \<Longrightarrow> j < length (ir_workers s) \<Longrightarrow> ir_workers s ! j = Taking \<Longrightarrow>
    import_step sv p s (s\<lparr>ir_workers := (ir_workers s)[j := Stopped]\<rparr>)"
| work: "j < length (ir_workers s) \<Longrightarrow> worker_step sv p (ir_workers s ! j) (ir_world s) lost t w \<Longrightarrow>
    import_step sv p s (s\<lparr>ir_workers := (ir_workers s)[j := t], ir_log := ir_log s @ lost, ir_world := w\<rparr>)"

inductive import_run :: "'w import_services \<Rightarrow> product \<Rightarrow> 'w importing \<Rightarrow> 'w importing \<Rightarrow> bool" for sv p s where
  nothing: "import_run sv p s s"
| one_more: "import_run sv p s t \<Longrightarrow> import_step sv p t u \<Longrightarrow> import_run sv p s u"

text \<open>\<open>wg.Wait\<close> returns.\<close>

definition Import_returned :: "'w importing \<Rightarrow> bool" where
  "Import_returned s \<longleftrightarrow> ir_closed s \<and> list_all (\<lambda>t. t = Stopped) (ir_workers s)"

end
