(* ===== verification/Import_Worker_Specs.thy ===== *)
theory Import_Worker_Specs
  imports Import_Workers Importer_Specs
begin

text \<open>
  The workers of a historical import always come to an end, whatever fails, and what they leave in the
  database is what one worker after the other would have left: the interleaving does not show.
\<close>

inductive_cases worker_stepE: "worker_step sv p t w lost t1 w1"
inductive_simps worker_step_idle: "worker_step sv p Taking w lost t1 w1" "worker_step sv p Stopped w lost t1 w1"

section \<open>Termination\<close>

text \<open>What is left of a worker's way back to the channel: phases first, then candlesticks of the phase.\<close>

fun task_rank :: "import_task \<Rightarrow> nat" where
  "task_rank Taking = 1"
| "task_rank (Asking s e r) = 4 * (importerMaxRetries - r) + 5"
| "task_rank (Storing s e r cs) = 4 * (importerMaxRetries - r) + 4"
| "task_rank (Sleeping s e r) = 4 * (importerMaxRetries - r) + 3"
| "task_rank Stopped = 0"

fun task_left :: "import_task \<Rightarrow> nat" where
  "task_left (Storing s e r cs) = length cs"
| "task_left _ = 0"

fun task_ok :: "import_task \<Rightarrow> bool" where
  "task_ok (Asking s e r) = (r \<le> importerMaxRetries)"
| "task_ok (Storing s e r cs) = (r < importerMaxRetries)"
| "task_ok (Sleeping s e r) = (r < importerMaxRetries)"
| "task_ok _ = True"

lemma worker_step_ok: "worker_step sv p t w lost t1 w1 \<Longrightarrow> task_ok t \<Longrightarrow> task_ok t1"
  by (induction rule: worker_step.induct) simp_all

lemma worker_step_down:
  "worker_step sv p t w lost t1 w1 \<Longrightarrow> task_ok t \<Longrightarrow>
    task_rank t1 < task_rank t \<or> task_rank t1 = task_rank t \<and> task_left t1 < task_left t"
  by (induction rule: worker_step.induct) auto

definition batches_left :: "'w importing \<Rightarrow> nat" where
  "batches_left s = length (batches (ir_next s) (ir_end s))"

definition import_rank :: "'w importing \<Rightarrow> nat \<times> nat" where
  "import_rank s = (batches_left s * (4 * importerMaxRetries + 5) + (if ir_closed s then 0 else 1) +
       sum_list (map task_rank (ir_workers s)), sum_list (map task_left (ir_workers s)))"

definition import_ok :: "'w importing \<Rightarrow> bool" where
  "import_ok s \<longleftrightarrow> list_all task_ok (ir_workers s)"

lemma sum_list_update_nat: "j < length xs \<Longrightarrow> sum_list (map f (xs[j := x])) + f (xs ! j) = sum_list (map f xs) + (f x :: nat)"
  by (induction xs arbitrary: j) (auto split: nat.split simp: nth_Cons')

lemma list_all_update: "list_all P xs \<Longrightarrow> P x \<Longrightarrow> list_all P (xs[j := x])"
  by (auto simp: list_all_iff dest!: set_update_subset_insert[THEN subsetD])

lemma batches_left_next:
  "in_period s \<Longrightarrow> batches_left s = Suc (length (batches (time_add (ir_next s) batch_step) (ir_end s)))"
  by (subst batches_left_def, subst batches.simps) (simp add: in_period_def)

lemma worker_ok: "import_ok s \<Longrightarrow> j < length (ir_workers s) \<Longrightarrow> task_ok (ir_workers s ! j)"
  by (simp add: import_ok_def list_all_length)

lemma import_step_ok: "import_step sv p s t \<Longrightarrow> import_ok s \<Longrightarrow> import_ok t"
proof (induction rule: import_step.induct)
  case (work j s lost t w)
  then show ?case
    using worker_step_ok[OF work(2) worker_ok[OF work(3,1)]] by (simp add: import_ok_def list_all_update)
qed (simp_all add: import_ok_def list_all_update)

lemma import_step_down:
  assumes "import_step sv p s t" and "import_ok s"
  shows "(import_rank t, import_rank s) \<in> less_than <*lex*> less_than"
  using assms(1)
proof cases
  case (hand j)
  then show ?thesis
    using sum_list_update_nat[OF hand(3), of task_rank "Asking (ir_next s) (time_add (ir_next s) batch_step) 0"]
    by (simp add: import_rank_def batches_left_next) (simp add: batches_left_def)
next
  case close
  then show ?thesis
    by (simp add: import_rank_def batches_left_def)
next
  case (leave j)
  then show ?thesis
    using sum_list_update_nat[OF leave(3), of task_rank Stopped] by (simp add: import_rank_def batches_left_def)
next
  case (work j lost u w)
  show ?thesis
    using worker_step_down[OF work(3) worker_ok[OF assms(2) work(2)]] work(1) sum_list_update_nat[OF work(2), of task_rank u] sum_list_update_nat[OF work(2), of task_left u]
    by (auto simp: import_rank_def batches_left_def)
qed

section \<open>Progress\<close>

text \<open>An exchange and a database that answer, with an error if they like, but do not panic or hang.\<close>

definition act_returns :: "('a, 'w) act \<Rightarrow> bool" where
  "act_returns a \<longleftrightarrow> (\<forall>w. case fst (a w) of Ok _ \<Rightarrow> True | Err _ \<Rightarrow> True | _ \<Rightarrow> False)"

definition responsive :: "'w import_services \<Rightarrow> bool" where
  "responsive sv \<longleftrightarrow> (\<forall>p s e k. act_returns (is_candlesticks sv p s e k)) \<and> (\<forall>c. act_returns (is_upsert sv c))"

lemma answersE:
  assumes "act_returns a"
  obtains x w1 where "a w = (Ok x, w1)" | x w1 where "a w = (Err x, w1)"
  using assms unfolding act_returns_def by (cases "a w"; cases "fst (a w)") (auto dest: spec[of _ w])

text \<open>A worker in a call that panics or hangs.\<close>

fun unanswered :: "'w import_services \<Rightarrow> product \<Rightarrow> import_task \<Rightarrow> 'w \<Rightarrow> bool" where
  "unanswered sv p (Asking s e r) w \<longleftrightarrow> r < importerMaxRetries \<and>
     (case fst (is_candlesticks sv p s e gdaxCandlestickGranularitySeconds w) of Ok _ \<Rightarrow> False | Err _ \<Rightarrow> False | _ \<Rightarrow> True)"
| "unanswered sv p (Storing s e r (c # cs)) w \<longleftrightarrow>
     (case fst (is_upsert sv c w) of Ok _ \<Rightarrow> False | Err _ \<Rightarrow> False | _ \<Rightarrow> True)"
| "unanswered sv p _ w \<longleftrightarrow> False"

lemma responsive_answers: "responsive sv \<Longrightarrow> \<not> unanswered sv p t w"
  by (cases "(sv, p, t, w)" rule: unanswered.cases)
    (auto simp: responsive_def act_returns_def split: go_result.splits)

lemma worker_progress: "t \<in> {Taking, Stopped} \<or> unanswered sv p t w \<or> (\<exists>lost t1 w1. worker_step sv p t w lost t1 w1)"
proof (cases t)
  case (Asking s e r)
  show ?thesis
  proof (cases "r < importerMaxRetries")
    case True
    obtain x w1 where x: "is_candlesticks sv p s e gdaxCandlestickGranularitySeconds w = (x, w1)"
      by fastforce
    show ?thesis
      by (cases x) (use Asking True x in \<open>auto intro: worker_step.ask worker_step.ask_fails\<close>)
  next
    case False
    then show ?thesis
      unfolding Asking using worker_step.give_up[of r] by (metis not_less)
  qed
next
  case (Storing s e r cs)
  show ?thesis
  proof (cases cs)
    case Nil
    then show ?thesis
      using Storing by (blast intro: worker_step.stored)
  next
    case (Cons c cs')
    obtain x w1 where x: "is_upsert sv c w = (x, w1)"
      by fastforce
    show ?thesis
      by (cases x) (use Storing Cons x in \<open>auto intro: worker_step.store worker_step.store_fails\<close>)
  qed
next
  case (Sleeping s e r)
  then show ?thesis
    by (blast intro: worker_step.wake)
qed simp_all

lemma import_progress:
  assumes "ir_workers s \<noteq> [] \<or> \<not> in_period s" and "ir_closed s \<or> Stopped \<notin> set (ir_workers s)"
    and "\<not> Import_returned s" and "\<forall>t \<in> set (ir_workers s). \<not> unanswered sv p t (ir_world s)"
  shows "\<exists>t. import_step sv p s t"
proof (cases "\<exists>j < length (ir_workers s). ir_workers s ! j \<notin> {Taking, Stopped}")
  case True
  then show ?thesis
    using worker_progress[of _ sv p "ir_world s"] assms(4) import_step.work by (metis nth_mem)
next
  case idle: False
  show ?thesis
  proof (cases "ir_closed s")
    case True
    then obtain j where "j < length (ir_workers s)" "ir_workers s ! j \<noteq> Stopped"
      using assms(3) by (auto simp: Import_returned_def list_all_length)
    then show ?thesis
      using True idle import_step.leave by blast
  next
    case open_channel: False
    show ?thesis
    proof (cases "in_period s")
      case True
      then have "0 < length (ir_workers s)"
        using assms(1) by simp
      moreover from this have "ir_workers s ! 0 = Taking"
        using idle assms(2) open_channel by (metis empty_iff insert_iff nth_mem)
      ultimately show ?thesis
        using True import_step.hand by blast
    qed (use open_channel import_step.close in blast)
  qed
qed

text \<open>The channel is closed before a worker leaves.\<close>

lemma import_step_open:
  "import_step sv p s t \<Longrightarrow> ir_closed s \<or> Stopped \<notin> set (ir_workers s) \<Longrightarrow> ir_closed t \<or> Stopped \<notin> set (ir_workers t)"
proof (induction rule: import_step.induct)
  case (work j s lost t w)
  have "ir_workers s ! j \<noteq> Stopped" "t \<noteq> Stopped"
    using work(2) by (auto elim: worker_stepE simp: worker_step_idle)
  then show ?case
    using work(3) by (auto dest!: set_update_subset_insert[THEN subsetD])
qed (auto dest!: set_update_subset_insert[THEN subsetD])

lemma import_step_frame:
  "import_step sv p s t \<Longrightarrow> length (ir_workers t) = length (ir_workers s) \<and> (ir_closed s \<longrightarrow> ir_closed t) \<and>
    (\<not> in_period s \<longrightarrow> \<not> in_period t) \<and> (ir_closed t \<longrightarrow> ir_closed s \<or> \<not> in_period s)"
  by (induction rule: import_step.induct) (simp_all add: in_period_def)

text \<open>What holds at the start of an import, if it has workers or nothing to do, and on all its ways.\<close>

definition import_inv :: "'w importing \<Rightarrow> bool" where
  "import_inv s \<longleftrightarrow> import_ok s \<and> (ir_workers s \<noteq> [] \<or> \<not> in_period s) \<and>
     (if ir_closed s then \<not> in_period s else Stopped \<notin> set (ir_workers s))"

lemma import_ok_start: "import_ok (Import_start concurrency start end w)"
  by (simp add: import_ok_def Import_start_def list_all_length)

lemma import_inv_starts:
  "0 < concurrency \<or> end < start \<Longrightarrow> import_inv (Import_start concurrency start end w)"
  by (auto simp: import_inv_def import_ok_start) (auto simp: Import_start_def in_period_def)

lemmas import_inv_start = import_inv_starts[OF disjI1]

lemma import_inv_step: "import_step sv p s t \<Longrightarrow> import_inv s \<Longrightarrow> import_inv t"
  using import_step_ok[of sv p s t] import_step_open[of sv p s t] import_step_frame[of sv p s t]
  by (auto simp: import_inv_def split: if_splits)

lemma import_inv_run: "import_run sv p s t \<Longrightarrow> import_inv s \<Longrightarrow> import_inv t"
  by (induction rule: import_run.induct) (auto dest: import_inv_step)

text \<open>Without workers nobody takes the first batch.\<close>

lemma no_workers_stuck:
  assumes "concurrency \<le> 0" and "start \<le> end"
  shows "\<not> import_step sv p (Import_start concurrency start end w) t"
proof
  assume "import_step sv p (Import_start concurrency start end w) t"
  then show False
    using assms by cases (auto simp: Import_start_def in_period_def)
qed

lemma no_workers_run:
  "import_run sv p s0 s \<Longrightarrow> s0 = Import_start concurrency start end w \<Longrightarrow> concurrency \<le> 0 \<Longrightarrow> start \<le> end \<Longrightarrow> s = s0"
  by (induction rule: import_run.induct) (auto dest: no_workers_stuck)

section \<open>What the workers leave behind\<close>

text \<open>
  An exchange with one answer for each period, and a database that runs its statements; which of the calls fail is
  any function of their number, which is the other half of the world.
\<close>

definition flaky_import :: "(nat \<Rightarrow> bool) \<Rightarrow> (time \<Rightarrow> time \<Rightarrow> candlestick list) \<Rightarrow> time \<Rightarrow> (nat \<times> db) import_services" where
  "flaky_import fails rates now = \<lparr>
     is_candlesticks = (\<lambda>p s e k (n, d). (if fails n then Err (Errorf ''timeout'') else Ok (rates s e), (Suc n, d))),
     is_upsert = (\<lambda>c (n, d). if fails n then (Err (Errorf ''timeout''), (Suc n, d))
       else (case UpsertCandlestick None now c d of (r, d1) \<Rightarrow> (r, (Suc n, d1)))),
     is_sleep = (\<lambda>_ w. w)\<rparr>"

lemma flaky_responsive: "responsive (flaky_import fails rates now)"
  unfolding responsive_def act_returns_def
  by (auto simp: flaky_import_def UpsertCandlestick_def statement_def)

text \<open>The batch a worker has in hand, and its candlesticks that are not stored.\<close>

fun task_batch :: "import_task \<Rightarrow> (time \<times> time) option" where
  "task_batch (Asking s e r) = Some (s, e)"
| "task_batch (Storing s e r cs) = Some (s, e)"
| "task_batch (Sleeping s e r) = Some (s, e)"
| "task_batch _ = None"

fun task_todo :: "(time \<Rightarrow> time \<Rightarrow> candlestick list) \<Rightarrow> import_task \<Rightarrow> candlestick set" where
  "task_todo rates (Storing s e r cs) = set cs"
| "task_todo rates t = (case task_batch t of Some (s, e) \<Rightarrow> set (rates s e) | None \<Rightarrow> {})"

definition task_sound :: "(time \<Rightarrow> time \<Rightarrow> candlestick list) \<Rightarrow> (time \<times> time) set \<Rightarrow> import_task \<Rightarrow> bool" where
  "task_sound rates all t \<longleftrightarrow> (case task_batch t of
     None \<Rightarrow> True | Some (s, e) \<Rightarrow> (s, e) \<in> all \<and> task_todo rates t \<subseteq> set (rates s e))"

text \<open>A worker answers for a batch: what is not in \<open>cs\<close> is in its hands.\<close>

definition task_covers :: "(time \<Rightarrow> time \<Rightarrow> candlestick list) \<Rightarrow> candlestick set \<Rightarrow> time \<times> time \<Rightarrow> import_task \<Rightarrow> bool" where
  "task_covers rates cs b t \<longleftrightarrow> task_batch t = Some b \<and> set (rates (fst b) (snd b)) \<subseteq> cs \<union> task_todo rates t"

definition accounted :: "(time \<Rightarrow> time \<Rightarrow> candlestick list) \<Rightarrow> candlestick set \<Rightarrow> (nat \<times> db) importing \<Rightarrow> time \<times> time \<Rightarrow> bool" where
  "accounted rates cs s b \<longleftrightarrow> b \<in> set (batches (ir_next s) (ir_end s)) \<or> b \<in> set (ir_log s) \<or>
     set (rates (fst b) (snd b)) \<subseteq> cs \<or> (\<exists>t \<in> set (ir_workers s). task_covers rates cs b t)"

lemma flaky_worker_step:
  assumes "worker_step (flaky_import fails rates now) p t w lost t1 w1" and "task_sound rates all t"
  shows "\<exists>new. snd w1 = db.put_all now new (snd w) \<and> set new \<subseteq> task_todo rates t \<and> task_sound rates all t1 \<and>
    (\<forall>cs b. task_covers rates cs b t \<longrightarrow>
       b \<in> set lost \<or> set (rates (fst b) (snd b)) \<subseteq> cs \<union> set new \<or> task_covers rates (cs \<union> set new) b t1)"
  using assms
proof (induction rule: worker_step.induct)
  case (store c w u w1 s e r cs)
  then have "snd w1 = upsert now c (snd w)"
    by (auto simp: flaky_import_def upsert_def split: prod.splits if_splits)
  then show ?case
    using store(2) by (intro exI[of _ "[c]"]) (auto simp: task_sound_def task_covers_def)
next
  case (store_fails c w err w1 s e r cs)
  then have "snd w1 = snd w"
    by (auto simp: flaky_import_def UpsertCandlestick_def statement_def split: prod.splits if_splits)
  then show ?case
    using store_fails(2) by (intro exI[of _ "[]"]) (auto simp: task_sound_def task_covers_def)
qed (rule exI[of _ "[]"], auto simp: task_sound_def task_covers_def flaky_import_def split: prod.splits if_splits)+

text \<open>With the candlesticks \<open>cs\<close> stored so far: they are the exchange's, and every batch is accounted for.\<close>

definition stored_inv :: "(time \<Rightarrow> time \<Rightarrow> candlestick list) \<Rightarrow> time \<Rightarrow> (time \<times> time) list \<Rightarrow> db \<Rightarrow>
    (nat \<times> db) importing \<Rightarrow> candlestick list \<Rightarrow> bool" where
  "stored_inv rates now all d s cs \<longleftrightarrow> snd (ir_world s) = db.put_all now cs d \<and> set cs \<subseteq> set (imported rates all) \<and>
    set (batches (ir_next s) (ir_end s)) \<subseteq> set all \<and> list_all (task_sound rates (set all)) (ir_workers s) \<and>
    (\<forall>b \<in> set all. accounted rates (set cs) s b)"

lemma set_imported: "set (imported rates all) = (\<Union>(s, e) \<in> set all. set (rates s e))"
  by (auto simp: imported_def)

lemma batches_next:
  "in_period s \<Longrightarrow> set (batches (ir_next s) (ir_end s)) =
    insert (ir_next s, time_add (ir_next s) batch_step) (set (batches (time_add (ir_next s) batch_step) (ir_end s)))"
  by (subst batches.simps) (simp add: in_period_def)

lemma nth_update_ex:
  assumes "t \<in> set ws" and "j < length ws"
  shows "t \<in> set (ws[j := u]) \<or> t = ws ! j"
  using assms by (metis in_set_conv_nth length_list_update nth_list_update_neq)

lemma task_covers_mono: "task_covers rates cs b t \<Longrightarrow> cs \<subseteq> cs1 \<Longrightarrow> task_covers rates cs1 b t"
  by (auto simp: task_covers_def)

text \<open>One worker changes: a batch stays accounted for unless it was that worker's or ahead.\<close>

lemma accounted_update:
  assumes "accounted rates cs s b" and "j < length (ir_workers s)" and "ir_workers t = (ir_workers s)[j := u]"
    and "cs \<subseteq> cs1" and "set (ir_log s) \<subseteq> set (ir_log t)"
    and "task_covers rates cs b (ir_workers s ! j) \<Longrightarrow> accounted rates cs1 t b"
    and "b \<in> set (batches (ir_next s) (ir_end s)) \<Longrightarrow> accounted rates cs1 t b"
  shows "accounted rates cs1 t b"
proof -
  consider "b \<in> set (batches (ir_next s) (ir_end s))" | "b \<in> set (ir_log s)" | "set (rates (fst b) (snd b)) \<subseteq> cs"
    | x where "x \<in> set (ir_workers s)" "task_covers rates cs b x"
    using assms(1) by (auto simp: accounted_def)
  then show ?thesis
  proof cases
    case 4
    then have "x \<in> set (ir_workers t) \<or> task_covers rates cs b (ir_workers s ! j)"
      using nth_update_ex[OF 4(1) assms(2), of u] assms(3) by auto
    then show ?thesis
      using task_covers_mono[OF 4(2) assms(4)] assms(6) by (auto simp only: accounted_def)
  qed (use assms in \<open>auto simp: accounted_def\<close>)
qed

lemma not_covers_Taking [simp]: "\<not> task_covers rates cs b Taking"
  by (simp add: task_covers_def)

lemma stored_inv_work:
  assumes inv: "stored_inv rates now all d s cs" and j: "j < length (ir_workers s)"
    and step: "worker_step (flaky_import fails rates now) p (ir_workers s ! j) (ir_world s) lost u w"
    and t: "t = s\<lparr>ir_workers := (ir_workers s)[j := u], ir_log := ir_log s @ lost, ir_world := w\<rparr>"
  shows "\<exists>cs1. stored_inv rates now all d t cs1"
proof -
  have sound: "task_sound rates (set all) (ir_workers s ! j)"
    using inv j by (simp add: stored_inv_def list_all_length)
  from flaky_worker_step[OF step this] obtain new where new: "snd w = db.put_all now new (snd (ir_world s))"
    "set new \<subseteq> task_todo rates (ir_workers s ! j)" "task_sound rates (set all) u"
    "\<And>cs b. task_covers rates cs b (ir_workers s ! j) \<Longrightarrow>
       b \<in> set lost \<or> set (rates (fst b) (snd b)) \<subseteq> cs \<union> set new \<or> task_covers rates (cs \<union> set new) b u"
    by blast
  have u: "u \<in> set (ir_workers t)"
    using j by (simp add: t set_update_memI)
  have "accounted rates (set (cs @ new)) t b" if "b \<in> set all" for b
  proof (rule accounted_update[OF _ j])
    show "accounted rates (set cs) s b"
      using inv that by (simp add: stored_inv_def)
    show "accounted rates (set (cs @ new)) t b" if "task_covers rates (set cs) b (ir_workers s ! j)"
      using new(4)[OF that] u by (auto simp: accounted_def t)
    show "accounted rates (set (cs @ new)) t b" if "b \<in> set (batches (ir_next s) (ir_end s))"
      using that by (simp add: accounted_def t)
  qed (auto simp: t)
  moreover have "task_todo rates (ir_workers s ! j) \<subseteq> set (imported rates all)"
    using sound by (cases "ir_workers s ! j") (auto simp: task_sound_def set_imported)
  ultimately show ?thesis
    using inv new(1,2,3) unfolding stored_inv_def
    by (intro exI[of _ "cs @ new"]) (simp add: list_all_update db_put_all_append t)
qed

lemma stored_inv_step:
  assumes "import_step (flaky_import fails rates now) p s t" and inv: "stored_inv rates now all d s cs"
  shows "\<exists>cs1. stored_inv rates now all d t cs1"
  using assms(1)
proof cases
  case (hand j)
  let ?b = "(ir_next s, time_add (ir_next s) batch_step)"
  have handed: "accounted rates (set cs) t ?b"
    using hand(1,3)
    by (auto simp: accounted_def task_covers_def intro!: disjI2 bexI[of _ "Asking (fst ?b) (snd ?b) 0"] set_update_memI)
  have "accounted rates (set cs) t b" if "b \<in> set all" for b
  proof (rule accounted_update[OF _ hand(3)])
    show "accounted rates (set cs) s b"
      using inv that by (simp add: stored_inv_def)
    show "accounted rates (set cs) t b" if "b \<in> set (batches (ir_next s) (ir_end s))"
      using that handed hand(1) by (auto simp: batches_next[OF hand(2)]) (simp add: accounted_def)
  qed (use hand in auto)
  moreover have "task_sound rates (set all) (Asking (fst ?b) (snd ?b) 0)" "set (batches (ir_next t) (ir_end t)) \<subseteq> set all"
    using inv batches_next[OF hand(2)] hand(1) by (auto simp: stored_inv_def task_sound_def)
  ultimately show ?thesis
    using inv hand(1) by (intro exI[of _ cs]) (auto simp: stored_inv_def list_all_update)
next
  case close
  then show ?thesis
    using inv by (intro exI[of _ cs]) (simp add: stored_inv_def accounted_def)
next
  case (leave j)
  have "accounted rates (set cs) t b" if "b \<in> set all" for b
  proof (rule accounted_update[OF _ leave(3)])
    show "accounted rates (set cs) s b"
      using inv that by (simp add: stored_inv_def)
    show "accounted rates (set cs) t b" if "b \<in> set (batches (ir_next s) (ir_end s))"
      using that leave(1) by (simp add: accounted_def)
  qed (use leave in auto)
  then show ?thesis
    using inv leave(1) by (intro exI[of _ cs]) (auto simp: stored_inv_def list_all_update task_sound_def)
next
  case (work j lost u w)
  then show ?thesis
    by (intro stored_inv_work[OF inv])
qed

lemma stored_inv_run:
  assumes "import_run (flaky_import fails rates now) p (Import_start concurrency start end (n, d)) s"
  shows "\<exists>cs. stored_inv rates now (batches start end) d s cs"
  using assms
proof (induction rule: import_run.induct)
  case nothing
  then show ?case
    by (intro exI[of _ "[]"]) (simp add: stored_inv_def Import_start_def accounted_def task_sound_def list_all_length)
qed (use stored_inv_step in blast)

text \<open>Which candlesticks are stored does not depend on their order.\<close>

lemma agreeing_subset: "agreeing cs \<Longrightarrow> set cs1 \<subseteq> set cs \<Longrightarrow> agreeing cs1"
  unfolding agreeing_def by blast

lemma store_same:
  assumes "agreeing cs" and "set cs1 = set cs"
  shows "foldl store_candle b cs1 = foldl store_candle b cs"
proof (rule ext)
  fix k
  have 1: "agreeing cs1"
    using assms agreeing_subset by blast
  show "foldl store_candle b cs1 k = foldl store_candle b cs k"
  proof (cases "List.find (\<lambda>c. candle_key c = k) cs")
    case None
    then have "List.find (\<lambda>c. candle_key c = k) cs1 = None"
      using assms(2) by (simp add: find_None_iff)
    then show ?thesis
      using None by (simp add: store_all_at[OF 1] store_all_at[OF assms(1)])
  next
    case (Some c)
    then obtain c1 where c1: "List.find (\<lambda>c. candle_key c = k) cs1 = Some c1"
      using assms(2) by (cases "List.find (\<lambda>c. candle_key c = k) cs1") (auto simp: find_None_iff find_Some_iff)
    have "c1 \<in> set cs" "c \<in> set cs" "candle_key c1 = candle_key c"
      using Some c1 assms(2) by (auto simp: find_Some_iff)
    then have "row_data c1 = row_data c"
      using assms(1) unfolding agreeing_def by blast
    then show ?thesis
      using Some c1 by (simp add: store_all_at[OF 1] store_all_at[OF assms(1)] split: option.split)
  qed
qed

lemma returned_accounts:
  assumes "Import_returned s" and "import_inv s" and "stored_inv rates now all d s cs" and "b \<in> set all - set (ir_log s)"
  shows "set (rates (fst b) (snd b)) \<subseteq> set cs"
proof -
  have "batches (ir_next s) (ir_end s) = []"
    using assms(1,2) by (subst batches.simps) (auto simp: in_period_def import_inv_def Import_returned_def)
  moreover have "task_covers rates (set cs) b t \<Longrightarrow> t \<in> set (ir_workers s) \<Longrightarrow> False" for t
    using assms(1) by (auto simp: Import_returned_def list_all_iff task_covers_def)
  ultimately show ?thesis
    using assms(3,4) unfolding stored_inv_def accounted_def by auto
qed

text \<open>Every import has a run that returns.\<close>

lemma import_can_return:
  assumes "responsive sv" and "import_run sv p s0 s" and "import_inv s"
  shows "\<exists>t. import_run sv p s0 t \<and> Import_returned t"
  using assms(2,3)
proof (induction "import_rank s" arbitrary: s rule: wf_induct_rule[OF wf_lex_prod[OF wf_less_than wf_less_than]])
  case 1
  show ?case
  proof (cases "Import_returned s")
    case False
    then obtain t where t: "import_step sv p s t"
      using import_progress[of s sv p] responsive_answers[OF assms(1)] 1(3) unfolding import_inv_def by metis
    then have "(import_rank t, import_rank s) \<in> less_than <*lex*> less_than"
      using import_step_down[OF t] 1(3) by (simp add: import_inv_def)
    then show ?thesis
      using 1(1) one_more[OF 1(2) t] import_inv_step[OF t 1(3)] by blast
  qed (use 1 in blast)
qed

lemma import_run_trans: "import_run sv p t u \<Longrightarrow> import_run sv p s t \<Longrightarrow> import_run sv p s u"
  by (induction rule: import_run.induct) (auto intro: one_more)

section \<open>Properties\<close>

text \<open>C28. When an import returns. It never runs for ever, whatever the exchange and the database answer:
  there is no endless run, however often they fail. Every state it comes into is one in which it has
  returned, or can go on, or a worker is in a call that has panicked or does not return - no worker
  waits for a batch that never comes, nor the producer for a worker - with one exception: with no
  worker and a period that is not empty, it hangs at once. Where every call is answered, with an
  error or without, and there is a worker, the import can return from every state it comes into.\<close>

theorem import_returns:
  shows "\<not> (\<exists>f. f 0 = Import_start concurrency start end w \<and> (\<forall>n. import_step sv p (f n) (f (Suc n)))) \<and>
    (\<forall>s. import_run sv p (Import_start concurrency start end w) s \<longrightarrow>
      (if concurrency \<le> 0 \<and> start \<le> end
       then s = Import_start concurrency start end w \<and> \<not> Import_returned s \<and> (\<nexists>t. import_step sv p s t)
       else (Import_returned s \<or> (\<exists>t. import_step sv p s t) \<or> (\<exists>t \<in> set (ir_workers s). unanswered sv p t (ir_world s))) \<and>
         (responsive sv \<longrightarrow> (\<exists>t. import_run sv p (Import_start concurrency start end w) t \<and> import_run sv p s t \<and> Import_returned t))))"
proof (intro conjI notI allI impI)
  assume "\<exists>f. f 0 = Import_start concurrency start end w \<and> (\<forall>n. import_step sv p (f n) (f (Suc n)))"
  then obtain f where f: "f 0 = Import_start concurrency start end w" "\<And>n. import_step sv p (f n) (f (Suc n))"
    by blast
  have "import_ok (f n)" for n
  proof (induction n)
    case (Suc n)
    then show ?case
      by (rule import_step_ok[OF f(2)])
  qed (simp add: f(1) import_ok_start)
  then have "(import_rank (f (Suc n)), import_rank (f n)) \<in> less_than <*lex*> less_than" for n
    by (rule import_step_down[OF f(2)])
  moreover have "wf (less_than <*lex*> less_than)"
    by auto
  ultimately show False
    using wf_no_infinite_down_chainE[where f = "\<lambda>n. import_rank (f n)"] by blast
next
  fix s
  assume run: "import_run sv p (Import_start concurrency start end w) s"
  show "if concurrency \<le> 0 \<and> start \<le> end
       then s = Import_start concurrency start end w \<and> \<not> Import_returned s \<and> (\<nexists>t. import_step sv p s t)
       else (Import_returned s \<or> (\<exists>t. import_step sv p s t) \<or> (\<exists>t \<in> set (ir_workers s). unanswered sv p t (ir_world s))) \<and>
         (responsive sv \<longrightarrow> (\<exists>t. import_run sv p (Import_start concurrency start end w) t \<and> import_run sv p s t \<and> Import_returned t))"
  proof (cases "concurrency \<le> 0 \<and> start \<le> end")
    case True
    then have "s = Import_start concurrency start end w"
      using no_workers_run[OF run refl] by blast
    moreover have "\<not> Import_returned (Import_start concurrency start end w)"
      by (simp add: Import_returned_def Import_start_def)
    ultimately show ?thesis
      unfolding if_P[OF True] using True no_workers_stuck[of concurrency start "end" sv p w] by simp
  next
    case False
    then have inv: "import_inv s"
      by (intro import_inv_run[OF run import_inv_starts]) auto
    have "Import_returned s \<or> (\<exists>t. import_step sv p s t) \<or> (\<exists>t \<in> set (ir_workers s). unanswered sv p t (ir_world s))"
      using import_progress[of s sv p] inv unfolding import_inv_def by metis
    moreover have "\<exists>t. import_run sv p (Import_start concurrency start end w) t \<and> import_run sv p s t \<and> Import_returned t"
      if "responsive sv"
      using import_can_return[OF that import_run.nothing inv] import_run_trans[OF _ run] by blast
    ultimately show ?thesis
      unfolding if_not_P[OF False] by blast
  qed
qed

lemma import_returns_witness:
  "(\<exists>t. import_run (flaky_import even (\<lambda>s e. [minute_candle 0 5]) 7) ProductBTCUSD (Import_start 2 0 minute (0, empty_db)) t \<and> Import_returned t) \<and>
   (\<nexists>t. import_step (flaky_import even (\<lambda>s e. [minute_candle 0 5]) 7) ProductBTCUSD (Import_start 0 0 minute (0, empty_db)) t)"
proof (rule conjI)
  let ?sv = "flaky_import even (\<lambda>s e. [minute_candle 0 5]) 7"
  show "\<exists>t. import_run ?sv ProductBTCUSD (Import_start 2 0 minute (0, empty_db)) t \<and> Import_returned t"
    using import_returns[of 2 0 minute "(0, empty_db)" ?sv ProductBTCUSD, THEN conjunct2, rule_format, OF import_run.nothing]
      flaky_responsive[of even "\<lambda>s e. [minute_candle 0 5]" 7] by auto
  show "\<nexists>t. import_step ?sv ProductBTCUSD (Import_start 0 0 minute (0, empty_db)) t"
    using import_returns[of 0 0 minute "(0, empty_db)" ?sv ProductBTCUSD, THEN conjunct2, rule_format, OF import_run.nothing]
    by (simp add: minute_def second_def split: if_splits)
qed

text \<open>C27. The interleaving of the workers does not show. Whichever calls fail, when an import returns the table
  has had candlesticks of the exchange stored in it and nothing else, among them every one of a batch whose loss
  was not logged; and when none was lost, the table is, by starting time and product, what a single
  worker that meets no failure leaves.\<close>

theorem workers_agree:
  assumes "0 < concurrency" and "unique_rows d" and "agreeing (imported rates (batches start end))"
    and "import_run (flaky_import fails rates now) p (Import_start concurrency start end (n, d)) s" and "Import_returned s"
  shows "(\<exists>cs. book (snd (ir_world s)) = foldl store_candle (book d) cs \<and> set cs \<subseteq> set (imported rates (batches start end)) \<and>
      (\<forall>b \<in> set (batches start end) - set (ir_log s). set (rates (fst b) (snd b)) \<subseteq> set cs)) \<and>
    (ir_log s = [] \<longrightarrow> book (snd (ir_world s)) = book (snd (Import (db_import rates now) p 1 start end d)))"
proof -
  let ?all = "batches start end"
  obtain cs where cs: "stored_inv rates now ?all d s cs"
    using stored_inv_run[OF assms(4)] by blast
  have "import_inv s"
    by (rule import_inv_run[OF assms(4) import_inv_start[OF assms(1)]])
  then have got: "\<forall>b \<in> set ?all - set (ir_log s). set (rates (fst b) (snd b)) \<subseteq> set cs"
    using returned_accounts[OF assms(5) _ cs] by blast
  have sub: "set cs \<subseteq> set (imported rates ?all)" and b: "book (snd (ir_world s)) = foldl store_candle (book d) cs"
    using cs db.put_all_holds[OF assms(2)] by (simp_all add: stored_inv_def)
  moreover have "book (snd (ir_world s)) = book (snd (Import (db_import rates now) p 1 start end d))" if "ir_log s = []"
  proof -
    have "set (imported rates ?all) \<subseteq> set cs"
      using got that unfolding set_imported by fastforce
    then show ?thesis
      using sub b store_same[OF assms(3), of cs "book d"] db.put_all_holds[OF assms(2)] by (simp add: Import_def db_worker)
  qed
  ultimately show ?thesis
    using got by blast
qed

lemma workers_agree_witness:
  "\<exists>s. import_run (flaky_import (\<lambda>n. n < 3) (\<lambda>s e. [minute_candle 0 5]) 7) ProductBTCUSD (Import_start 2 0 minute (0, empty_db)) s \<and>
     (ir_log s = [] \<longrightarrow> book (snd (ir_world s)) = book (snd (Import (db_import (\<lambda>s e. [minute_candle 0 5]) 7) ProductBTCUSD 1 0 minute empty_db)))"
proof -
  obtain s where s: "import_run (flaky_import (\<lambda>n. n < 3) (\<lambda>s e. [minute_candle 0 5]) 7) ProductBTCUSD (Import_start 2 0 minute (0, empty_db)) s"
    "Import_returned s"
    using import_can_return[OF flaky_responsive import_run.nothing import_inv_start] by force
  moreover have "unique_rows empty_db" "agreeing (imported (\<lambda>s e. [minute_candle 0 5]) (batches 0 minute))"
    by (auto simp: unique_rows_def empty_db_def agreeing_def imported_def)
  ultimately show ?thesis
    using workers_agree[OF _ _ _ s] by auto
qed

end
