(* ===== verification/Trades_To_Ticks.thy ===== *)
theory Trades_To_Ticks
  imports Importer_Specs
begin

text \<open>
  The way of a trade through the program: the realtime importer puts it into a candlestick of its
  minute, the flusher stores the candlestick, a strategy's query finds it and reprojects it to its tick.
  What the strategy sees are the trades of the tick, whatever the interleaving and the failures on the way.
\<close>

section \<open>What is stored\<close>

text \<open>Everything stored is the candlestick of a bucket that no later message belongs to, and has a volume.\<close>

definition log_inv :: "product \<Rightarrow> exchange_message list \<Rightarrow> exchange_message list \<Rightarrow> candlestick list \<Rightarrow> bool" where
  "log_inv p ms fed w \<longleftrightarrow> (\<forall>c \<in> set w. \<exists>k \<in> message_key ` set fed.
     k < message_key (last ms) \<and> c = Build (bucket_builder p ms fed k) \<and> fpos (cs_volume c))"

abbreviation race_fed :: "'w race \<Rightarrow> exchange_message list \<Rightarrow> exchange_message list" where
  "race_fed s ms \<equiv> fed_messages (rc_reader s) ms"

lemma log_inv_ensure:
  assumes "log_inv p ms ms w" and "\<forall>x \<in> set ms. message_key x \<le> message_key m"
  shows "log_inv p (ms @ [m]) ms w"
  unfolding log_inv_def
proof
  fix c
  assume "c \<in> set w"
  then obtain k where k: "k \<in> message_key ` set ms" "k < message_key (last ms)" "c = Build (bucket_builder p ms ms k)"
    and "fpos (cs_volume c)"
    using assms(1) unfolding log_inv_def by blast
  moreover from this have "k < message_key m"
    using assms(2) by (metis empty_iff image_empty last_in_set less_le_trans list.set(1))
  ultimately show "\<exists>k \<in> message_key ` set ms. k < message_key (last (ms @ [m])) \<and>
      c = Build (bucket_builder p (ms @ [m]) ms k) \<and> fpos (cs_volume c)"
    by (intro bexI[of _ k]) (simp_all add: bucket_builder_later)
qed

lemma log_inv_feed:
  assumes "log_inv p (old @ [m]) old w"
  shows "log_inv p (old @ [m]) (old @ [m]) w"
  using assms unfolding log_inv_def by (fastforce simp: bucket_builder_feed)

lemma log_inv_store:
  assumes "race_inv p ms s" and "log_inv p ms (race_fed s ms) (snd (rc_world s))"
    and "rc_flusher s = Built k c ks" and "store_built (logged_upsert fails) c (rc_world s) = (Ok stored, w)"
  shows "log_inv p ms (race_fed s ms) (snd w)"
proof -
  have c: "c = Build (bucket_builder p ms (race_fed s ms) k)" and "map_of (ri_candles (rc_importer s)) k \<noteq> None"
    and k: "ms \<noteq> []" "k < message_key (last ms)"
    using assms(1,3) by (simp_all add: race_inv_def Let_def held_ok_def)
  then have "k \<in> message_key ` set ms"
    using assms(1) by (auto simp: race_inv_def Let_def builders_ok_def simp del: map_of_eq_Some_iff)
  then have "k \<in> message_key ` set (race_fed s ms)"
    using k by (cases ms rule: rev_cases) (auto simp: fed_messages_def split: reader.splits)
  then show ?thesis
    using assms(2,4) c k(2) by (auto simp: log_inv_def store_built_def logged_upsert_def split: if_splits)
qed

lemma log_inv_step:
  assumes "race_inv p ms s" and "log_inv p ms (race_fed s ms) (snd (rc_world s))" and "race_step (logged_upsert fails) s None t"
  shows "log_inv p ms (race_fed t ms) (snd (rc_world t))"
  using assms(3)
proof cases
  case (feed bucket m i)
  then have "ms = butlast ms @ [m]" "m = last ms"
    using assms(1) by (auto simp: race_inv_def Let_def)
  then show ?thesis
    using assms(2) feed log_inv_feed[of p "butlast ms" m] by (simp add: fed_messages_def)
next
  case (store bucket candle buckets stored w)
  then show ?thesis
    using log_inv_store[OF assms(1,2)] by simp
qed (use assms(2) in simp_all)

lemma log_inv_run:
  assumes "race_run (logged_upsert fails) (race_start p (0, [])) ms s" and "sorted (map message_key ms)"
  shows "log_inv p ms (race_fed s ms) (snd (rc_world s))"
  using assms
proof (induction rule: race_run.induct)
  case nothing
  then show ?case
    by (simp add: log_inv_def race_start_def)
next
  case (one_step ms t u)
  show ?case
    by (rule log_inv_step[OF race_inv_run[OF one_step(1,4)] one_step(3)[OF one_step(4)] one_step(2)])
next
  case (one_message ms t m u)
  have "\<forall>x \<in> set ms. message_key x \<le> message_key m"
    using one_message.prems by (simp add: sorted_append)
  moreover have "rc_reader t = Reading" "race_fed u (ms @ [m]) = ms" "rc_world u = rc_world t"
    using one_message(2) by (cases; simp add: fed_messages_def)+
  moreover have "log_inv p ms (race_fed t ms) (snd (rc_world t))"
    using one_message.prems by (intro one_message.IH) (simp add: sorted_append)
  ultimately show ?case
    using log_inv_ensure[of p ms "snd (rc_world t)" m] by (simp add: fed_messages_def)
qed

section \<open>The buckets of trades in order\<close>

definition bucket_keys :: "exchange_message list \<Rightarrow> int list" where
  "bucket_keys ms = sorted_list_of_set (message_key ` set ms)"

lemma bucket_keys_simps [simp]:
  "set (bucket_keys ms) = message_key ` set ms" "sorted (bucket_keys ms)" "distinct (bucket_keys ms)"
  by (simp_all add: bucket_keys_def)

lemma concat_of_key:
  assumes "sorted ks" and "distinct ks" and "sorted (map message_key ms)" and "message_key ` set ms \<subseteq> set ks"
  shows "concat (map (\<lambda>k. of_key k ms) ks) = ms"
  using assms
proof (induction ks arbitrary: ms)
  case (Cons k ks)
  define xs ys where "xs = takeWhile (\<lambda>m. message_key m = k) ms" and "ys = dropWhile (\<lambda>m. message_key m = k) ms"
  have ms: "ms = xs @ ys"
    by (simp add: xs_def ys_def)
  have xs: "\<forall>m \<in> set xs. message_key m = k"
    by (auto simp: xs_def dest: set_takeWhileD)
  have ys: "\<forall>m \<in> set ys. message_key m \<noteq> k"
  proof (cases ys)
    case (Cons y zs)
    have "message_key y \<noteq> k"
      using Cons hd_dropWhile[of "\<lambda>m. message_key m = k" ms] by (simp add: ys_def)
    moreover have "k \<le> message_key y" "\<forall>m \<in> set ys. message_key y \<le> message_key m"
      using Cons.prems ms by (auto simp: Cons sorted_append)
    ultimately show ?thesis
      by force
  qed simp
  have "of_key k ms = xs"
    using xs ys by (simp add: ms of_key_def filter_id_conv filter_empty_conv)
  moreover have "of_key j ms = of_key j ys" if "j \<in> set ks" for j
    using that xs Cons.prems(2) by (auto simp: ms of_key_def filter_empty_conv)
  moreover have "concat (map (\<lambda>k. of_key k ys) ks) = ys"
    using Cons.prems ys by (intro Cons.IH) (auto simp: ms sorted_append)
  ultimately show ?case
    by (simp add: ms cong: map_cong)
qed simp

text \<open>The trades of some of the buckets, in order.\<close>

lemma concat_of_keys:
  assumes "sorted (map message_key ms)"
  shows "concat (map (\<lambda>k. of_key k ms) (filter P (bucket_keys ms))) = filter (\<lambda>m. P (message_key m)) ms"
proof -
  let ?ms = "filter (\<lambda>m. P (message_key m)) ms"
  have "of_key k ?ms = of_key k ms" if "P k" for k
    using that by (auto simp: of_key_def intro: filter_cong)
  then have same: "map (\<lambda>k. of_key k ms) (filter P (bucket_keys ms)) = map (\<lambda>k. of_key k ?ms) (filter P (bucket_keys ms))"
    by simp
  show ?thesis
    unfolding same
  proof (rule concat_of_key)
    show "sorted (map message_key ?ms)"
      using assms by (rule sorted_filter)
    show "sorted (filter P (bucket_keys ms))"
      using sorted_filter[of id "bucket_keys ms" P] by simp
  qed auto
qed

section \<open>The candlestick of a bucket\<close>

text \<open>A message about the product whose bucket is the minute it lies in, with a price and a size when it is a trade. (Rounding puts the last nanoseconds of a minute
  into the next one, as \<open>bucket_after_instant\<close> of \<open>Candlestick_Specs\<close> shows.)\<close>

definition timely :: "product \<Rightarrow> exchange_message \<Rightarrow> bool" where
  "timely p m \<longleftrightarrow> em_product m = p \<and>
     (em_type m = MessageMatch \<longrightarrow> fpos (em_price m) \<and> fpos (em_size m) \<and> f64_ok (em_size m)) \<and>
     candlestickBaseTime \<le> em_time m \<and> em_time m - candlestickBaseTime < 2 ^ 62 \<and> minute_bucket (em_time m) = bucket_of 1 (em_time m)"

lemma timely_bucket:
  assumes "timely p m"
  shows "minute_bucket (em_time m) = unix_time (message_key m)" and "bucket_window (unix_time (message_key m))"
    and "minute dvd unix_time (message_key m) - candlestickBaseTime"
    and "unix_time (message_key m) \<le> em_time m" and "em_time m < unix_time (message_key m) + minute"
proof -
  have v: "valid_tick 1"
    by (simp add: valid_tick_def)
  have b: "minute_bucket (em_time m) = bucket_of 1 (em_time m)" "candlestickBaseTime \<le> em_time m"
    "em_time m - candlestickBaseTime < 2 ^ 62"
    using assms by (simp_all add: timely_def)
  then show k: "minute_bucket (em_time m) = unix_time (message_key m)"
    using second_dvd_bucket[of 1 "em_time m"] by (simp add: message_key_def unix_time_def time_unix_def)
  show "unix_time (message_key m) \<le> em_time m" "em_time m < unix_time (message_key m) + minute"
    using bucket_of_bounds[OF v, of "em_time m"] b k by simp_all
  show "minute dvd unix_time (message_key m) - candlestickBaseTime"
    using bucket_of_grid[of 1 "em_time m"] b k by simp
  have "candlestickBaseTime \<le> bucket_of 1 (em_time m)"
    using bucket_of_mono[OF v b(2)] by (simp add: bucket_of_def)
  then show "bucket_window (unix_time (message_key m))"
    using second_dvd_bucket[of 1 "em_time m"] bucket_of_bounds(1)[OF v, of "em_time m"] b k by (simp add: bucket_window_def)
qed

definition trades_of :: "exchange_message list \<Rightarrow> exchange_message list" where
  "trades_of ms = filter (\<lambda>m. em_type m = MessageMatch) ms"

definition built :: "product \<Rightarrow> exchange_message list \<Rightarrow> int \<Rightarrow> candlestick" where
  "built p ms k = Build (bucket_builder p ms ms k)"

lemma fadd_commute: "fadd a b = fadd b a"
  by (cases a; cases b) (simp_all add: fadd_def add.commute)

lemma fadd_positive:
  assumes "fnonneg a" and "fpos b" and "f64_ok b"
  shows "fpos (fadd a b)"
proof -
  have "fnonneg (fadd a b)"
    using assms fadd_nonneg[of a b] flt_fle by blast
  then have "fadd b a \<noteq> NaN"
    by (auto simp: fadd_commute[of a b])
  then have "fle b (fadd a b)"
    using fadd_ge[of b a] assms by (simp add: fadd_commute[of a b])
  with assms(2) show ?thesis
    by (rule flt_fle_trans)
qed

lemma sum_positive:
  assumes "\<forall>x \<in> set xs. fpos x \<and> f64_ok x" and "fnonneg a"
  shows "fnonneg (foldl fadd a xs)" and "xs \<noteq> [] \<Longrightarrow> fpos (foldl fadd a xs)"
proof -
  have nn: "fnonneg (foldl fadd a xs)" if "\<forall>x \<in> set xs. fpos x \<and> f64_ok x" for xs
    using that assms(2) by (induction xs rule: rev_induct) (auto intro: fadd_nonneg flt_fle)
  show "fnonneg (foldl fadd a xs)"
    using assms(1) by (rule nn)
  show "fpos (foldl fadd a xs)" if "xs \<noteq> []"
    using assms(1) that nn[of "butlast xs"] by (cases xs rule: rev_cases) (auto intro: fadd_positive)
qed

text \<open>The candlestick of a bucket has the bounds of its minute and the shape of its trades.\<close>

definition has_shape :: "candlestick \<Rightarrow> exchange_message list \<Rightarrow> bool" where
  "has_shape c xs \<longleftrightarrow> is_least (cs_low c) (map em_price xs) \<and> is_greatest (cs_high c) (map em_price xs) \<and>
     cs_open c = em_price (hd xs) \<and> cs_close c = em_price (last xs)"

lemma built_ohlc:
  assumes "\<forall>m \<in> set ms. timely p m" and "k \<in> message_key ` set ms" and "xs = of_key k (trades_of ms)"
  shows "cs_start (built p ms k) = unix_time k" and "cs_end (built p ms k) = unix_time k + minute" and "cs_product (built p ms k) = p"
    and "ohlc_of (bucket_builder p ms ms k) (map em_price xs) (map em_price xs) (map em_price xs) (map em_price xs) (map em_size xs)"
proof -
  let ?ms = "of_key k ms" and ?s = "unix_time k"
  have ne: "?ms \<noteq> []"
    using assms(2) by (simp add: of_key_Nil)
  then have h: "hd ?ms \<in> set ms" "message_key (hd ?ms) = k"
    using hd_in_set[OF ne] by (auto simp: of_key_def)
  then have "new_builder p (hd ?ms) = NewCandlestickBuilder p ?s (?s + minute)"
    using timely_bucket(1)[of p "hd ?ms"] assms(1) by (simp add: new_builder_def time_add_def)
  then have b: "bucket_builder p ms ms k = foldl ProcessMessage (NewCandlestickBuilder p ?s (?s + minute)) ?ms"
    by (simp add: bucket_builder_def)
  show "cs_start (built p ms k) = ?s" "cs_end (built p ms k) = ?s + minute" "cs_product (built p ms k) = p"
    by (simp_all add: built_def b Build_def msg.frame_all) (simp_all add: NewCandlestickBuilder_def)
  have accepts: "accepts_message p ?s (?s + minute) m \<longleftrightarrow> em_type m = MessageMatch" if "m \<in> set ?ms" for m
    using that assms(1) timely_bucket(4,5)[of p m] by (auto simp: of_key_def accepts_message_def timely_def)
  then have "filter (accepts_message p ?s (?s + minute)) ?ms = filter (\<lambda>m. em_type m = MessageMatch) ?ms"
    by (rule filter_cong[OF refl])
  then have "xs = filter (accepts_message p ?s (?s + minute)) ?ms"
    by (simp add: assms(3) of_key_def trades_of_def conj_commute)
  moreover have "\<forall>m \<in> set ?ms. accepts_message p ?s (?s + minute) m \<longrightarrow> fpos (em_price m)"
    using assms(1) accepts by (auto simp: of_key_def timely_def)
  ultimately show "ohlc_of (bucket_builder p ms ms k) (map em_price xs) (map em_price xs) (map em_price xs) (map em_price xs) (map em_size xs)"
    unfolding b by (intro msg.summary) auto
qed

lemma trade_keys: "message_key ` set (trades_of ms) \<subseteq> message_key ` set ms"
  by (auto simp: trades_of_def)

lemma built_volume:
  assumes "\<forall>m \<in> set ms. timely p m" and "k \<in> message_key ` set ms"
  shows "fpos (cs_volume (built p ms k)) \<longleftrightarrow> k \<in> message_key ` set (trades_of ms)"
proof -
  let ?xs = "of_key k (trades_of ms)"
  have "\<forall>x \<in> set (map em_size ?xs). fpos x \<and> f64_ok x"
    using assms(1) by (auto simp: of_key_def trades_of_def timely_def)
  then have "?xs \<noteq> [] \<Longrightarrow> fpos (foldl fadd (Fin 0) (map em_size ?xs))"
    using sum_positive(2)[of "map em_size ?xs" "Fin 0"] by simp
  then show ?thesis
    using built_ohlc(4)[OF assms refl] of_key_Nil[of k "trades_of ms"]
    by (cases "?xs = []") (simp_all add: built_def Build_def ohlc_of_def)
qed

lemma built_facts:
  assumes "\<forall>m \<in> set ms. timely p m" and "k \<in> message_key ` set (trades_of ms)"
  shows "cs_start (built p ms k) = unix_time k" and "cs_end (built p ms k) = unix_time k + minute"
    and "cs_product (built p ms k) = p" and "has_shape (built p ms k) (of_key k (trades_of ms))"
proof -
  have k: "k \<in> message_key ` set ms"
    using assms(2) trade_keys by blast
  show "cs_start (built p ms k) = unix_time k" "cs_end (built p ms k) = unix_time k + minute" "cs_product (built p ms k) = p"
    using built_ohlc(1-3)[OF assms(1) k refl] by simp_all
  show "has_shape (built p ms k) (of_key k (trades_of ms))"
    using built_ohlc(4)[OF assms(1) k refl] assms(2)
    by (simp add: ohlc_of_def has_shape_def built_def Build_def hd_map last_map of_key_Nil)
qed

section \<open>The race over the database\<close>

text \<open>The importer on a database whose calls fail as any function of their number says.\<close>

definition flaky_upsert :: "(nat \<Rightarrow> bool) \<Rightarrow> time \<Rightarrow> candlestick \<Rightarrow> (unit, nat \<times> db) act" where
  "flaky_upsert fails now c w =
    (case UpsertCandlestick (if fails (fst w) then Some (Errorf ''connection lost'') else None) now c (snd w) of
       (r, d) \<Rightarrow> (r, (Suc (fst w), d)))"

definition logs :: "time \<Rightarrow> db \<Rightarrow> (nat \<times> candlestick list) race \<Rightarrow> (nat \<times> db) race \<Rightarrow> bool" where
  "logs now d s t \<longleftrightarrow> rc_importer t = rc_importer s \<and> rc_reader t = rc_reader s \<and> rc_flusher t = rc_flusher s \<and>
     rc_world t = (fst (rc_world s), db.put_all now (snd (rc_world s)) d)"

lemma store_logs:
  assumes "store_built (flaky_upsert fails now) c (n, db.put_all now w d) = (Ok stored, w1)"
  shows "\<exists>w2. store_built (logged_upsert fails) c (n, w) = (Ok stored, w2) \<and> w1 = (fst w2, db.put_all now (snd w2) d)"
  using assms
  by (auto simp: store_built_def flaky_upsert_def logged_upsert_def UpsertCandlestick_def statement_def upsert_def db_put_all_append
      split: if_splits)

lemma logsI: "race_step up s om v \<Longrightarrow> logs now d v u \<Longrightarrow> \<exists>v. race_step up s om v \<and> logs now d v u"
  by blast

lemma step_logs:
  assumes "race_step (flaky_upsert fails now) t om u" and "logs now d s t"
  shows "\<exists>v. race_step (logged_upsert fails) s om v \<and> logs now d v u"
  using assms(1)
proof cases
  case (ensure m bucket)
  show ?thesis
    unfolding ensure(1) by (rule logsI, rule race_step.ensure) (use ensure assms(2) in \<open>auto simp: logs_def\<close>)
next
  case (feed bucket m i)
  show ?thesis
    unfolding feed(1) by (rule logsI, rule race_step.feed) (use feed assms(2) in \<open>auto simp: logs_def\<close>)
next
  case start
  show ?thesis
    unfolding start(1) by (rule logsI, rule race_step.start) (use start assms(2) in \<open>auto simp: logs_def\<close>)
next
  case finish
  show ?thesis
    unfolding finish(1) by (rule logsI, rule race_step.finish) (use finish assms(2) in \<open>auto simp: logs_def\<close>)
next
  case (build bucket buckets candle)
  show ?thesis
    unfolding build(1) by (rule logsI, rule race_step.build) (use build assms(2) in \<open>auto simp: logs_def\<close>)
next
  case (store bucket candle buckets stored w)
  obtain w2 where w2: "store_built (logged_upsert fails) candle (rc_world s) = (Ok stored, w2)" "w = (fst w2, db.put_all now (snd w2) d)"
    using store(4) assms(2) store_logs[of fails now candle "fst (rc_world s)" "snd (rc_world s)" d] by (auto simp: logs_def)
  show ?thesis
    unfolding store(1) by (rule logsI, rule race_step.store[OF _ w2(1)]) (use store w2 assms(2) in \<open>auto simp: logs_def\<close>)
next
  case (delete bucket buckets)
  show ?thesis
    unfolding delete(1) by (rule logsI, rule race_step.delete) (use delete assms(2) in \<open>auto simp: logs_def\<close>)
qed

lemma run_logs:
  assumes "race_run (flaky_upsert fails now) (race_start p (0, d)) ms t"
  shows "\<exists>s. race_run (logged_upsert fails) (race_start p (0, [])) ms s \<and> logs now d s t"
  using assms
proof (induction rule: race_run.induct)
  case nothing
  have "logs now d (race_start p (0, [])) (race_start p (0, d))"
    by (simp add: logs_def race_start_def)
  then show ?case
    using race_run.nothing by blast
next
  case (one_step ms t u)
  then obtain s v where "race_run (logged_upsert fails) (race_start p (0, [])) ms s" "race_step (logged_upsert fails) s None v" "logs now d v u"
    using step_logs by blast
  then show ?case
    by (metis race_run.one_step)
next
  case (one_message ms t m u)
  then obtain s v where "race_run (logged_upsert fails) (race_start p (0, [])) ms s" "race_step (logged_upsert fails) s (Some m) v" "logs now d v u"
    using step_logs by blast
  then show ?case
    by (metis race_run.one_message)
qed

section \<open>What is found\<close>

lemma row_data_fields [simp]:
  "cs_start (row_data r) = cs_start r" "cs_product (row_data r) = cs_product r" "cs_low (row_data r) = cs_low r"
  "cs_high (row_data r) = cs_high r" "cs_open (row_data r) = cs_open r" "cs_close (row_data r) = cs_close r"
  "cs_volume (row_data r) = cs_volume r"
  by (simp_all add: row_data_def)

lemma book_row: "unique_rows d \<Longrightarrow> r \<in> set (db_candles d) \<Longrightarrow> book d (candle_key r) = Some (row_data r)"
  unfolding book_def unique_rows_def by (intro map_of_is_SomeI) (auto simp: comp_def)

lemma row_of_book: "book d k = Some x \<Longrightarrow> \<exists>r \<in> set (db_candles d). candle_key r = k \<and> row_data r = x"
  unfolding book_def by (drule map_of_SomeD) auto

lemma table_rows:
  assumes "unique_rows d" and "\<forall>r \<in> set (db_candles d). cs_product r \<noteq> p" and "\<forall>c \<in> set w. cs_product c = p" and "agreeing w"
  shows "unique_rows (db.put_all now w d)"
    and "row_data ` {r \<in> set (db_candles (db.put_all now w d)). cs_product r = p} = row_data ` set w"
proof -
  let ?D = "db.put_all now w d"
  show u: "unique_rows ?D"
    using assms(1) by (rule db.put_all_sound)
  have old: "book d (t, p) = None" for t
  proof (rule ccontr)
    assume "book d (t, p) \<noteq> None"
    then obtain r where "r \<in> set (db_candles d)" "candle_key r = (t, p)"
      using row_of_book[of d "(t, p)"] by auto
    then show False
      using assms(2) by (auto simp: candle_key_def)
  qed
  have at: "book ?D (t, p) = map_option row_data (List.find (\<lambda>c. candle_key c = (t, p)) w)" for t
    using db.put_all_holds[OF assms(1)] old[of t] by (simp add: store_all_at[OF assms(4)] split: option.split)
  show "row_data ` {r \<in> set (db_candles ?D). cs_product r = p} = row_data ` set w"
  proof (intro equalityI subsetI)
    fix x
    assume "x \<in> row_data ` {r \<in> set (db_candles ?D). cs_product r = p}"
    then obtain r where "r \<in> set (db_candles ?D)" "candle_key r = (cs_start r, p)" "x = row_data r"
      by (auto simp: candle_key_def)
    then have "map_option row_data (List.find (\<lambda>c. candle_key c = (cs_start r, p)) w) = Some x"
      using book_row[OF u] at by metis
    then show "x \<in> row_data ` set w"
      by (auto simp: find_Some_iff)
  next
    fix x
    assume "x \<in> row_data ` set w"
    then obtain c where c: "c \<in> set w" "x = row_data c" "candle_key c = (cs_start c, p)"
      using assms(3) by (auto simp: candle_key_def)
    then obtain c' where c': "List.find (\<lambda>c'. candle_key c' = (cs_start c, p)) w = Some c'"
      by (cases "List.find (\<lambda>c'. candle_key c' = (cs_start c, p)) w") (auto simp: find_None_iff)
    then have "c' \<in> set w" "candle_key c' = candle_key c"
      using c(3) by (auto simp: find_Some_iff)
    then have "row_data c' = x"
      using assms(4) c unfolding agreeing_def by blast
    then have "book ?D (cs_start c, p) = Some x"
      using at c' by simp
    then obtain r where "r \<in> set (db_candles ?D)" "candle_key r = (cs_start c, p)" "row_data r = x"
      using row_of_book by blast
    then show "x \<in> row_data ` {r \<in> set (db_candles ?D). cs_product r = p}"
      by (auto simp: candle_key_def)
  qed
qed

text \<open>The minutes that a query from \<open>s0\<close> to \<open>e0\<close> asks for.\<close>

definition in_query :: "time \<Rightarrow> time \<Rightarrow> int \<Rightarrow> bool" where
  "in_query s0 e0 k \<longleftrightarrow> s0 \<le> unix_time k \<and> unix_time k + minute \<le> e0"

lemma unix_time_inj [simp]: "unix_time j = unix_time k \<longleftrightarrow> j = k"
  by (simp add: unix_time_def second_def)

lemma unix_time_le [simp]: "unix_time j \<le> unix_time k \<longleftrightarrow> j \<le> k"
  by (simp add: unix_time_def second_def)

lemma sort_key_unique:
  assumes "sorted (map f xs)" and "distinct (map f xs)" and "sorted ys" and "distinct ys" and "f ` set xs = set ys"
  shows "map f xs = ys"
  using sorted_distinct_set_unique[OF assms(1-4)] assms(5) by simp

text \<open>The candlesticks a query finds, in order: one for each minute of the query in which there was a trade.\<close>

text \<open>The rows of the product after the candlesticks \<open>w\<close> of the minutes of \<open>ms\<close> are stored in a
  table that has none.\<close>

lemma stored_minutes:
  assumes ms: "\<forall>m \<in> set ms. timely p m" and d: "unique_rows d" "\<forall>r \<in> set (db_candles d). cs_product r \<noteq> p"
    and w: "\<forall>c \<in> set w. \<exists>k \<in> message_key ` set (trades_of ms). c = built p ms k"
  shows "unique_rows (db.put_all now w d)"
    and "row_data ` {r \<in> set (db_candles (db.put_all now w d)). cs_product r = p} = row_data ` set w"
proof -
  note facts = built_facts[OF ms]
  have "agreeing w"
    unfolding agreeing_def
  proof (intro ballI impI)
    fix c c'
    assume "c \<in> set w" "c' \<in> set w" "candle_key c = candle_key c'"
    moreover from this obtain k k' where "k \<in> message_key ` set (trades_of ms)" "c = built p ms k"
        "k' \<in> message_key ` set (trades_of ms)" "c' = built p ms k'"
      using w by meson
    ultimately show "row_data c = row_data c'"
      using facts(1) by (simp add: candle_key_def)
  qed
  moreover have "\<forall>c \<in> set w. cs_product c = p"
    using w facts(3) by auto
  ultimately show "unique_rows (db.put_all now w d)"
    "row_data ` {r \<in> set (db_candles (db.put_all now w d)). cs_product r = p} = row_data ` set w"
    using table_rows[OF d] by blast+
qed

lemma between_iff:
  "r \<in> set (candles_between s0 e0 p cs) \<longleftrightarrow> r \<in> set cs \<and> cs_product r = p \<and> s0 \<le> cs_start r \<and> cs_end r \<le> e0"
  by (auto simp: candles_between_def)

lemma row_of_minute:
  assumes ms: "\<forall>m \<in> set ms. timely p m" and k: "k \<in> message_key ` set (trades_of ms)" "row_data r = row_data (built p ms k)"
  shows "cs_start r = unix_time k" and "cs_end r = unix_time k + minute"
  using built_facts(1,2)[OF ms k(1)] k(2) by (metis row_data_fields(1), metis row_data_simps(4))

lemma found_row:
  assumes ms: "\<forall>m \<in> set ms. timely p m" and d: "unique_rows d" "\<forall>r \<in> set (db_candles d). cs_product r \<noteq> p"
    and w: "\<forall>c \<in> set w. \<exists>k \<in> message_key ` set (trades_of ms). c = built p ms k"
    and r: "r \<in> set (candles_between s0 e0 p (db_candles (db.put_all now w d)))"
  shows "\<exists>k \<in> set (filter (in_query s0 e0) (bucket_keys (trades_of ms))). row_data r = row_data (built p ms k)"
proof -
  have "row_data r \<in> row_data ` set w"
    using r stored_minutes(2)[OF ms d w] by (auto simp: between_iff)
  then obtain c where "c \<in> set w" "row_data r = row_data c"
    by auto
  then obtain k where k: "k \<in> message_key ` set (trades_of ms)" "row_data r = row_data (built p ms k)"
    using w by metis
  then show ?thesis
    using r row_of_minute[OF ms k] by (intro bexI[of _ k]) (auto simp: in_query_def between_iff)
qed

lemma found_starts:
  assumes ms: "\<forall>m \<in> set ms. timely p m" and d: "unique_rows d" "\<forall>r \<in> set (db_candles d). cs_product r \<noteq> p"
    and w: "\<forall>c \<in> set w. \<exists>k \<in> message_key ` set (trades_of ms). c = built p ms k"
    and flushed: "\<forall>k \<in> message_key ` set (trades_of ms). in_query s0 e0 k \<longrightarrow> built p ms k \<in> set w"
  shows "map cs_start (candles_between s0 e0 p (db_candles (db.put_all now w d))) =
    map unix_time (filter (in_query s0 e0) (bucket_keys (trades_of ms)))"
proof (rule sort_key_unique)
  let ?D = "db.put_all now w d" and ?ks = "filter (in_query s0 e0) (bucket_keys (trades_of ms))"
  let ?cs = "candles_between s0 e0 p (db_candles ?D)"
  show "sorted (map cs_start ?cs)"
    by (simp add: candles_between_def)
  have "distinct (map candle_key (filter (\<lambda>r. s0 \<le> cs_start r \<and> cs_end r \<le> e0 \<and> cs_product r = p) (db_candles ?D)))"
    using stored_minutes(1)[OF ms d w] unfolding unique_rows_def by (rule distinct_map_filter)
  then have "distinct (map cs_start (filter (\<lambda>r. s0 \<le> cs_start r \<and> cs_end r \<le> e0 \<and> cs_product r = p) (db_candles ?D)))"
    by (auto simp: distinct_map candle_key_def inj_on_def)
  then show "distinct (map cs_start ?cs)"
    by (simp add: candles_between_def distinct_map)
  show "sorted (map unix_time ?ks)"
    using sorted_filter[of id "bucket_keys (trades_of ms)" "in_query s0 e0"] by (simp add: sorted_map)
  show "distinct (map unix_time ?ks)"
    by (simp add: distinct_map inj_on_def)
  have "cs_start r \<in> unix_time ` set ?ks" if "r \<in> set ?cs" for r
    using found_row[OF ms d w that] row_of_minute(1)[OF ms, of _ r] by auto
  moreover have "\<exists>r \<in> set ?cs. unix_time k = cs_start r" if "k \<in> set ?ks" for k
  proof -
    from that have k: "k \<in> message_key ` set (trades_of ms)" "in_query s0 e0 k"
      by auto
    then have "row_data (built p ms k) \<in> row_data ` {r \<in> set (db_candles ?D). cs_product r = p}"
      unfolding stored_minutes(2)[OF ms d w] using flushed by blast
    then obtain r where "r \<in> set (db_candles ?D)" "cs_product r = p" "row_data r = row_data (built p ms k)"
      by auto
    with k(2) row_of_minute[OF ms k(1) this(3)] show ?thesis
      by (intro bexI[of _ r]) (auto simp: in_query_def between_iff)
  qed
  ultimately show "cs_start ` set ?cs = set (map unix_time ?ks)"
    by (simp only: set_map) blast
qed

lemma candles_found:
  assumes ms: "\<forall>m \<in> set ms. timely p m" and d: "unique_rows d" "\<forall>r \<in> set (db_candles d). cs_product r \<noteq> p"
    and w: "\<forall>c \<in> set w. \<exists>k \<in> message_key ` set (trades_of ms). c = built p ms k"
    and flushed: "\<forall>k \<in> message_key ` set (trades_of ms). in_query s0 e0 k \<longrightarrow> built p ms k \<in> set w"
  shows "map row_data (candles_between s0 e0 p (db_candles (db.put_all now w d))) =
    map (\<lambda>k. row_data (built p ms k)) (filter (in_query s0 e0) (bucket_keys (trades_of ms)))"
proof -
  let ?cs = "candles_between s0 e0 p (db_candles (db.put_all now w d))" and ?ks = "filter (in_query s0 e0) (bucket_keys (trades_of ms))"
  note starts = found_starts[OF ms d w flushed, of now]
  then have len: "length ?cs = length ?ks"
    by (rule map_eq_imp_length_eq)
  show ?thesis
  proof (rule nth_equalityI)
    fix i
    assume "i < length (map row_data ?cs)"
    then have i: "i < length ?cs" "i < length ?ks"
      using len by simp_all
    then obtain k where k: "k \<in> set ?ks" "row_data (?cs ! i) = row_data (built p ms k)"
      using found_row[OF ms d w nth_mem] by blast
    have "cs_start (?cs ! i) = unix_time (?ks ! i)"
      using arg_cong[OF starts, of "\<lambda>xs. xs ! i"] i by simp
    then have "k = ?ks ! i"
      using row_of_minute(1)[OF ms _ k(2)] k(1) by simp
    then show "map row_data ?cs ! i = map (\<lambda>k. row_data (built p ms k)) ?ks ! i"
      using i k(2) by simp
  qed (simp add: len)
qed

section \<open>Shapes of shapes\<close>

lemma least_of_leasts:
  assumes "is_least x (map f xs)" and "\<And>y. y \<in> set xs \<Longrightarrow> is_least (f y) (g y)"
  shows "is_least x (concat (map g xs))"
proof -
  obtain y where "y \<in> set xs" "x = f y"
    using assms(1) by (auto simp: is_least_def)
  then have "x \<in> set (concat (map g xs))"
    using assms(2)[of y] by (auto simp: is_least_def)
  moreover have "fle x z" if "y \<in> set xs" "z \<in> set (g y)" for y z
    using assms(1) assms(2)[OF that(1)] that fle_trans[of x "f y" z] by (simp add: is_least_def)
  ultimately show ?thesis
    by (auto simp: is_least_def)
qed

lemma greatest_of_greatests:
  assumes "is_greatest x (map f xs)" and "\<And>y. y \<in> set xs \<Longrightarrow> is_greatest (f y) (g y)"
  shows "is_greatest x (concat (map g xs))"
proof -
  obtain y where "y \<in> set xs" "x = f y"
    using assms(1) by (auto simp: is_greatest_def)
  then have "x \<in> set (concat (map g xs))"
    using assms(2)[of y] by (auto simp: is_greatest_def)
  moreover have "fle z x" if "y \<in> set xs" "z \<in> set (g y)" for y z
    using assms(1) assms(2)[OF that(1)] that fle_trans[of z "f y" x] by (simp add: is_greatest_def)
  ultimately show ?thesis
    by (auto simp: is_greatest_def)
qed

lemma hd_last_concat:
  assumes "xs \<noteq> []" and "\<And>y. y \<in> set xs \<Longrightarrow> g y \<noteq> []"
  shows "hd (concat (map g xs)) = hd (g (hd xs))" and "last (concat (map g xs)) = last (g (last xs))"
proof -
  show "hd (concat (map g xs)) = hd (g (hd xs))"
    using assms by (cases xs) (simp_all add: hd_append)
  show "last (concat (map g xs)) = last (g (last xs))"
    using assms by (cases xs rule: rev_cases) (simp_all add: last_append)
qed

text \<open>A candlestick made of the candlesticks of minutes has the shape of the trades of these minutes.\<close>

lemma shape_of_minutes:
  assumes ms: "\<forall>m \<in> set ms. timely p m" and ks: "set ks \<subseteq> message_key ` set (trades_of ms)" "ks \<noteq> []"
    and cs: "map row_data cs = map (\<lambda>k. row_data (built p ms k)) ks"
    and "is_least (cs_low c) (map cs_low cs)" "is_greatest (cs_high c) (map cs_high cs)" "cs_open c = cs_open (hd cs)" "cs_close c = cs_close (last cs)"
  shows "has_shape c (concat (map (\<lambda>k. of_key k (trades_of ms)) ks))"
proof -
  have shape: "has_shape (built p ms k) (of_key k (trades_of ms))" if "k \<in> set ks" for k
    using built_facts(4)[OF ms] ks(1) that by blast
  have nonempty: "of_key k (trades_of ms) \<noteq> []" if "k \<in> set ks" for k
    using that ks(1) by (auto simp: of_key_Nil)
  have fields: "map f cs = map (\<lambda>k. f (built p ms k)) ks" if "\<And>r. f (row_data r) = f r" for f :: "candlestick \<Rightarrow> f64"
  proof -
    have "map (f \<circ> row_data) cs = map (\<lambda>k. f (row_data (built p ms k))) ks"
      using arg_cong[OF cs, of "map f"] by (simp add: comp_def)
    then show ?thesis
      using that by (simp add: comp_def)
  qed
  have "cs \<noteq> []"
    using cs ks(2) by auto
  then have ends: "cs_open (hd cs) = cs_open (built p ms (hd ks))" "cs_close (last cs) = cs_close (built p ms (last ks))"
    using fields[of cs_open] fields[of cs_close] ks(2) by (metis hd_map row_data_fields(5), metis last_map row_data_fields(6))
  have "is_least (cs_low c) (concat (map (\<lambda>k. map em_price (of_key k (trades_of ms))) ks))"
    "is_greatest (cs_high c) (concat (map (\<lambda>k. map em_price (of_key k (trades_of ms))) ks))"
    using assms(5,6) fields[of cs_low] fields[of cs_high] shape unfolding has_shape_def
    by (intro least_of_leasts[of _ "\<lambda>k. cs_low (built p ms k)"] greatest_of_greatests[of _ "\<lambda>k. cs_high (built p ms k)"]; simp)+
  then show ?thesis
    using assms(7,8) ends shape[of "hd ks"] shape[of "last ks"] ks(2) hd_last_concat[OF ks(2) nonempty]
    by (simp add: has_shape_def map_concat comp_def)
qed

lemma minute_fits:
  assumes "valid_tick tick" and "minute dvd t - candlestickBaseTime"
  shows "t + minute \<le> bucket_of tick t + tick * minute"
proof -
  have p: "0 < minute"
    by (simp add: minute_def)
  obtain j where j: "t - candlestickBaseTime = minute * j"
    using assms(2) by (auto simp: dvd_def)
  define q where "q = (t - candlestickBaseTime) div (tick * minute)"
  have b: "bucket_of tick t = candlestickBaseTime + q * tick * minute"
    by (simp add: bucket_of_def q_def)
  have "t < bucket_of tick t + tick * minute"
    using bucket_of_bounds(2)[OF assms(1)] .
  then have "minute * j < minute * (q * tick + tick)"
    using j b by (simp add: algebra_simps)
  then have "j + 1 \<le> q * tick + tick"
    using p by simp
  then have "minute * (j + 1) \<le> minute * (q * tick + tick)"
    using p by (intro mult_left_mono) simp_all
  then show ?thesis
    using j b by (simp add: algebra_simps)
qed

text \<open>What is stored of a race that is between messages.\<close>

lemma race_stores:
  assumes "race_run (logged_upsert fails) (race_start p (0, [])) ms s" and "rc_reader s = Reading"
    and "sorted (map message_key ms)" and ms: "\<forall>m \<in> set ms. timely p m"
  shows "\<forall>c \<in> set (snd (rc_world s)). \<exists>k \<in> message_key ` set (trades_of ms). c = built p ms k"
    and "k \<in> message_key ` set (trades_of ms) \<Longrightarrow> map_of (ri_candles (rc_importer s)) k = None \<Longrightarrow> built p ms k \<in> set (snd (rc_world s))"
proof -
  show "\<forall>c \<in> set (snd (rc_world s)). \<exists>k \<in> message_key ` set (trades_of ms). c = built p ms k"
  proof
    fix c
    assume "c \<in> set (snd (rc_world s))"
    then obtain k where "k \<in> message_key ` set ms" "c = built p ms k" "fpos (cs_volume c)"
      using log_inv_run[OF assms(1,3)] assms(2) by (auto simp: log_inv_def fed_messages_def built_def dest!: bspec)
    then show "\<exists>k \<in> message_key ` set (trades_of ms). c = built p ms k"
      using built_volume[OF ms] by blast
  qed
  assume k: "k \<in> message_key ` set (trades_of ms)" and none: "map_of (ri_candles (rc_importer s)) k = None"
  then have k': "k \<in> message_key ` set ms"
    using trade_keys by blast
  then have "settled (snd (rc_world s)) (bucket_builder p ms ms k)"
    using race_inv_run[OF assms(1,3)] assms(2) none unfolding race_inv_def Let_def builders_ok_def fed_messages_def by auto
  then show "built p ms k \<in> set (snd (rc_world s))"
    using built_volume[OF ms k'] k by (simp add: settled_def built_def)
qed

text \<open>The candlesticks found are such that they can be reprojected.\<close>

lemma found_fit:
  assumes "\<forall>m \<in> set ms. timely p m" and "valid_tick tick" and "k \<in> message_key ` set (trades_of ms)"
    and "row_data r = row_data (built p ms k)"
  shows "cs_start r = unix_time k" and "bucket_window (cs_start r) \<and> fits_bucket p tick r \<and> positive_candle r"
proof -
  note b = built_facts[OF assms(1,3)]
  have f: "cs_start r = unix_time k" "cs_end r = unix_time k + minute" "cs_product r = p" "cs_low r = cs_low (built p ms k)"
    "cs_high r = cs_high (built p ms k)" "cs_open r = cs_open (built p ms k)"
    using b(1-3) assms(4) by (metis row_data_fields row_data_simps(4))+
  then show "cs_start r = unix_time k"
    by simp
  obtain m where m: "m \<in> set ms" "k = message_key m"
    using assms(3) trade_keys by blast
  have t: "bucket_window (unix_time k)" "minute dvd unix_time k - candlestickBaseTime"
    using timely_bucket(2,3)[of p m] assms(1) m by auto
  have ne: "of_key k (trades_of ms) \<noteq> []"
    using assms(3) by (simp add: of_key_Nil)
  have pos: "fpos (em_price m)" if "m \<in> set (of_key k (trades_of ms))" for m
    using that assms(1) by (auto simp: of_key_def trades_of_def timely_def)
  have "positive_candle r"
    using b(4) f(4-6) pos hd_in_set[OF ne] by (auto simp: positive_candle_def has_shape_def is_least_def is_greatest_def)
  then show "bucket_window (cs_start r) \<and> fits_bucket p tick r \<and> positive_candle r"
    using t f(1-3) minute_fits[OF assms(2) t(2)] by (simp add: fits_bucket_def minute_def)
qed

text \<open>Two lists that are the same but for bookkeeping.\<close>

lemma same_rows:
  assumes "map row_data cs = map (\<lambda>k. row_data (built p ms k)) ks"
  shows "r \<in> set cs \<Longrightarrow> \<exists>k \<in> set ks. row_data r = row_data (built p ms k)"
    and "k \<in> set ks \<Longrightarrow> \<exists>r \<in> set cs. row_data r = row_data (built p ms k)"
proof -
  have "row_data ` set cs = (\<lambda>k. row_data (built p ms k)) ` set ks"
    using assms by (metis set_map)
  then show "r \<in> set cs \<Longrightarrow> \<exists>k \<in> set ks. row_data r = row_data (built p ms k)"
    and "k \<in> set ks \<Longrightarrow> \<exists>r \<in> set cs. row_data r = row_data (built p ms k)"
    by (blast, metis (no_types, lifting) imageE image_eqI)
qed

lemma found_trades:
  assumes ms: "\<forall>m \<in> set ms. timely p m" "sorted (map message_key ms)" and tick: "valid_tick tick"
    and cs: "map row_data cs = map (\<lambda>k. row_data (built p ms k)) (filter (in_query s0 e0) (bucket_keys (trades_of ms)))" "cs \<noteq> []"
      "sorted (map cs_start cs)"
    and out: "ReprojectCandlesticks cs p tick = Ok out" "c \<in> set out"
    and xs: "xs = filter (\<lambda>m. in_query s0 e0 (message_key m) \<and> bucket_of tick (unix_time (message_key m)) = cs_start c) (trades_of ms)"
  shows "if xs = [] then cs_volume c = Fin 0 else has_shape c xs"
proof -
  let ?ks = "filter (in_query s0 e0) (bucket_keys (trades_of ms))"
  let ?js = "filter (\<lambda>k. bucket_of tick (unix_time k) = cs_start c) ?ks" and ?rs = "filter (in_bucket tick (cs_start c)) cs"
  have row: "\<exists>k \<in> message_key ` set (trades_of ms). row_data r = row_data (built p ms k)" if "r \<in> set cs" for r
    using same_rows(1)[OF cs(1) that] by auto
  have "\<forall>r \<in> set cs. bucket_window (cs_start r) \<and> fits_bucket p tick r \<and> positive_candle r"
    using row found_fit(2)[OF ms(1) tick] by blast
  then have shape: "cs_volume c = foldl fadd (Fin 0) (map cs_volume ?rs) \<and>
      (if ?rs = [] then cs_low c = Fin 0 \<and> cs_high c = Fin 0 \<and> cs_open c = Fin 0 \<and> cs_close c = Fin 0
       else is_least (cs_low c) (map cs_low ?rs) \<and> is_greatest (cs_high c) (map cs_high ?rs) \<and>
         cs_open c = cs_open (hd ?rs) \<and> cs_close c = cs_close (last ?rs))"
    by (intro reprojected_shape[OF out cs(2,3) _ tick refl])
  have "map row_data ?rs = filter (in_bucket tick (cs_start c)) (map row_data cs)"
    by (simp add: filter_map in_bucket_def[abs_def] comp_def)
  also have "\<dots> = map (\<lambda>k. row_data (built p ms k)) (filter (\<lambda>k. in_bucket tick (cs_start c) (built p ms k)) ?ks)"
    unfolding cs(1) by (simp add: filter_map comp_def in_bucket_def)
  also have "filter (\<lambda>k. in_bucket tick (cs_start c) (built p ms k)) ?ks = ?js"
    using built_facts(1)[OF ms(1)] by (intro filter_cong) (auto simp: in_bucket_def)
  finally have rs: "map row_data ?rs = map (\<lambda>k. row_data (built p ms k)) ?js" .
  have xs': "xs = concat (map (\<lambda>k. of_key k (trades_of ms)) ?js)"
    using concat_of_keys[of "trades_of ms" "\<lambda>k. bucket_of tick (unix_time k) = cs_start c \<and> in_query s0 e0 k"] ms(2)
    by (simp add: xs trades_of_def sorted_filter conj_commute conj_left_commute)
  show ?thesis
  proof (cases "?js = []")
    case True
    then have "?rs = []" "xs = []"
      using rs xs' by simp_all
    then show ?thesis
      using shape by simp
  next
    case False
    then have "?rs \<noteq> []"
      using rs by auto
    then have "has_shape c xs"
      using shape unfolding xs' by (intro shape_of_minutes[OF ms(1) _ False rs]) auto
    moreover have "xs \<noteq> []"
      using False xs' of_key_Nil[of "hd ?js" "trades_of ms"] hd_in_set[OF False] by auto
    ultimately show ?thesis
      by simp
  qed
qed

section \<open>Property\<close>

text \<open>The candlesticks that a query finds after a run, of the minutes of the trades in its period.\<close>

lemma run_found:
  assumes "race_run (flaky_upsert fails now) (race_start p (0, d)) ms s" and "rc_reader s = Reading"
    and "sorted (map message_key ms)" and "\<forall>m \<in> set ms. timely p m"
    and "unique_rows d" and "\<forall>r \<in> set (db_candles d). cs_product r \<noteq> p"
    and "\<forall>m \<in> set (trades_of ms). in_query s0 e0 (message_key m) \<longrightarrow> map_of (ri_candles (rc_importer s)) (message_key m) = None"
  shows "map row_data (candles_between s0 e0 p (db_candles (snd (rc_world s)))) =
    map (\<lambda>k. row_data (built p ms k)) (filter (in_query s0 e0) (bucket_keys (trades_of ms)))"
proof -
  obtain s1 where run: "race_run (logged_upsert fails) (race_start p (0, [])) ms s1" and l: "logs now d s1 s"
    using run_logs[OF assms(1)] by blast
  then have reading: "rc_reader s1 = Reading" and i: "rc_importer s1 = rc_importer s"
    and D: "snd (rc_world s) = db.put_all now (snd (rc_world s1)) d"
    using assms(2) by (simp_all add: logs_def)
  show ?thesis
    unfolding D
  proof (rule candles_found[OF assms(4,5,6)])
    show "\<forall>c \<in> set (snd (rc_world s1)). \<exists>k \<in> message_key ` set (trades_of ms). c = built p ms k"
      by (rule race_stores(1)[OF run reading assms(3,4)])
    show "\<forall>k \<in> message_key ` set (trades_of ms). in_query s0 e0 k \<longrightarrow> built p ms k \<in> set (snd (rc_world s1))"
      using race_stores(2)[OF run reading assms(3,4)] assms(7) i by auto
  qed
qed

text \<open>C4. From the trades to the tick of a strategy: the importer reads messages in the order of their
  minutes, its goroutines interleave and its upserts fail in any way; the candlesticks of the minutes that a query asks
  for have left its memory. Then the query answers with candlesticks of the tick that cover every trade of these minutes, and
  each of them has as open, close, low and high the first, last, least and greatest price of the trades of its
  tick, or no volume when there was none.\<close>

theorem trades_reach_ticks:
  assumes "race_run (flaky_upsert fails now) (race_start p (0, d)) ms s" and "rc_reader s = Reading"
    and "sorted (map message_key ms)" and "\<forall>m \<in> set ms. timely p m"
    and "unique_rows d" and "\<forall>r \<in> set (db_candles d). cs_product r \<noteq> p" and "valid_tick tick"
    and "\<forall>m \<in> set (trades_of ms). in_query s0 e0 (message_key m) \<longrightarrow> map_of (ri_candles (rc_importer s)) (message_key m) = None"
    and "\<exists>m \<in> set (trades_of ms). in_query s0 e0 (message_key m)"
  shows "\<exists>out. FindCandlesticks None s0 e0 p tick (snd (rc_world s)) = (Ok out, snd (rc_world s)) \<and>
    (\<forall>m \<in> set (trades_of ms). in_query s0 e0 (message_key m) \<longrightarrow>
       (\<exists>c \<in> set out. cs_start c = bucket_of tick (unix_time (message_key m)))) \<and>
    (\<forall>c \<in> set out.
       let xs = filter (\<lambda>m. in_query s0 e0 (message_key m) \<and> bucket_of tick (unix_time (message_key m)) = cs_start c) (trades_of ms)
       in if xs = [] then cs_volume c = Fin 0 else has_shape c xs)"
proof -
  define cs where "cs = candles_between s0 e0 p (db_candles (snd (rc_world s)))"
  let ?ks = "filter (in_query s0 e0) (bucket_keys (trades_of ms))"
  have cs: "map row_data cs = map (\<lambda>k. row_data (built p ms k)) ?ks"
    unfolding cs_def by (rule run_found[OF assms(1-6,8)])
  have "?ks \<noteq> []"
    using assms(9) by (auto simp: filter_empty_conv)
  then have ne: "cs \<noteq> []"
    using cs by auto
  have sorted: "sorted (map cs_start cs)"
    by (simp add: cs_def candles_between_def)
  have win: "\<forall>r \<in> set cs. bucket_window (cs_start r)"
  proof
    fix r
    assume "r \<in> set cs"
    then obtain k where "k \<in> message_key ` set (trades_of ms)" "row_data r = row_data (built p ms k)"
      using same_rows(1)[OF cs, of r] by auto
    then show "bucket_window (cs_start r)"
      using found_fit(2)[OF assms(4,7)] by blast
  qed
  obtain out where out: "ReprojectCandlesticks cs p tick = Ok out" "\<forall>r \<in> set cs. \<exists>c \<in> set out. in_bucket tick (cs_start c) r"
    by (rule reprojected_cover[OF ne sorted win assms(7)])
  have find_out: "FindCandlesticks None s0 e0 p tick (snd (rc_world s)) = (Ok out, snd (rc_world s))"
    using out(1) by (simp add: FindCandlesticks_def statement_def flip: cs_def)
  have cover: "\<exists>c \<in> set out. cs_start c = bucket_of tick (unix_time (message_key m))"
    if m: "m \<in> set (trades_of ms)" "in_query s0 e0 (message_key m)" for m
  proof -
    obtain r where "r \<in> set cs" "row_data r = row_data (built p ms (message_key m))"
      using same_rows(2)[OF cs, of "message_key m"] m by auto
    moreover from this have "cs_start r = unix_time (message_key m)"
      using found_fit(1)[OF assms(4,7)] m(1) by simp
    ultimately show ?thesis
      using out(2) by (metis in_bucket_def)
  qed
  show ?thesis
    using find_out cover found_trades[OF assms(4,3,7) cs ne sorted out(1) _ refl] unfolding Let_def by blast
qed

lemma flush_run:
  assumes "race_run up s0 ms t" and "rc_flusher t = Waiting" and "flushed_buckets (rc_importer t) = [k]"
    and "built_candle k (rc_importer t) = Ok c" and "store_built up c (rc_world t) = (Ok True, w)"
  shows "race_run up s0 ms (t\<lparr>rc_world := w, rc_importer := delete_bucket k (rc_importer t), rc_flusher := Looping []\<rparr>)"
proof -
  have "race_run up s0 ms (t\<lparr>rc_flusher := Looping [k]\<rparr>)"
    using race_step.start[OF assms(2), of up] assms(3) by (metis race_run.one_step[OF assms(1)])
  then have "race_run up s0 ms (t\<lparr>rc_flusher := Built k c []\<rparr>)"
    by (rule race_run.one_step) (use race_step.build[of "t\<lparr>rc_flusher := Looping [k]\<rparr>" k "[]" c up] assms(4) in simp)
  then have "race_run up s0 ms (t\<lparr>rc_world := w, rc_flusher := Stored k []\<rparr>)"
    by (rule race_run.one_step) (use race_step.store[of "t\<lparr>rc_flusher := Built k c []\<rparr>" k c "[]" up True w] assms(5) in simp)
  then show ?thesis
    by (rule race_run.one_step) (use race_step.delete[of "t\<lparr>rc_world := w, rc_flusher := Stored k []\<rparr>" k "[]" up] in simp)
qed

definition two_candles :: "(int \<times> candlestick_builder) list" where
  "two_candles = map (\<lambda>m. (message_key m, ProcessMessage (new_builder ProductBTCUSD m) m)) two_trades"

lemma two_candles_run:
  "race_run up (race_start ProductBTCUSD w) two_trades ((race_start ProductBTCUSD w)\<lparr>rc_importer := \<lparr>ri_product = ProductBTCUSD, ri_candles = two_candles\<rparr>\<rparr>)"
proof -
  let ?s = "race_start ProductBTCUSD w"
  have "rc_reader ?s = Reading"
    by (simp add: race_start_def)
  from run_message[OF race_run.nothing this, of "two_trades ! 0" up]
  obtain i where i: "ProcessExchangeMessage (two_trades ! 0) (rc_importer ?s) = Ok i" "race_run up ?s [two_trades ! 0] (?s\<lparr>rc_importer := i\<rparr>)"
    by auto
  have "rc_reader (?s\<lparr>rc_importer := i\<rparr>) = Reading"
    by (simp add: race_start_def)
  from run_message[OF i(2) this, of "two_trades ! 1"]
  obtain j where j: "ProcessExchangeMessage (two_trades ! 1) i = Ok j" "race_run up ?s ([two_trades ! 0] @ [two_trades ! 1]) (?s\<lparr>rc_importer := j\<rparr>)"
    by auto
  have "j = \<lparr>ri_product = ProductBTCUSD, ri_candles = two_candles\<rparr>"
    using i(1) j(1) by (auto simp: race_start_def NewRealtimeImporter_def process_first two_trades_def two_candles_def)
  then show ?thesis
    using j(2) by (simp add: two_trades_def)
qed

lemma trades_reach_ticks_witness:
  "\<exists>s out. race_run (flaky_upsert (\<lambda>_. False) 7) (race_start ProductBTCUSD (0, empty_db)) two_trades s \<and>
     FindCandlesticks None (base_minute 0) (base_minute 1) ProductBTCUSD 15 (snd (rc_world s)) = (Ok out, snd (rc_world s)) \<and>
     (\<exists>c \<in> set out. cs_start c = bucket_of 15 (base_minute 0))"
proof -
  let ?up = "flaky_upsert (\<lambda>_. False) 7" and ?m = "two_trades ! 0" and ?n = "two_trades ! 1"
  let ?t = "(race_start ProductBTCUSD (0, empty_db))\<lparr>rc_importer := \<lparr>ri_product = ProductBTCUSD, ri_candles = two_candles\<rparr>\<rparr> :: (nat \<times> db) race"
  let ?c = "Build (ProcessMessage (new_builder ProductBTCUSD ?m) ?m)"
  let ?s = "?t\<lparr>rc_world := (1, upsert 7 ?c empty_db), rc_importer := delete_bucket (message_key ?m) (rc_importer ?t),
    rc_flusher := Looping []\<rparr> :: (nat \<times> db) race"
  have keys: "message_key ?m < message_key ?n" "unix_time (message_key ?m) = base_minute 0"
    by (simp_all add: two_trades_def) (simp add: base_minute_def time_unix_def unix_time_def candlestickBaseTime_def)
  have run: "race_run ?up (race_start ProductBTCUSD (0, empty_db)) two_trades ?s"
  proof (rule flush_run[OF two_candles_run])
    show "flushed_buckets (rc_importer ?t) = [message_key ?m]"
      using keys(1) by (simp add: flushed_buckets_def two_candles_def two_trades_def)
    show "built_candle (message_key ?m) (rc_importer ?t) = Ok ?c"
      by (simp add: built_candle_def two_candles_def two_trades_def)
    have "fpos (cs_volume ?c)"
      using round64_int[of 2] by (simp add: two_trades_def fadd_def)
    then show "store_built ?up ?c (rc_world ?t) = (Ok True, (1, upsert 7 ?c empty_db))"
      by (simp add: store_built_def flaky_upsert_def upsert_def UpsertCandlestick_def statement_def race_start_def)
  qed (simp add: race_start_def)
  have "bucket_of 1 (base_minute n) = base_minute n" if "0 \<le> n" for n
    using that by (simp add: bucket_of_def base_minute_def)
  then have timely: "\<forall>m \<in> set two_trades. timely ProductBTCUSD m"
    by (simp add: two_trades_def timely_def base_minute_bucket a_trade_def f64_ok_int[of 1, simplified] f64_ok_int[of 2, simplified])
      (simp add: base_minute_def minute_def)
  have q: "in_query (base_minute 0) (base_minute 1) (message_key ?m)" "\<not> in_query (base_minute 0) (base_minute 1) (message_key ?n)"
    using keys unix_time_le[of "message_key ?n" "message_key ?m"] unfolding in_query_def by (simp_all add: base_minute_def)
  have trades: "trades_of two_trades = two_trades" "set two_trades = {?m, ?n}"
    by (simp_all add: trades_of_def two_trades_def a_trade_def)
  have gone: "map_of (ri_candles (rc_importer ?s)) (message_key ?m) = None"
    by simp
  have "\<exists>out. FindCandlesticks None (base_minute 0) (base_minute 1) ProductBTCUSD 15 (snd (rc_world ?s)) = (Ok out, snd (rc_world ?s)) \<and>
     (\<exists>c \<in> set out. cs_start c = bucket_of 15 (unix_time (message_key ?m)))"
    using trades_reach_ticks[OF run _ two_trades_sorted timely, of 15 "base_minute 0" "base_minute 1"] q trades gone
    by (auto simp: unique_rows_def empty_db_def valid_tick_def race_start_def simp del: delete_bucket_simps)
  then show ?thesis
    unfolding keys(2) using run by (elim exE conjE) (intro exI[of _ ?s] exI conjI)
qed

end
