(* ===== verification/Message_Channel.thy ===== *)
theory Message_Channel
  imports Importers Exchanges
begin

text \<open>
  \<open>GetMessageChan\<close> of \<open>gdax.go\<close>: the goroutine between the websocket and an unbuffered channel, step by
  step, and what the realtime importer does with the channels it is given. The websocket is a parameter.
\<close>

section \<open>Opening the channel\<close>

text \<open>The fields of the client's message that the program reads.\<close>

record coinbase_message =
  cm_type :: string
  cm_product_id :: string
  cm_time :: time
  cm_size :: f64
  cm_price :: f64

record 'w websocket =
  ws_dial :: "(unit, 'w) act"
  ws_write :: "(string \<times> string) list \<Rightarrow> (unit, 'w) act"
  ws_read :: "(coinbase_message, 'w) act"

definition exchange_message_of :: "coinbase_message \<Rightarrow> exchange_message" where
  "exchange_message_of m = \<lparr>em_price = cm_price m, em_product = cm_product_id m, em_size = cm_size m, em_type = cm_type m,
     em_time = cm_time m\<rparr>"

definition subscribe :: "product \<Rightarrow> (string \<times> string) list" where
  "subscribe p = [(''type'', ''subscribe''), (''product_id'', p)]"

text \<open>
  The goroutine is about to look at its context, to read, or to hand a message over, or has returned. The
  channel and the connection can be closed, the context cancelled.
\<close>

datatype feeder = Polling | ReadingSocket | Offering exchange_message | Returned

record 'w feed =
  fd_feeder :: feeder
  fd_channel_closed :: bool
  fd_cancelled :: bool
  fd_connected :: bool
  fd_world :: 'w

definition GetMessageChan :: "'w websocket \<Rightarrow> product \<Rightarrow> 'w \<Rightarrow> 'w feed go_result \<times> 'w" where
  "GetMessageChan ws p =
    bind_act (wrap_act ''error opening websocket connection to GDAX'' (ws_dial ws)) (\<lambda>_.
    bind_act (wrap_act ''error writing to websocket'' (ws_write ws (subscribe p))) (\<lambda>_ w.
      (Ok \<lparr>fd_feeder = Polling, fd_channel_closed = False, fd_cancelled = False, fd_connected = True, fd_world = w\<rparr>, w)))"

text \<open>The steps of the goroutine; with \<open>Some m\<close> the consumer receives \<open>m\<close>. Cancelling is the caller's.\<close>

inductive feed_step :: "'w websocket \<Rightarrow> 'w feed \<Rightarrow> exchange_message option \<Rightarrow> 'w feed \<Rightarrow> bool" for ws where
  go_on: "fd_feeder s = Polling \<Longrightarrow> \<not> fd_cancelled s \<Longrightarrow> feed_step ws s None (s\<lparr>fd_feeder := ReadingSocket\<rparr>)"
| stop: "fd_feeder s = Polling \<Longrightarrow> fd_cancelled s \<Longrightarrow>
    feed_step ws s None (s\<lparr>fd_connected := False, fd_feeder := Returned\<rparr>)"
| read: "fd_feeder s = ReadingSocket \<Longrightarrow> ws_read ws (fd_world s) = (Ok m, w) \<Longrightarrow>
    feed_step ws s None (s\<lparr>fd_world := w, fd_feeder := Offering (exchange_message_of m)\<rparr>)"
| read_fails: "fd_feeder s = ReadingSocket \<Longrightarrow> ws_read ws (fd_world s) = (Err e, w) \<Longrightarrow>
    feed_step ws s None (s\<lparr>fd_world := w, fd_channel_closed := True, fd_feeder := Returned\<rparr>)"
| send: "fd_feeder s = Offering m \<Longrightarrow> feed_step ws s (Some m) (s\<lparr>fd_feeder := Polling\<rparr>)"

text \<open>A run with the messages received, in which the caller may cancel.\<close>

inductive feed_run :: "'w websocket \<Rightarrow> 'w feed \<Rightarrow> exchange_message list \<Rightarrow> 'w feed \<Rightarrow> bool" for ws s where
  no_step: "feed_run ws s [] s"
| inner: "feed_run ws s ms t \<Longrightarrow> feed_step ws t None u \<Longrightarrow> feed_run ws s ms u"
| received: "feed_run ws s ms t \<Longrightarrow> feed_step ws t (Some m) u \<Longrightarrow> feed_run ws s (ms @ [m]) u"
| cancel: "feed_run ws s ms t \<Longrightarrow> feed_run ws s ms (t\<lparr>fd_cancelled := True\<rparr>)"

section \<open>The importer's loop over channels\<close>

text \<open>
  The rounds of \<open>StartProcessingMessages\<close>: each is a channel, with what happens until it is closed, or an
  error, after which the importer sleeps. (A flush during the sleep counts to the next round.)
\<close>

fun StartProcessingMessages :: "(duration \<Rightarrow> 'w \<Rightarrow> 'w) \<Rightarrow> (candlestick \<Rightarrow> (unit, 'w) act) \<Rightarrow> importer_event list go_result list \<Rightarrow>
    (unit, importer \<times> 'w) act" where
  "StartProcessingMessages sleep upsertCandlestick [] s = (Ok (), s)"
| "StartProcessingMessages sleep upsertCandlestick (Ok events # rounds) s =
    bind_act (process_events upsertCandlestick events) (\<lambda>_. StartProcessingMessages sleep upsertCandlestick rounds) s"
| "StartProcessingMessages sleep upsertCandlestick (Err e # rounds) (i, w) =
    StartProcessingMessages sleep upsertCandlestick rounds (i, sleep (5 * second) w)"
| "StartProcessingMessages sleep upsertCandlestick (Panic p # rounds) s = (Panic p, s)"
| "StartProcessingMessages sleep upsertCandlestick (Diverge # rounds) s = (Diverge, s)"

section \<open>What the exchanges do not have\<close>

definition not_implemented :: "('a, 'w) act" where
  "not_implemented = result_act (Panic ''not implemented'')"

definition gdax_EmitsFullCandlesticks :: bool where
  "gdax_EmitsFullCandlesticks = False"

definition kraken_EmitsFullCandlesticks :: bool where
  "kraken_EmitsFullCandlesticks = True"

definition gdax_StreamCandlesticks :: "product \<Rightarrow> (candlestick list, 'w) act" where
  "gdax_StreamCandlesticks p = not_implemented"

definition kraken_GetMessageChan :: "product \<Rightarrow> (importer_event list, 'w) act" where
  "kraken_GetMessageChan p = not_implemented"

definition kraken_GetCandlesticks :: "product \<Rightarrow> time \<Rightarrow> time \<Rightarrow> int \<Rightarrow> (candlestick list, 'w) act" where
  "kraken_GetCandlesticks p start end granularity = not_implemented"

definition kraken_CreateMarketOrder :: "market_order \<Rightarrow> (order_response, 'w) act" where
  "kraken_CreateMarketOrder args = not_implemented"

end
