(* ===== verification/Message_Channel_Specs.thy ===== *)
theory Message_Channel_Specs
  imports Message_Channel Importer_Specs Exchange_Specs
begin

text \<open>
  What the consumer of a channel receives is what the websocket gave, in order; the goroutine closes the
  channel or the connection, never both, and is left behind by every mock order.
\<close>

inductive_cases feed_stepE: "feed_step ws s om t"

section \<open>Delivery\<close>

text \<open>A websocket that gives the messages of a list and then an error.\<close>

definition socket :: "coinbase_message list websocket" where
  "socket = \<lparr>ws_dial = (\<lambda>w. (Ok (), w)), ws_write = (\<lambda>_ w. (Ok (), w)),
     ws_read = (\<lambda>w. case w of m # ms \<Rightarrow> (Ok m, ms) | [] \<Rightarrow> (Err (Errorf ''close 1006''), []))\<rparr>"

definition feed_start :: "'w \<Rightarrow> 'w feed" where
  "feed_start w = \<lparr>fd_feeder = Polling, fd_channel_closed = False, fd_cancelled = False, fd_connected = True, fd_world = w\<rparr>"

lemma GetMessageChan_Ok:
  "fst (GetMessageChan ws p w) = Ok s \<Longrightarrow> \<exists>w1. s = feed_start w1"
  by (auto simp: GetMessageChan_def bind_act_def feed_start_def split: prod.splits go_result.splits)

fun in_hand :: "feeder \<Rightarrow> exchange_message list" where
  "in_hand (Offering m) = [m]"
| "in_hand _ = []"

definition delivery_inv :: "coinbase_message list \<Rightarrow> exchange_message list \<Rightarrow> coinbase_message list feed \<Rightarrow> bool" where
  "delivery_inv ms recv s \<longleftrightarrow> map exchange_message_of ms = recv @ in_hand (fd_feeder s) @ map exchange_message_of (fd_world s) \<and>
     (fd_channel_closed s \<longrightarrow> fd_feeder s = Returned \<and> fd_world s = [])"

lemma delivery_step:
  assumes "feed_step socket s om t" and "delivery_inv ms recv s"
  shows "delivery_inv ms (case om of Some m \<Rightarrow> recv @ [m] | None \<Rightarrow> recv) t"
  using assms(1)
proof cases
  case (read m w)
  then show ?thesis
    using assms(2) by (cases "fd_world s") (auto simp: delivery_inv_def socket_def)
next
  case (read_fails e w)
  then show ?thesis
    using assms(2) by (cases "fd_world s") (auto simp: delivery_inv_def socket_def)
qed (use assms(2) in \<open>auto simp: delivery_inv_def\<close>)

lemma delivery_run: "feed_run socket (feed_start ms) recv t \<Longrightarrow> delivery_inv ms recv t"
proof (induction rule: feed_run.induct)
  case no_step
  then show ?case
    by (simp add: delivery_inv_def feed_start_def)
next
  case (inner recv t u)
  then show ?case
    using delivery_step[OF inner(2,3)] by simp
next
  case (received recv t m u)
  then show ?case
    using delivery_step[OF received(2,3)] by simp
next
  case (cancel recv t)
  then show ?case
    by (simp add: delivery_inv_def)
qed

section \<open>The connection\<close>

text \<open>The connection is open until the goroutine finds its context cancelled; the channel is closed by nothing but a failed read.\<close>

definition connection_inv :: "'w feed \<Rightarrow> bool" where
  "connection_inv s \<longleftrightarrow> (fd_feeder s = Returned \<longleftrightarrow> fd_channel_closed s \<or> \<not> fd_connected s) \<and>
     \<not> (fd_channel_closed s \<and> \<not> fd_connected s) \<and> (\<not> fd_connected s \<longrightarrow> fd_cancelled s)"

lemma connection_step: "feed_step ws s om t \<Longrightarrow> connection_inv s \<Longrightarrow> connection_inv t \<and> fd_cancelled t = fd_cancelled s"
  by (induction rule: feed_step.induct) (auto simp: connection_inv_def)

lemma connection_cancel: "connection_inv s \<Longrightarrow> connection_inv (s\<lparr>fd_cancelled := True\<rparr>)"
  by (simp add: connection_inv_def)

lemma connection_run: "feed_run ws s ms t \<Longrightarrow> connection_inv s \<Longrightarrow> connection_inv t"
  by (induction rule: feed_run.induct) (simp_all add: connection_step connection_cancel)

lemma connection_start: "connection_inv (feed_start w)"
  by (simp add: connection_inv_def feed_start_def)

section \<open>Properties\<close>

text \<open>C29. The channel delivers: what the consumer has received, the message the goroutine may have in hand, and
  what is left in the websocket are, in order, what the websocket gives; when the channel is closed everything
  has been received. And as long as the consumer receives, the goroutine goes on until it returns.\<close>

theorem channel_delivers_in_order:
  assumes "feed_run socket (feed_start ms) recv t"
  shows "map exchange_message_of ms = recv @ in_hand (fd_feeder t) @ map exchange_message_of (fd_world t) \<and>
    (fd_channel_closed t \<longrightarrow> recv = map exchange_message_of ms) \<and>
    (fd_feeder t = Returned \<or> (\<exists>om u. feed_step socket t om u))"
proof -
  have "\<exists>om u. feed_step socket t om u" if "fd_feeder t \<noteq> Returned"
  proof (cases "fd_feeder t")
    case Polling
    then show ?thesis
      using feed_step.go_on feed_step.stop by blast
  next
    case ReadingSocket
    then show ?thesis
      using feed_step.read[of t socket] feed_step.read_fails[of t socket] by (cases "fd_world t") (force simp: socket_def)+
  next
    case (Offering m)
    then show ?thesis
      using feed_step.send by blast
  qed (use that in simp)
  then show ?thesis
    using delivery_run[OF assms] by (auto simp: delivery_inv_def)
qed

lemma run_on: "feed_run ws t ns u \<Longrightarrow> feed_run ws s ms t \<Longrightarrow> feed_run ws s (ms @ ns) u"
proof (induction rule: feed_run.induct)
  case no_step
  then show ?case by simp
next
  case (inner ns u v)
  then show ?case
    by (metis feed_run.inner)
next
  case (received ns u m v)
  then show ?case
    by (metis append_assoc feed_run.received)
next
  case (cancel ns u)
  then show ?case
    by (metis feed_run.cancel)
qed

text \<open>The goroutine never closes both ends: when it returns on a failed read the connection stays open, when on a
  cancelled context the channel does. The program never cancels. So no connection is ever closed; and once a consumer, as
  a mock order does when it has its trade, stops receiving while messages are to come, the goroutine
  never returns.\<close>

theorem connections_are_left_open:
  assumes "feed_run socket (feed_start ms) recv t"
  shows "(fd_feeder t = Returned \<longrightarrow> fd_channel_closed t = fd_connected t) \<and> (\<not> fd_cancelled t \<longrightarrow> fd_connected t) \<and>
    (\<forall>u. feed_run socket t [] u \<longrightarrow> length recv < length ms \<longrightarrow> \<not> fd_cancelled u \<longrightarrow> fd_connected u \<and> fd_feeder u \<noteq> Returned)"
proof (intro conjI allI impI)
  show "fd_channel_closed t = fd_connected t" if "fd_feeder t = Returned"
    using connection_run[OF assms connection_start] that by (auto simp: connection_inv_def)
  show "fd_connected t" if "\<not> fd_cancelled t"
    using connection_run[OF assms connection_start] that by (auto simp: connection_inv_def)
  fix u
  assume u: "feed_run socket t [] u" "length recv < length ms" "\<not> fd_cancelled u"
  have run: "feed_run socket (feed_start ms) recv u"
    using run_on[OF u(1) assms] by simp
  show c: "fd_connected u"
    using connection_run[OF run connection_start] u(3) by (auto simp: connection_inv_def)
  have "\<not> fd_channel_closed u"
    using delivery_run[OF run] u(2) by (auto simp: delivery_inv_def dest!: arg_cong[of _ _ length])
  then show "fd_feeder u \<noteq> Returned"
    using connection_run[OF run connection_start] c by (auto simp: connection_inv_def)
qed

section \<open>A mock order\<close>

definition a_match :: "string \<Rightarrow> coinbase_message" where
  "a_match type = \<lparr>cm_type = type, cm_product_id = ProductBTCUSD, cm_time = 0, cm_size = Fin 1, cm_price = Fin 5\<rparr>"

text \<open>The goroutine reads a message and hands it over.\<close>

lemma deliver_one:
  assumes "feed_run socket s recv t" and "fd_feeder t = Polling" and "\<not> fd_cancelled t" and "fd_world t = m # ms"
  shows "feed_run socket s (recv @ [exchange_message_of m]) (t\<lparr>fd_world := ms\<rparr>)"
proof -
  have "feed_run socket s recv (t\<lparr>fd_feeder := ReadingSocket\<rparr>)"
    by (rule feed_run.inner[OF assms(1) feed_step.go_on[OF assms(2,3)]])
  then have "feed_run socket s recv (t\<lparr>fd_world := ms, fd_feeder := Offering (exchange_message_of m)\<rparr>)"
    by (rule feed_run.inner) (use feed_step.read[of "t\<lparr>fd_feeder := ReadingSocket\<rparr>" socket m ms] assms(4) in \<open>simp add: socket_def\<close>)
  then have "feed_run socket s (recv @ [exchange_message_of m]) (t\<lparr>fd_world := ms, fd_feeder := Polling\<rparr>)"
    by (rule feed_run.received)
      (use feed_step.send[of "t\<lparr>fd_world := ms, fd_feeder := Offering (exchange_message_of m)\<rparr>" "exchange_message_of m" socket] in simp)
  then show ?thesis
    using assms(2) by (cases t) simp
qed

lemma mock_order_run:
  "feed_run socket (feed_start (map a_match [''open'', ''match'', ''done''])) (map (exchange_message_of \<circ> a_match) [''open'', ''match''])
     (feed_start [a_match ''done''])"
proof -
  let ?s = "feed_start (map a_match [''open'', ''match'', ''done''])"
  have "feed_run socket ?s ([] @ [exchange_message_of (a_match ''open'')]) (?s\<lparr>fd_world := map a_match [''match'', ''done'']\<rparr>)"
    by (rule deliver_one[OF feed_run.no_step]) (simp_all add: feed_start_def)
  then have "feed_run socket ?s (([] @ [exchange_message_of (a_match ''open'')]) @ [exchange_message_of (a_match ''match'')])
      (?s\<lparr>fd_world := map a_match [''match'', ''done''], fd_world := [a_match ''done'']\<rparr>)"
    by (rule deliver_one) (simp_all add: feed_start_def)
  then show ?thesis
    by (simp add: feed_start_def)
qed

lemma channel_delivers_in_order_witness:
  "\<exists>om u. feed_step socket (feed_start [a_match ''done'']) om u"
  using channel_delivers_in_order[OF mock_order_run] by (simp add: feed_start_def)

text \<open>The mock order got its trade, and the goroutine is left with the connection.\<close>

lemma connections_are_left_open_witness:
  "is_ok (fake_CreateMarketOrder (Ok (map (exchange_message_of \<circ> a_match) [''open'', ''match''])) ''id''
     \<lparr>mo_product = ProductBTCUSD, mo_side = OrderBuy, mo_cost = Fin 10\<rparr>) \<and>
   \<not> (\<exists>u. feed_run socket (feed_start [a_match ''done'']) [] u \<and> \<not> fd_cancelled u \<and> fd_feeder u = Returned)"
proof
  show "is_ok (fake_CreateMarketOrder (Ok (map (exchange_message_of \<circ> a_match) [''open'', ''match''])) ''id''
     \<lparr>mo_product = ProductBTCUSD, mo_side = OrderBuy, mo_cost = Fin 10\<rparr>)"
    by (simp add: fake_CreateMarketOrder_def exchange_message_of_def a_match_def ProductToMetadata_def deref_def)
  show "\<not> (\<exists>u. feed_run socket (feed_start [a_match ''done'']) [] u \<and> \<not> fd_cancelled u \<and> fd_feeder u = Returned)"
    using connections_are_left_open[OF mock_order_run] by auto
qed

section \<open>The importer's loop\<close>

text \<open>Channels that close and are opened again, or cannot be opened, change nothing: the importer goes on as from one channel.\<close>

lemma rounds_are_one:
  assumes "\<And>d w. sleep d w = w"
  shows "StartProcessingMessages sleep up (map (\<lambda>r. case r of Some es \<Rightarrow> Ok es | None \<Rightarrow> Err e) rounds) s =
    process_events up (concat (map (\<lambda>r. case r of Some es \<Rightarrow> es | None \<Rightarrow> []) rounds)) s"
proof (induction rounds arbitrary: s)
  case (Cons r rounds)
  have app: "process_events up (es @ fs) s = bind_act (process_events up es) (\<lambda>_. process_events up fs) s" for es fs s
  proof (induction es arbitrary: s)
    case (Cons a es)
    then show ?case
      by (cases a; cases s) (auto simp: bind_act_def result_act_def split: prod.splits go_result.splits)
  qed (simp add: bind_act_def)
  show ?case
    using Cons.IH assms by (cases r; cases s) (simp_all add: app bind_act_def split: prod.splits go_result.splits)
qed simp

end
