(* ===== verification/Model_Rows.thy ===== *)
theory Model_Rows
  imports Trading
begin

text \<open>
  The models of \<open>models.go\<close> as the rows that the vendored \<open>go-pg\<close> makes of them: the columns are named
  after the fields, a zero value is left out of an insert and is NULL elsewhere, and NULL reads back as zero. How PostgreSQL
  gives back a number and a time is a parameter; the encoding of texts is not considered.
\<close>

section \<open>The fields of the models\<close>

datatype go_field = GInt int | GUint u64 | GFloat f64 | GString string | GTime time | GBytes string

definition candlestick_fields :: "candlestick \<Rightarrow> (string \<times> go_field) list" where
  "candlestick_fields m = [(''ID'', GInt (cs_id m)), (''CreatedAt'', GTime (cs_created_at m)), (''UpdatedAt'', GTime (cs_updated_at m)),
     (''StartTime'', GTime (cs_start m)), (''EndTime'', GTime (cs_end m)), (''Low'', GFloat (cs_low m)),
     (''High'', GFloat (cs_high m)), (''Open'', GFloat (cs_open m)), (''Close'', GFloat (cs_close m)),
     (''Volume'', GFloat (cs_volume m)), (''Direction'', GString (cs_direction m)), (''Product'', GString (cs_product m))]"

definition order_fields :: "market_order_model \<Rightarrow> (string \<times> go_field) list" where
  "order_fields m = [(''ID'', GInt (mm_id m)), (''CreatedAt'', GTime (mm_created_at m)), (''UpdatedAt'', GTime (mm_updated_at m)),
     (''TradingStrategyID'', GInt (mm_trading_strategy_id m)), (''ExchangeID'', GString (mm_exchange_id m)),
     (''Product'', GString (mm_product m)), (''Side'', GString (mm_side m)), (''Cost'', GFloat (mm_cost m)),
     (''CostCurrency'', GString (mm_cost_currency m)), (''FilledSize'', GFloat (mm_filled_size m)),
     (''SizeCurrency'', GString (mm_size_currency m)), (''Fees'', GFloat (mm_fees m)), (''FeesCurrency'', GString (mm_fees_currency m))]"

definition strategy_fields :: "trading_strategy_model \<Rightarrow> (string \<times> go_field) list" where
  "strategy_fields m = [(''ID'', GInt (tm_id m)), (''CreatedAt'', GTime (tm_created_at m)), (''UpdatedAt'', GTime (tm_updated_at m)),
     (''DeactivatedAt'', GTime (tm_deactivated_at m)), (''LastTickAt'', GTime (tm_last_tick_at m)),
     (''NextTickAt'', GTime (tm_next_tick_at m)), (''Product'', GString (tm_product m)), (''HistoryTicks'', GUint (tm_history_ticks m)),
     (''State'', GString (tm_state m)), (''InitialBudget'', GFloat (tm_initial_budget m)), (''Budget'', GFloat (tm_budget m)),
     (''BudgetCurrency'', GString (tm_budget_currency m)), (''Invested'', GFloat (tm_invested m)),
     (''InvestedCurrency'', GString (tm_invested_currency m)), (''TickSizeMinutes'', GUint (tm_tick_size_minutes m)),
     (''TradingStrategy'', GString (tm_trading_strategy m)), (''TradingStrategyData'', GBytes (tm_data m))]"

text \<open>The hooks, which read the clock.\<close>

definition candlestick_BeforeInsert :: "time \<Rightarrow> candlestick \<Rightarrow> candlestick" where
  "candlestick_BeforeInsert now m = m\<lparr>cs_created_at := now\<rparr>"

definition order_BeforeInsert :: "time \<Rightarrow> market_order_model \<Rightarrow> market_order_model" where
  "order_BeforeInsert now m = m\<lparr>mm_created_at := now\<rparr>"

definition strategy_BeforeInsert :: "time \<Rightarrow> trading_strategy_model \<Rightarrow> trading_strategy_model" where
  "strategy_BeforeInsert now m = m\<lparr>tm_created_at := now\<rparr>"

definition strategy_BeforeUpdate :: "time \<Rightarrow> trading_strategy_model \<Rightarrow> trading_strategy_model" where
  "strategy_BeforeUpdate now m = m\<lparr>tm_updated_at := now\<rparr>"

section \<open>The names of the columns\<close>

definition isUpper :: "char \<Rightarrow> bool" where
  "isUpper c \<longleftrightarrow> 65 \<le> (of_char c :: nat) \<and> (of_char c :: nat) \<le> 90"

definition toLower :: "char \<Rightarrow> char" where
  "toLower c = char_of ((of_char c :: nat) + 32)"

definition Underscore :: "string \<Rightarrow> string" where
  "Underscore s = concat (map (\<lambda>i. let c = s ! i in
     if isUpper c
     then (if 0 < i \<and> i + 1 < length s \<and> (\<not> isUpper (s ! (i - 1)) \<or> \<not> isUpper (s ! (i + 1)))
           then [CHR ''_'', toLower c] else [toLower c])
     else [c]) [0..<length s])"

section \<open>Writing\<close>

text \<open>What stands in a statement: NULL, a literal, or, for a number that is not finite, its bare name.\<close>

datatype sql_value = SNull | SInt int | SFloat f64 | SText string | STime time | SBytes string | SName string

fun isZero :: "go_field \<Rightarrow> bool" where
  "isZero (GInt n) = (n = 0)"
| "isZero (GUint n) = (n = 0)"
| "isZero (GFloat x) = feq x (Fin 0)"
| "isZero (GString s) = (s = [])"
| "isZero (GTime t) = is_zero_time t"
| "isZero (GBytes b) = (b = [])"

fun field_append :: "go_field \<Rightarrow> sql_value" where
  "field_append (GInt n) = SInt n"
| "field_append (GUint n) = SInt (uint n)"
| "field_append (GFloat NaN) = SName ''NaN''"
| "field_append (GFloat PInf) = SName ''+Inf''"
| "field_append (GFloat NInf) = SName ''-Inf''"
| "field_append (GFloat x) = SFloat x"
| "field_append (GString s) = SText (filter (\<lambda>c. c \<noteq> CHR 0x00) s)"
| "field_append (GTime t) = STime t"
| "field_append (GBytes b) = SBytes b"

definition AppendValue :: "go_field \<Rightarrow> sql_value" where
  "AppendValue f = (if isZero f then SNull else field_append f)"

text \<open>The cells of an insert, where \<open>None\<close> is DEFAULT, and those an update sets, which leave out the key.\<close>

definition insert_cells :: "(string \<times> go_field) list \<Rightarrow> (string \<times> sql_value option) list" where
  "insert_cells fs = map (\<lambda>(n, f). (Underscore n, if isZero f then None else Some (field_append f))) fs"

definition update_cells :: "(string \<times> go_field) list \<Rightarrow> (string \<times> sql_value) list" where
  "update_cells fs = filter (\<lambda>(n, v). n \<noteq> ''id'') (map (\<lambda>(n, f). (Underscore n, AppendValue f)) fs)"

section \<open>Reading\<close>

text \<open>
  The value of a column is scanned into a field, of which the kind counts: \<open>pf\<close> and \<open>pt\<close> are what the database gives
  back for a number and a time. A column of another kind than the field, which no table here has, is an error.
\<close>

fun scan_field :: "(f64 \<Rightarrow> f64) \<Rightarrow> (time \<Rightarrow> time) \<Rightarrow> go_field \<Rightarrow> sql_value \<Rightarrow> go_field go_result" where
  "scan_field pf pt (GInt _) SNull = Ok (GInt 0)"
| "scan_field pf pt (GUint _) SNull = Ok (GUint 0)"
| "scan_field pf pt (GFloat _) SNull = Ok (GFloat (Fin 0))"
| "scan_field pf pt (GString _) SNull = Ok (GString [])"
| "scan_field pf pt (GTime _) SNull = Ok (GTime zero_time)"
| "scan_field pf pt (GBytes _) SNull = Ok (GBytes [])"
| "scan_field pf pt (GInt _) (SInt n) =
     (if - (2 ^ 63) \<le> n \<and> n < 2 ^ 63 then Ok (GInt n) else Err (Errorf ''value out of range''))"
| "scan_field pf pt (GUint _) (SInt n) =
     (if n < 0 then Err (Errorf ''invalid syntax'') else if 2 ^ 64 \<le> n then Err (Errorf ''value out of range'') else Ok (GUint (word_of_int n)))"
| "scan_field pf pt (GFloat _) (SFloat x) = Ok (GFloat (pf x))"
| "scan_field pf pt (GString _) (SText s) = Ok (GString s)"
| "scan_field pf pt (GTime _) (STime t) = Ok (GTime (pt t))"
| "scan_field pf pt (GBytes _) (SBytes b) = Ok (GBytes b)"
| "scan_field pf pt _ _ = Err (Errorf ''invalid syntax'')"

definition scan_row :: "(f64 \<Rightarrow> f64) \<Rightarrow> (time \<Rightarrow> time) \<Rightarrow> (string \<times> go_field) list \<Rightarrow> (string \<Rightarrow> sql_value) \<Rightarrow>
    (string \<times> go_field go_result) list" where
  "scan_row pf pt fs row = map (\<lambda>(n, f). (n, scan_field pf pt f (row (Underscore n)))) fs"

end
