(* ===== verification/Model_Row_Specs.thy ===== *)
theory Model_Row_Specs
  imports Model_Rows Migration_Specs
begin

text \<open>
  The models fit the tables the migrations make: which inserts and updates PostgreSQL accepts by the types of the columns,
  and that a row reads back as the model it was made of.
\<close>

section \<open>Tables as PostgreSQL types them\<close>

definition int4 :: "int \<Rightarrow> bool" where
  "int4 n \<longleftrightarrow> - (2 ^ 31) \<le> n \<and> n < 2 ^ 31"

text \<open>A bare name is taken for a column, which there is none of in a list of values.\<close>

fun fits :: "string \<Rightarrow> sql_value \<Rightarrow> bool" where
  "fits ty SNull = (ty \<notin> {''serial'', ''timestamptz NOT NULL''})"
| "fits ty (SInt n) = (ty \<in> {''serial'', ''integer''} \<and> int4 n)"
| "fits ty (SFloat x) = (ty = ''double precision'')"
| "fits ty (SText s) = (ty = ''text'')"
| "fits ty (STime t) = (ty \<in> {''timestamptz'', ''timestamptz NOT NULL''})"
| "fits ty (SBytes b) = (ty = ''bytea'')"
| "fits ty (SName n) = False"

definition fits_cell :: "string \<Rightarrow> sql_value option \<Rightarrow> bool" where
  "fits_cell ty v = (case v of None \<Rightarrow> ty = ''serial'' \<or> fits ty SNull | Some x \<Rightarrow> fits ty x)"

definition column_type :: "sql_table \<Rightarrow> string \<Rightarrow> string option" where
  "column_type t n = map_of (map (\<lambda>c. (col_name c, col_type c)) (tb_columns t)) n"

text \<open>The types of the columns named exist and take the values; the columns left out take their default.\<close>

definition accepts_insert :: "sql_table \<Rightarrow> (string \<times> sql_value option) list \<Rightarrow> bool" where
  "accepts_insert t cells \<longleftrightarrow> distinct (map fst cells) \<and>
     list_all (\<lambda>(n, v). case column_type t n of Some ty \<Rightarrow> fits_cell ty v | None \<Rightarrow> False) cells \<and>
     list_all (\<lambda>c. col_name c \<in> fst ` set cells \<or> fits_cell (col_type c) None) (tb_columns t)"

definition accepts_update :: "sql_table \<Rightarrow> (string \<times> sql_value) list \<Rightarrow> bool" where
  "accepts_update t cells \<longleftrightarrow> distinct (map fst cells) \<and>
     list_all (\<lambda>(n, v). case column_type t n of Some ty \<Rightarrow> fits ty v | None \<Rightarrow> False) cells"

definition accepted :: "nat \<Rightarrow> string \<Rightarrow> (sql_table \<Rightarrow> bool) \<Rightarrow> bool" where
  "accepted n name q = (case schema_at n of Some d \<Rightarrow> (case find_table d name of Some t \<Rightarrow> q t | None \<Rightarrow> False) | None \<Rightarrow> False)"

text \<open>The row an insert makes, with \<open>k\<close> the next number of the sequence.\<close>

definition inserted_row :: "int \<Rightarrow> sql_table \<Rightarrow> (string \<times> sql_value option) list \<Rightarrow> string \<Rightarrow> sql_value" where
  "inserted_row k t cells n =
    (case map_of cells n of
       Some (Some v) \<Rightarrow> v
     | _ \<Rightarrow> if column_type t n = Some ''serial'' then SInt k else SNull)"

section \<open>Columns and fields\<close>

text \<open>A field fits its column: the columns of integers have 32 bits, and a number must be finite.\<close>

fun storable :: "go_field \<Rightarrow> bool" where
  "storable (GInt n) = int4 n"
| "storable (GUint n) = int4 (uint n)"
| "storable (GFloat x) = is_fin x"
| "storable _ = True"

lemma columns_of_fields:
  "Underscore ''ID'' = ''id''" "Underscore ''CreatedAt'' = ''created_at''" "Underscore ''UpdatedAt'' = ''updated_at''"
  "Underscore ''StartTime'' = ''start_time''" "Underscore ''EndTime'' = ''end_time''" "Underscore ''Low'' = ''low''"
  "Underscore ''High'' = ''high''" "Underscore ''Open'' = ''open''" "Underscore ''Close'' = ''close''"
  "Underscore ''Volume'' = ''volume''" "Underscore ''Direction'' = ''direction''" "Underscore ''Product'' = ''product''"
  "Underscore ''TradingStrategyID'' = ''trading_strategy_id''" "Underscore ''ExchangeID'' = ''exchange_id''"
  "Underscore ''Side'' = ''side''" "Underscore ''Cost'' = ''cost''" "Underscore ''CostCurrency'' = ''cost_currency''"
  "Underscore ''FilledSize'' = ''filled_size''" "Underscore ''SizeCurrency'' = ''size_currency''" "Underscore ''Fees'' = ''fees''"
  "Underscore ''FeesCurrency'' = ''fees_currency''" "Underscore ''DeactivatedAt'' = ''deactivated_at''"
  "Underscore ''LastTickAt'' = ''last_tick_at''" "Underscore ''NextTickAt'' = ''next_tick_at''"
  "Underscore ''HistoryTicks'' = ''history_ticks''" "Underscore ''State'' = ''state''" "Underscore ''InitialBudget'' = ''initial_budget''"
  "Underscore ''Budget'' = ''budget''" "Underscore ''BudgetCurrency'' = ''budget_currency''" "Underscore ''Invested'' = ''invested''"
  "Underscore ''InvestedCurrency'' = ''invested_currency''" "Underscore ''TickSizeMinutes'' = ''tick_size_minutes''"
  "Underscore ''TradingStrategy'' = ''trading_strategy''" "Underscore ''TradingStrategyData'' = ''trading_strategy_data''"
  by (simp_all add: Underscore_def Let_def isUpper_def toLower_def upt_rec char_of_def bit_0)

lemma fits_cells:
  "ty \<in> {''serial'', ''integer''} \<Longrightarrow> fits_cell ty (if isZero (GInt n) then None else Some (field_append (GInt n))) \<longleftrightarrow> int4 n"
  "ty = ''integer'' \<Longrightarrow> fits_cell ty (if isZero (GUint w) then None else Some (field_append (GUint w))) \<longleftrightarrow> int4 (uint w)"
  "ty = ''double precision'' \<Longrightarrow>
    fits_cell ty (if isZero (GFloat x) then None else Some (field_append (GFloat x))) \<longleftrightarrow> is_fin x"
  "ty = ''text'' \<Longrightarrow> fits_cell ty (if isZero (GString s) then None else Some (field_append (GString s)))"
  "ty = ''timestamptz'' \<Longrightarrow> fits_cell ty (if isZero (GTime t) then None else Some (field_append (GTime t)))"
  "ty = ''timestamptz NOT NULL'' \<Longrightarrow>
    fits_cell ty (if isZero (GTime t) then None else Some (field_append (GTime t))) \<longleftrightarrow> \<not> is_zero_time t"
  "ty = ''bytea'' \<Longrightarrow> fits_cell ty (if isZero (GBytes b) then None else Some (field_append (GBytes b)))"
  by (auto simp: fits_cell_def int4_def feq_def elim: is_fin.elims)
    (cases x; simp)+

lemma fits_AppendValue:
  "fits ''integer'' (AppendValue (GInt n)) \<longleftrightarrow> int4 n"
  "fits ''integer'' (AppendValue (GUint w)) \<longleftrightarrow> int4 (uint w)"
  "fits ''double precision'' (AppendValue (GFloat x)) \<longleftrightarrow> is_fin x"
  "fits ''text'' (AppendValue (GString s))"
  "fits ''timestamptz'' (AppendValue (GTime t))"
  "fits ''timestamptz NOT NULL'' (AppendValue (GTime t)) \<longleftrightarrow> \<not> is_zero_time t"
  "fits ''bytea'' (AppendValue (GBytes b))"
  by (auto simp: AppendValue_def int4_def feq_def elim: is_fin.elims)
    (cases x; simp)+

section \<open>The tables\<close>

text \<open>From the third migration on the tables stay as they are, but for a key.\<close>

definition candlestick_table :: sql_table where
  "candlestick_table = \<lparr>tb_name = ''candlesticks'', tb_columns = (case candlesticks_up of [CreateTable _ cs] \<Rightarrow> cs) @
     [Column ''created_at'' ''timestamptz'', Column ''updated_at'' ''timestamptz''], tb_rows = []\<rparr>"

definition strategy_table :: sql_table where
  "strategy_table = \<lparr>tb_name = ''trading_strategies'', tb_columns = (case strategies_up of CreateTable _ cs # _ \<Rightarrow> cs), tb_rows = []\<rparr>"

definition order_table :: sql_table where
  "order_table = \<lparr>tb_name = ''market_orders'', tb_columns = (case strategies_up of _ # CreateTable _ cs # _ \<Rightarrow> cs), tb_rows = []\<rparr>"

lemma schema_at_4: "map_option sc_tables (schema_at 4) = Some [candlestick_table, strategy_table, order_table]"
  by code_simp

lemma schema_at_later: "4 \<le> n \<Longrightarrow> schema_at n = schema_at 4"
  by (simp add: schema_at_def migrations_def AddMigration_def)

lemma tables_from_third:
  assumes "3 \<le> n"
  shows "map_option sc_tables (schema_at n) = Some [candlestick_table, strategy_table, order_table]"
proof (cases "n = 3")
  case True
  have "map_option sc_tables (schema_at 3) = Some [candlestick_table, strategy_table, order_table]"
    by code_simp
  then show ?thesis
    using True by simp
next
  case False
  then show ?thesis
    using assms schema_at_4 schema_at_later[of n] by simp
qed

lemma tables_before_third:
  assumes "n < 3"
  shows "\<exists>d. schema_at n = Some d \<and> find_table d ''trading_strategies'' = None \<and> find_table d ''market_orders'' = None \<and>
    (case find_table d ''candlesticks'' of Some t \<Rightarrow> column_type t ''created_at'' = None | None \<Rightarrow> True)"
proof -
  have "list_all (\<lambda>n. case schema_at n of Some d \<Rightarrow> find_table d ''trading_strategies'' = None \<and> find_table d ''market_orders'' = None \<and>
    (case find_table d ''candlesticks'' of Some t \<Rightarrow> column_type t ''created_at'' = None | None \<Rightarrow> True) | None \<Rightarrow> False) [0, 1, 2]"
    by code_simp
  moreover have "n \<in> set [0, 1, 2]"
    using assms by auto
  ultimately show ?thesis
    by (auto simp: list_all_iff split: option.splits)
qed

lemma column_types:
  "tb_columns candlestick_table = [Column ''id'' ''serial'', Column ''start_time'' ''timestamptz'', Column ''end_time'' ''timestamptz'',
      Column ''low'' ''double precision'', Column ''high'' ''double precision'', Column ''open'' ''double precision'',
      Column ''close'' ''double precision'', Column ''volume'' ''double precision'', Column ''direction'' ''text'',
      Column ''product'' ''text'', Column ''created_at'' ''timestamptz'', Column ''updated_at'' ''timestamptz'']"
  "tb_columns strategy_table = (case strategies_up ! 0 of CreateTable _ cs \<Rightarrow> cs)"
  "tb_columns order_table = (case strategies_up ! 1 of CreateTable _ cs \<Rightarrow> cs)"
  by code_simp+

lemma accepted_from_third:
  assumes "3 \<le> n"
  shows "accepted n ''candlesticks'' q = q candlestick_table" "accepted n ''trading_strategies'' q = q strategy_table"
    "accepted n ''market_orders'' q = q order_table"
  using tables_from_third[OF assms]
  by (auto simp: accepted_def find_table_def candlestick_table_def strategy_table_def order_table_def split: option.splits)

section \<open>Which rows are accepted\<close>

lemma candlestick_accepted:
  "accepts_insert candlestick_table (insert_cells (candlestick_fields m)) \<longleftrightarrow> list_all storable (map snd (candlestick_fields m))"
  by (simp add: accepts_insert_def column_type_def column_types insert_cells_def candlestick_fields_def columns_of_fields fits_cells
      del: isZero.simps field_append.simps)

lemma order_accepted:
  "accepts_insert order_table (insert_cells (order_fields m)) \<longleftrightarrow>
    \<not> is_zero_time (mm_created_at m) \<and> list_all storable (map snd (order_fields m))"
  by (auto simp: accepts_insert_def column_type_def column_types strategies_up_def insert_cells_def order_fields_def
      columns_of_fields fits_cells simp del: isZero.simps field_append.simps)

lemma strategy_accepted:
  "accepts_insert strategy_table (insert_cells (strategy_fields m)) \<longleftrightarrow>
    \<not> is_zero_time (tm_created_at m) \<and> list_all storable (map snd (strategy_fields m))"
  by (auto simp: accepts_insert_def column_type_def column_types strategies_up_def insert_cells_def strategy_fields_def
      columns_of_fields fits_cells simp del: isZero.simps field_append.simps)

lemma strategy_update_accepted:
  "accepts_update strategy_table (update_cells (strategy_fields m)) \<longleftrightarrow>
    \<not> is_zero_time (tm_created_at m) \<and> list_all storable (map snd (tl (strategy_fields m)))"
  by (auto simp: accepts_update_def column_type_def column_types strategies_up_def update_cells_def strategy_fields_def
      columns_of_fields fits_AppendValue)

text \<open>C9. The models fit the tables. When its hook has set the time, the insert of a model is accepted from the third
  migration on, and not before, exactly if its 64-bit ids and counts fit the 32 bits of their columns and its numbers are
  finite: NaN and infinities, which the driver writes as bare names, make the statement fail. The update of a strategy needs
  the time it was created at too, so the copy of a model that lacks it cannot be stored.\<close>

theorem models_fit_schema:
  assumes "\<not> is_zero_time now"
  shows "(accepted n ''candlesticks'' (\<lambda>t. accepts_insert t (insert_cells (candlestick_fields (candlestick_BeforeInsert now c)))) \<longleftrightarrow>
      3 \<le> n \<and> int4 (cs_id c) \<and> list_all is_fin [cs_low c, cs_high c, cs_open c, cs_close c, cs_volume c]) \<and>
    (accepted n ''market_orders'' (\<lambda>t. accepts_insert t (insert_cells (order_fields (order_BeforeInsert now r)))) \<longleftrightarrow>
      3 \<le> n \<and> int4 (mm_id r) \<and> int4 (mm_trading_strategy_id r) \<and> list_all is_fin [mm_cost r, mm_filled_size r, mm_fees r]) \<and>
    (accepted n ''trading_strategies'' (\<lambda>t. accepts_insert t (insert_cells (strategy_fields (strategy_BeforeInsert now m)))) \<longleftrightarrow>
      3 \<le> n \<and> int4 (tm_id m) \<and> int4 (uint (tm_history_ticks m)) \<and> int4 (uint (tm_tick_size_minutes m)) \<and>
      list_all is_fin [tm_initial_budget m, tm_budget m, tm_invested m]) \<and>
    (accepted n ''trading_strategies'' (\<lambda>t. accepts_update t (update_cells (strategy_fields (strategy_BeforeUpdate now m)))) \<longleftrightarrow>
      3 \<le> n \<and> \<not> is_zero_time (tm_created_at m) \<and> int4 (uint (tm_history_ticks m)) \<and> int4 (uint (tm_tick_size_minutes m)) \<and>
      list_all is_fin [tm_initial_budget m, tm_budget m, tm_invested m])"
proof (cases "3 \<le> n")
  case True
  then show ?thesis
    unfolding accepted_from_third[OF True] candlestick_accepted order_accepted strategy_accepted strategy_update_accepted
    using assms by (simp add: candlestick_BeforeInsert_def order_BeforeInsert_def strategy_BeforeInsert_def strategy_BeforeUpdate_def
        candlestick_fields_def order_fields_def strategy_fields_def conj_ac)
next
  case False
  then obtain d where d: "schema_at n = Some d" "find_table d ''trading_strategies'' = None" "find_table d ''market_orders'' = None"
    "case find_table d ''candlesticks'' of Some t \<Rightarrow> column_type t ''created_at'' = None | None \<Rightarrow> True"
    using tables_before_third[of n] by auto
  have "\<not> accepts_insert t (insert_cells (candlestick_fields c))" if "column_type t ''created_at'' = None" for t c
    using that by (simp add: accepts_insert_def insert_cells_def candlestick_fields_def columns_of_fields)
  then show ?thesis
    using False d by (simp add: accepted_def split: option.splits)
qed

text \<open>A field that comes back as it was: the parameters keep it, a number is no negative zero, a text has no NUL.\<close>

fun kept :: "(f64 \<Rightarrow> f64) \<Rightarrow> (time \<Rightarrow> time) \<Rightarrow> go_field \<Rightarrow> bool" where
  "kept pf pt (GInt n) = int4 n"
| "kept pf pt (GUint n) = int4 (uint n)"
| "kept pf pt (GFloat x) = (is_fin x \<and> x \<noteq> NZero \<and> pf x = x)"
| "kept pf pt (GString s) = (CHR 0x00 \<notin> set s)"
| "kept pf pt (GTime t) = (pt t = t)"
| "kept pf pt (GBytes b) = True"

fun like_kind :: "go_field \<Rightarrow> go_field \<Rightarrow> bool" where
  "like_kind (GInt _) (GInt _) = True"
| "like_kind (GUint _) (GUint _) = True"
| "like_kind (GFloat _) (GFloat _) = True"
| "like_kind (GString _) (GString _) = True"
| "like_kind (GTime _) (GTime _) = True"
| "like_kind (GBytes _) (GBytes _) = True"
| "like_kind _ _ = False"

lemma filter_keeps: "CHR 0x00 \<notin> set s \<Longrightarrow> filter (\<lambda>c. c \<noteq> CHR 0x00) s = s"
  by (induction s) auto

lemma scan_appended:
  assumes "kept pf pt f" and "like_kind g f"
  shows "scan_field pf pt g (field_append f) = Ok f" and "isZero f \<Longrightarrow> scan_field pf pt g SNull = Ok f"
proof -
  show "scan_field pf pt g (field_append f) = Ok f"
    using assms
  proof (cases f)
    case (GUint w)
    then show ?thesis
      using assms uint_lt2p[of w] by (cases g) (auto simp: not_less)
  next
    case (GFloat x)
    then show ?thesis
      using assms by (cases g; cases x) auto
  qed (cases g; auto simp: int4_def filter_keeps)+
  show "scan_field pf pt g SNull = Ok f" if "isZero f"
    using assms that
  proof (cases f)
    case (GFloat x)
    then show ?thesis
      using assms that by (cases g; cases x) (auto simp: feq_def)
  qed (cases g; auto simp: is_zero_time_def)+
qed

lemma cell_of_field:
  assumes "distinct (map (\<lambda>(n, f). Underscore n) fs)" and "(n, f) \<in> set fs"
  shows "map_of (insert_cells fs) (Underscore n) = Some (if isZero f then None else Some (field_append f))"
proof (rule map_of_is_SomeI)
  have "map fst (insert_cells fs) = map (\<lambda>(n, f). Underscore n) fs"
    by (auto simp: insert_cells_def)
  then show "distinct (map fst (insert_cells fs))"
    using assms(1) by simp
  show "(Underscore n, if isZero f then None else Some (field_append f)) \<in> set (insert_cells fs)"
    using assms(2) by (force simp: insert_cells_def)
qed

lemma field_reads_back:
  assumes "distinct (map (\<lambda>(n, f). Underscore n) fs)" and "(n, f) \<in> set fs" and "kept pf pt f" and "like_kind g f" and "int4 k"
    and "column_type t (Underscore n) = Some ''serial'' \<longrightarrow> (\<exists>i. f = GInt i)"
  shows "scan_field pf pt g (inserted_row k t (insert_cells fs) (Underscore n)) =
    Ok (if isZero f \<and> column_type t (Underscore n) = Some ''serial'' then GInt k else f)"
  using assms scan_appended[OF assms(3,4)]
  by (cases g) (auto simp: inserted_row_def cell_of_field int4_def)

lemma row_reads_back:
  assumes "distinct (map (\<lambda>(n, f). Underscore n) fs)" and "list_all (kept pf pt) (map snd fs)" and "int4 k"
    and "list_all2 (\<lambda>g f. fst g = fst f \<and> like_kind (snd g) (snd f)) gs fs"
    and "list_all (\<lambda>(n, f). column_type t (Underscore n) = Some ''serial'' \<longrightarrow> (\<exists>i. f = GInt i)) fs"
  shows "scan_row pf pt gs (inserted_row k t (insert_cells fs)) =
    map (\<lambda>(n, f). (n, Ok (if isZero f \<and> column_type t (Underscore n) = Some ''serial'' then GInt k else f))) fs"
  unfolding scan_row_def
proof (rule nth_equalityI)
  show "length (map (\<lambda>(n, f). (n, scan_field pf pt f (inserted_row k t (insert_cells fs) (Underscore n)))) gs) =
    length (map (\<lambda>(n, f). (n, Ok (if isZero f \<and> column_type t (Underscore n) = Some ''serial'' then GInt k else f))) fs)"
    using list_all2_lengthD[OF assms(4)] by simp
next
  fix i
  assume "i < length (map (\<lambda>(n, f). (n, scan_field pf pt f (inserted_row k t (insert_cells fs) (Underscore n)))) gs)"
  then have i: "i < length fs" "i < length gs"
    using list_all2_lengthD[OF assms(4)] by simp_all
  obtain n f g where nf: "fs ! i = (n, f)" "gs ! i = (n, g)" "like_kind g f"
    using list_all2_nthD2[OF assms(4) i(1)] by (cases "fs ! i"; cases "gs ! i") auto
  then have "(n, f) \<in> set fs"
    using nth_mem[OF i(1)] by simp
  then show "map (\<lambda>(n, f). (n, scan_field pf pt f (inserted_row k t (insert_cells fs) (Underscore n)))) gs ! i =
    map (\<lambda>(n, f). (n, Ok (if isZero f \<and> column_type t (Underscore n) = Some ''serial'' then GInt k else f))) fs ! i"
    using i nf field_reads_back[OF assms(1) \<open>(n, f) \<in> set fs\<close> _ nf(3) assms(3)] assms(2,5)
    by (fastforce simp: list_all_iff)
qed

text \<open>C37. A row reads back as the model it was made of. If its numbers are finite and the database gives back its numbers and
  times, then scanning the inserted row of a model gives each field its value again, with the number of the sequence as
  the id of a model that had none: zeros are stored as NULL and read as zeros, and a strategy is active for the
  query that asks for a NULL time of deactivation exactly if it has the zero time.\<close>

theorem rows_read_back:
  assumes "int4 k"
  shows "(list_all (kept pf pt) (map snd (candlestick_fields c)) \<longrightarrow>
      scan_row pf pt (candlestick_fields c0) (inserted_row k candlestick_table (insert_cells (candlestick_fields c))) =
        map (apsnd Ok) (candlestick_fields (c\<lparr>cs_id := if cs_id c = 0 then k else cs_id c\<rparr>))) \<and>
    (list_all (kept pf pt) (map snd (order_fields r)) \<longrightarrow>
      scan_row pf pt (order_fields r0) (inserted_row k order_table (insert_cells (order_fields r))) =
        map (apsnd Ok) (order_fields (r\<lparr>mm_id := if mm_id r = 0 then k else mm_id r\<rparr>))) \<and>
    (list_all (kept pf pt) (map snd (strategy_fields m)) \<longrightarrow>
      scan_row pf pt (strategy_fields m0) (inserted_row k strategy_table (insert_cells (strategy_fields m))) =
        map (apsnd Ok) (strategy_fields (m\<lparr>tm_id := if tm_id m = 0 then k else tm_id m\<rparr>))) \<and>
    (inserted_row k strategy_table (insert_cells (strategy_fields m)) ''deactivated_at'' = SNull \<longleftrightarrow>
      is_zero_time (tm_deactivated_at m))"
proof (intro conjI impI)
  assume "list_all (kept pf pt) (map snd (candlestick_fields c))"
  then show "scan_row pf pt (candlestick_fields c0) (inserted_row k candlestick_table (insert_cells (candlestick_fields c))) =
        map (apsnd Ok) (candlestick_fields (c\<lparr>cs_id := if cs_id c = 0 then k else cs_id c\<rparr>))"
    using assms by (subst row_reads_back)
      (simp_all add: candlestick_fields_def columns_of_fields column_type_def column_types)
next
  assume "list_all (kept pf pt) (map snd (order_fields r))"
  then show "scan_row pf pt (order_fields r0) (inserted_row k order_table (insert_cells (order_fields r))) =
        map (apsnd Ok) (order_fields (r\<lparr>mm_id := if mm_id r = 0 then k else mm_id r\<rparr>))"
    using assms by (subst row_reads_back)
      (simp_all add: order_fields_def columns_of_fields column_type_def column_types strategies_up_def)
next
  assume "list_all (kept pf pt) (map snd (strategy_fields m))"
  then show "scan_row pf pt (strategy_fields m0) (inserted_row k strategy_table (insert_cells (strategy_fields m))) =
        map (apsnd Ok) (strategy_fields (m\<lparr>tm_id := if tm_id m = 0 then k else tm_id m\<rparr>))"
    using assms by (subst row_reads_back)
      (simp_all add: strategy_fields_def columns_of_fields column_type_def column_types strategies_up_def)
next
  show "inserted_row k strategy_table (insert_cells (strategy_fields m)) ''deactivated_at'' = SNull \<longleftrightarrow>
      is_zero_time (tm_deactivated_at m)"
    by (simp add: inserted_row_def column_type_def column_types strategies_up_def insert_cells_def strategy_fields_def columns_of_fields)
qed

definition stored_example :: trading_strategy_model where
  "stored_example = \<lparr>tm_id = 0, tm_created_at = 0, tm_updated_at = zero_time, tm_deactivated_at = zero_time, tm_last_tick_at = zero_time,
     tm_next_tick_at = minute, tm_product = ProductBTCUSD, tm_history_ticks = 1000, tm_state = StrategyStateTryingToBuy,
     tm_initial_budget = Fin 100, tm_budget = Fin 100, tm_budget_currency = ''USD'', tm_invested = Fin 0, tm_invested_currency = ''BTC'',
     tm_tick_size_minutes = 15, tm_trading_strategy = ''s1'', tm_data = ''data''\<rparr>"

theorem models_fit_schema_witness:
  "accepted 4 ''trading_strategies'' (\<lambda>t. accepts_insert t (insert_cells (strategy_fields (strategy_BeforeInsert 0 stored_example)))) \<and>
   \<not> accepted 4 ''trading_strategies'' (\<lambda>t. accepts_insert t (insert_cells (strategy_fields (strategy_BeforeInsert 0
       (stored_example\<lparr>tm_budget := NaN\<rparr>))))) \<and>
   \<not> accepted 4 ''trading_strategies'' (\<lambda>t. accepts_insert t (insert_cells (strategy_fields (strategy_BeforeInsert 0
       (stored_example\<lparr>tm_tick_size_minutes := 2 ^ 31\<rparr>)))))"
  using models_fit_schema[of 0 4 zero_candlestick _ stored_example] models_fit_schema[of 0 4 zero_candlestick _ "stored_example\<lparr>tm_budget := NaN\<rparr>"]
    models_fit_schema[of 0 4 zero_candlestick _ "stored_example\<lparr>tm_tick_size_minutes := 2 ^ 31\<rparr>"]
  by (simp add: stored_example_def int4_def is_zero_time_def zero_time_def)

theorem rows_read_back_witness:
  "scan_row (\<lambda>x. x) (\<lambda>t. t) (strategy_fields stored_example) (inserted_row 7 strategy_table (insert_cells (strategy_fields stored_example))) =
     map (apsnd Ok) (strategy_fields (stored_example\<lparr>tm_id := 7\<rparr>))"
proof -
  have "list_all (kept (\<lambda>x. x) (\<lambda>t. t)) (map snd (strategy_fields stored_example))" and "tm_id stored_example = 0"
    by (simp_all add: stored_example_def strategy_fields_def int4_def)
  then show ?thesis
    using rows_read_back[of 7 "\<lambda>x. x" "\<lambda>t. t" zero_candlestick zero_candlestick _ _ stored_example stored_example]
    by (simp add: int4_def)
qed

end
