(* ===== verification/Notifications.thy ===== *)
theory Notifications
  imports Bot Results_CSV "HOL-Library.AList"
begin

text \<open>
  \<open>slack_notifier.go\<close> and the messages of \<open>strategy.go\<close>, \<open>bot.go\<close> and the EMA crossover strategy: the tick of a
  strategy with the messages it posts. The client of the chat service is a parameter that acts on the world; the verb
  \<open>%v\<close> and the order in which a Go map is walked are parameters too.
\<close>

section \<open>The notifier\<close>

record attachment =
  at_title :: string
  at_text :: string
  at_color :: string

record post_parameters =
  pp_as_user :: bool
  pp_attachments :: "attachment list"

record 'w slack_notifier =
  sn_trades_channel :: string
  sn_data_channel :: string
  sn_client :: "string \<Rightarrow> string \<Rightarrow> post_parameters \<Rightarrow> (unit, 'w) act"

definition NewSlackNotifier :: "string \<Rightarrow> string \<Rightarrow> (string \<Rightarrow> string \<Rightarrow> post_parameters \<Rightarrow> (unit, 'w) act) \<Rightarrow> 'w slack_notifier" where
  "NewSlackNotifier trades data client = \<lparr>sn_trades_channel = trades, sn_data_channel = data, sn_client = client\<rparr>"

text \<open>An error of the client is log_error.\<close>

definition log_error :: "(unit, 'w) act \<Rightarrow> (unit, 'w) act" where
  "log_error a w = (case a w of (Err e, w1) \<Rightarrow> (Ok (), w1) | r \<Rightarrow> r)"

definition post_params :: "post_parameters list \<Rightarrow> post_parameters" where
  "post_params params = (case params of [] \<Rightarrow> \<lparr>pp_as_user = True, pp_attachments = []\<rparr> | p # _ \<Rightarrow> p)"

definition PostTradesSlackMessage :: "'w slack_notifier option \<Rightarrow> string \<Rightarrow> post_parameters list \<Rightarrow> (unit, 'w) act" where
  "PostTradesSlackMessage slackNotifier txt params =
    (case slackNotifier of
       None \<Rightarrow> result_act (Ok ())
     | Some n \<Rightarrow> log_error (sn_client n (sn_trades_channel n) txt (post_params params)))"

definition PostDataSlackMessage :: "'w slack_notifier option \<Rightarrow> string \<Rightarrow> post_parameters list \<Rightarrow> (unit, 'w) act" where
  "PostDataSlackMessage slackNotifier txt params =
    (case slackNotifier of
       None \<Rightarrow> result_act (Ok ())
     | Some n \<Rightarrow> log_error (sn_client n (sn_data_channel n) txt (post_params params)))"

definition attached_message :: "string \<Rightarrow> string \<Rightarrow> string \<Rightarrow> post_parameters" where
  "attached_message title txt color =
     \<lparr>pp_as_user = True, pp_attachments = [\<lparr>at_title = title, at_text = txt, at_color = color\<rparr>]\<rparr>"

section \<open>The texts\<close>

fun strategy_String :: "strategy \<Rightarrow> string" where
  "strategy_String (SEMACrossover e) = ''EMA Crossover: short period: '' @ show_u64 (eco_ShortPeriod e) @
     '', long period: '' @ show_u64 (eco_LongPeriod e) @ '', up threshold: '' @ show_float (eco_UpThreshold e) @
     '', down threshold '' @ show_float (eco_DownThreshold e)"
| "strategy_String (SRSI e) = ''RSIStrategy-p('' @ show_u64 (rs_Period e) @ '')-('' @ show_float (rs_BuyThreshold e) @
     '')-('' @ show_float (rs_SellThreshold e) @ '')''"
| "strategy_String (SS1 s) = ''S1: ema short period: '' @ show_u64 (s1_EMAShortPeriod s) @
     '', ema long period: '' @ show_u64 (s1_EMALongPeriod s) @ '', ema up threshold: '' @ show_float (s1_EMAUpThreshold s) @
     '', ema down threshold: '' @ show_float (s1_EMADownThreshold s) @
     '', rsi entrance threshold: '' @ show_float (s1_RSIEntranceThreshold s) @
     '', rsi exit threshold: '' @ show_float (s1_RSIExitThreshold s)"

definition orderStrategy_String :: string where
  "orderStrategy_String = ''MarketOrderStrategy''"

text \<open>\<open>%d\<close> of a signed integer.\<close>

definition show_d :: "int \<Rightarrow> string" where
  "show_d n = (if n < 0 then ''-'' else []) @ show_nat (nat \<bar>n\<bar>)"

text \<open>What the messages about an order have in common, with the cost in its currency and the price that follows.\<close>

definition order_message :: "string \<Rightarrow> trading_strategy_model \<Rightarrow> strategy \<Rightarrow> perform_order_response \<Rightarrow> string \<Rightarrow> f64 \<Rightarrow> f64 \<Rightarrow> string" where
  "order_message side m s response currency cost implied =
     ''Type: '' @ side @ [newline] @
     ''Product: '' @ tm_product m @ [newline] @
     ''Strategy ID: '' @ show_d (tm_id m) @ [newline] @
     ''Strategy type: '' @ strategy_String s @ [newline] @
     ''Order strategy: '' @ orderStrategy_String @ [newline] @
     ''Tick size (minutes): '' @ show_u64 (tm_tick_size_minutes m) @ [newline] @
     ''Size ('' @ pr_filled_size_currency response @ ''): '' @ show_float (pr_filled_size response) @ [newline] @
     ''Cost ('' @ currency @ ''): '' @ show_float cost @ [newline] @
     ''Fees ('' @ pr_fees_currency response @ ''): '' @ show_float (pr_fees response) @ [newline] @
     ''Implied price ('' @ tm_budget_currency m @ ''): '' @ show_float implied"

definition buy_message :: "trading_strategy_model \<Rightarrow> strategy \<Rightarrow> perform_order_response \<Rightarrow> f64 \<Rightarrow> string" where
  "buy_message m s response initialBudget =
     order_message OrderBuy m s response (tm_budget_currency m) initialBudget (fdiv initialBudget (pr_filled_size response))"

definition sell_message :: "trading_strategy_model \<Rightarrow> strategy \<Rightarrow> perform_order_response \<Rightarrow> f64 \<Rightarrow> string" where
  "sell_message m s response initialInvested =
     order_message OrderSell m s response (tm_invested_currency m) initialInvested (fdiv (pr_filled_size response) initialInvested) @
       [newline] @ ''Current profit %: '' @
       show_float (fdiv (fmul (Fin 100) (fsub (pr_filled_size response) (tm_initial_budget m))) (tm_initial_budget m))"

definition deactivation_message :: "trading_strategy_model \<Rightarrow> strategy \<Rightarrow> string" where
  "deactivation_message m s =
     ''ID: '' @ show_d (tm_id m) @ [newline] @
     ''Type: '' @ strategy_String s @ [newline] @
     ''Reason: budget '' @ show_float (tm_budget m) @ '' '' @ tm_budget_currency m @ '' fell below minimum proportion '' @
       show_float minimumBudgetProportion"

definition no_data_message :: "trading_strategy_model \<Rightarrow> strategy \<Rightarrow> string" where
  "no_data_message m s =
     ''ID: '' @ show_d (tm_id m) @ [newline] @
     ''Type: '' @ strategy_String s @ [newline] @
     ''Reason: not enough data''"

section \<open>The values of a tick\<close>

record formats =
  fm_walk :: "(string \<times> f64) list \<Rightarrow> (string \<times> f64) list"
  fm_verb_v :: "f64 \<Rightarrow> string"

definition data_message :: "formats \<Rightarrow> strategy \<Rightarrow> trading_strategy_model \<Rightarrow> (string \<times> f64) list \<Rightarrow> string" where
  "data_message fm s ts meta =
     foldl (\<lambda>message (key, value). message @ [newline] @ key @ '': '' @ fm_verb_v fm value)
       (''Strategy: '' @ strategy_String s @ [newline] @
        ''ID: '' @ show_d (tm_id ts) @ [newline] @
        ''State: '' @ tm_state ts @ [newline] @
        ''Product: '' @ tm_product ts)
       (fm_walk fm meta)"

definition PostStrategyDataToSlack :: "formats \<Rightarrow> 'w slack_notifier option \<Rightarrow> strategy \<Rightarrow> trading_strategy_model \<Rightarrow>
    (string \<times> f64) list \<Rightarrow> (unit, 'w) act" where
  "PostStrategyDataToSlack fm nt s ts meta =
     PostDataSlackMessage nt [] [attached_message ''Tick'' (data_message fm s ts meta) ''#b942f4'']"

text \<open>The map of names to values, once \<open>eco_signal\<close> has found them: of equal names the last one counts.\<close>

definition eco_meta :: "history \<Rightarrow> int \<Rightarrow> (string \<times> f64) list" where
  "eco_meta history current =
    (case values_at history current of
       Ok vs \<Rightarrow> foldl (\<lambda>al v. case v of Some iv \<Rightarrow> AList.update (iv_name iv) (iv_value iv) al | None \<Rightarrow> al) [] (take 3 vs)
     | _ \<Rightarrow> [])"

fun Buy_posting :: "formats \<Rightarrow> 'w slack_notifier option \<Rightarrow> strategy \<Rightarrow> trading_strategy_model \<Rightarrow> history \<Rightarrow> int \<Rightarrow> (bool, 'w) act" where
  "Buy_posting fm nt (SEMACrossover e) m history current =
     bind_act (result_act (eco_signal e history current)) (\<lambda>dema.
     bind_act (PostStrategyDataToSlack fm nt (SEMACrossover e) m (eco_meta history current)) (\<lambda>_.
       result_act (Ok (flt (eco_UpThreshold e) dema))))"
| "Buy_posting fm nt s m history current = result_act (Buy s history current)"

fun Sell_posting :: "formats \<Rightarrow> 'w slack_notifier option \<Rightarrow> strategy \<Rightarrow> trading_strategy_model \<Rightarrow> history \<Rightarrow> int \<Rightarrow> (bool, 'w) act" where
  "Sell_posting fm nt (SEMACrossover e) m history current =
     bind_act (result_act (eco_signal e history current)) (\<lambda>dema.
     bind_act (PostStrategyDataToSlack fm nt (SEMACrossover e) m (eco_meta history current)) (\<lambda>_.
       result_act (Ok (flt dema (eco_DownThreshold e)))))"
| "Sell_posting fm nt s m history current = result_act (Sell s history current)"

section \<open>The engine with its messages\<close>

definition TryBuy_posting :: "formats \<Rightarrow> 'w slack_notifier option \<Rightarrow> 'w services \<Rightarrow> trading_strategy \<Rightarrow> (unit, trading_strategy_model \<times> 'w) act" where
  "TryBuy_posting fm nt sv t =
    bind_act get_model (\<lambda>m.
    bind_act (result_act (wrap_err ''error validating indicator sets''
      (ValidateIndicatorSets (sint (tm_history_ticks m)) (ts_current t) (ts_sets t)))) (\<lambda>_.
    bind_act (on_world (wrap_act ''error using strategy'' (Buy_posting fm nt (ts_strategy t) m (ts_sets t) (ts_current t)))) (\<lambda>buy.
    if buy then
      bind_act (on_world (wrap_act ''error performing buy order''
        (PerformOrder sv (order_args m OrderBuy (tm_budget m))))) (\<lambda>response.
      let m1 = m\<lparr>tm_invested := TruncateFloat (pr_filled_size response) tradeCurrencyPrecision,
                 tm_budget := Fin 0, tm_state := StrategyStateTryingToSell\<rparr>
      in bind_act (put_model m1) (\<lambda>_.
         bind_act (on_world (wrap_act ''error updating trading strategy model in database'' (sv_update_strategy sv m1))) (\<lambda>_.
         on_world (PostTradesSlackMessage nt []
           [attached_message ''Market Order'' (buy_message m1 (ts_strategy t) response (tm_budget m)) ''#2afc43'']))))
    else result_act (Ok ()))))"

definition TrySell_posting :: "formats \<Rightarrow> 'w slack_notifier option \<Rightarrow> 'w services \<Rightarrow> trading_strategy \<Rightarrow> (unit, trading_strategy_model \<times> 'w) act" where
  "TrySell_posting fm nt sv t =
    bind_act get_model (\<lambda>m.
    bind_act (result_act (wrap_err ''error validating indicator sets''
      (ValidateIndicatorSets (sint (tm_history_ticks m)) (ts_current t) (ts_sets t)))) (\<lambda>_.
    bind_act (on_world (wrap_act ''error using strategy'' (Sell_posting fm nt (ts_strategy t) m (ts_sets t) (ts_current t)))) (\<lambda>sell.
    if sell then
      bind_act (on_world (wrap_act ''error performing sell order''
        (PerformOrder sv (order_args m OrderSell (tm_invested m))))) (\<lambda>response.
      let m1 = m\<lparr>tm_invested := Fin 0,
                 tm_budget := TruncateFloat (pr_filled_size response) tradeCurrencyPrecision,
                 tm_state := StrategyStateTryingToBuy\<rparr>
      in bind_act (put_model m1) (\<lambda>_.
         bind_act (on_world (wrap_act ''error updating ema crossover model in database'' (sv_update_strategy sv m1))) (\<lambda>_.
         bind_act (on_world (PostTradesSlackMessage nt []
           [attached_message ''Market Order'' (sell_message m1 (ts_strategy t) response (tm_invested m)) ''#4286f4''])) (\<lambda>_.
         if flt (fdiv (tm_budget m1) (tm_initial_budget m1)) minimumBudgetProportion then
           bind_act (on_world (PostTradesSlackMessage nt []
             [attached_message ''Strategy Deactivated'' (deactivation_message m1 (ts_strategy t)) ''#ff5c3f''])) (\<lambda>_.
           bind_act (on_world (\<lambda>w. case sv_now sv w of (now, w1) \<Rightarrow> (Ok now, w1))) (\<lambda>now.
           let m2 = m1\<lparr>tm_deactivated_at := now\<rparr>
           in bind_act (put_model m2) (\<lambda>_.
              on_world (wrap_act ''error updating strategy after deactivating'' (sv_update_strategy sv m2)))))
         else result_act (Ok ())))))
    else result_act (Ok ()))))"

definition ProcessTick_posting :: "formats \<Rightarrow> 'w slack_notifier option \<Rightarrow> 'w services \<Rightarrow> trading_strategy \<Rightarrow> (unit, trading_strategy_model \<times> 'w) act" where
  "ProcessTick_posting fm nt sv t =
    bind_act get_model (\<lambda>m.
    if tm_state m = StrategyStateTryingToBuy then wrap_act ''error trying to buy'' (TryBuy_posting fm nt sv t)
    else if tm_state m = StrategyStateTryingToSell then wrap_act ''error trying to sell'' (TrySell_posting fm nt sv t)
    else result_act (Err (Errorf ''error: unknown strategy state'')))"

section \<open>The bot with its messages\<close>

definition run_service_posting :: "formats \<Rightarrow> 'w slack_notifier option \<Rightarrow> 'w services \<Rightarrow>
    (unit go_result, (trading_strategy_model \<times> trading_strategy) \<times> 'w) act" where
  "run_service_posting fm nt sv st =
    (case st of ((m, s), w) \<Rightarrow> case ProcessTick_posting fm nt sv s (m, w) of (r, (m1, w1)) \<Rightarrow> (Ok r, ((m1, s), w1)))"

definition finish_tick_posting :: "'w slack_notifier option \<Rightarrow> 'w services \<Rightarrow> time \<Rightarrow> unit go_result \<Rightarrow>
    (unit, (trading_strategy_model \<times> trading_strategy) \<times> 'w) act" where
  "finish_tick_posting nt sv t r =
    bind_act get_model (\<lambda>(m, s).
    case r of
      Err e \<Rightarrow>
        if cause e = ErrNotEnoughData then
          bind_act (save_model sv (m\<lparr>tm_deactivated_at := t\<rparr>)) (\<lambda>_.
          on_world (PostTradesSlackMessage nt []
            [attached_message ''Strategy Deactivated'' (no_data_message m (ts_strategy s)) ''#ff5c3f'']))
        else result_act (Err (Wrapf e ''error processing strategy tick''))
    | Ok _ \<Rightarrow>
        bind_act (result_act (nextTickAt m t)) (\<lambda>nxt.
        save_model sv (m\<lparr>tm_last_tick_at := t, tm_next_tick_at := nxt\<rparr>))
    | Panic p \<Rightarrow> result_act (Panic p)
    | Diverge \<Rightarrow> result_act Diverge)"

definition processTick_posting :: "formats \<Rightarrow> 'w slack_notifier option \<Rightarrow> 'w services \<Rightarrow> time \<Rightarrow>
    (unit, (trading_strategy_model \<times> trading_strategy) \<times> 'w) act" where
  "processTick_posting fm nt sv t =
    bind_act get_model (\<lambda>(m, s).
    bind_act (result_act (seeds_first m s t)) (\<lambda>seed.
    bind_act (if seed then seed_service sv t else result_act (Ok ())) (\<lambda>_.
    bind_act (run_service_posting fm nt sv) (finish_tick_posting nt sv t))))"

fun tick_loop_posting :: "formats \<Rightarrow> 'w slack_notifier option \<Rightarrow> 'w services \<Rightarrow> time \<Rightarrow>
    (trading_strategy_model \<times> trading_strategy) list \<Rightarrow> 'w \<Rightarrow> unit go_result \<times> (trading_strategy_model \<times> trading_strategy) list \<times> 'w" where
  "tick_loop_posting fm nt sv t [] w = (Ok (), [], w)"
| "tick_loop_posting fm nt sv t (ms # rest) w =
    (if due (fst ms) t then
       (case processTick_posting fm nt sv t (ms, w) of
          (Ok _, (ms1, w1)) \<Rightarrow> (case tick_loop_posting fm nt sv t rest w1 of (r, rest1, w2) \<Rightarrow> (r, ms1 # rest1, w2))
        | (r, (ms1, w1)) \<Rightarrow> (wrap_err ''error processing tick for strategy'' r, ms1 # rest, w1))
     else (case tick_loop_posting fm nt sv t rest w of (r, rest1, w2) \<Rightarrow> (r, ms # rest1, w2)))"

definition tick_bot_posting :: "formats \<Rightarrow> 'w slack_notifier option \<Rightarrow> 'w services \<Rightarrow> time \<Rightarrow> (unit, bot \<times> 'w) act" where
  "tick_bot_posting fm nt sv t = (\<lambda>(b, w).
     case tick_loop_posting fm nt sv t (zip (bo_models b) (bo_strategies b)) w of
       (r, pairs, w1) \<Rightarrow> (r, (b\<lparr>bo_models := map fst pairs, bo_strategies := map snd pairs\<rparr>, w1)))"

definition poll_posting :: "yaml_ops \<Rightarrow> formats \<Rightarrow> 'w slack_notifier option \<Rightarrow> 'w services \<Rightarrow> (unit, bot \<times> 'w) act" where
  "poll_posting y fm nt sv =
    bind_act get_model (\<lambda>b0.
    bind_act (on_world (wrap_act ''error finding next candlestick'' (sv_recent_candle sv (bo_product b0)))) (\<lambda>nextCandlestick.
    bind_act (if is_new b0 nextCandlestick
              then wrap_act ''error processing candlestick''
                (bind_act (wrap_act ''error initializing strategies'' (initializeStrategies y sv (cs_end nextCandlestick)))
                   (\<lambda>_. tick_bot_posting fm nt sv (cs_end nextCandlestick)))
              else result_act (Ok ())) (\<lambda>_ (b, w).
      (Ok (), (b\<lparr>bo_current := Some nextCandlestick\<rparr>, w)))))"

fun Run_posting :: "yaml_ops \<Rightarrow> formats \<Rightarrow> 'w slack_notifier option \<Rightarrow> 'w services \<Rightarrow> nat \<Rightarrow> (unit, bot \<times> 'w) act" where
  "Run_posting y fm nt sv 0 s = (Ok (), s)"
| "Run_posting y fm nt sv (Suc n) s =
    (case poll_posting y fm nt sv s of
       (Ok _, s1) \<Rightarrow> Run_posting y fm nt sv n s1
     | (Err _, s1) \<Rightarrow> Run_posting y fm nt sv n s1
     | (Panic p, s1) \<Rightarrow> (Panic p, s1)
     | (Diverge, s1) \<Rightarrow> (Diverge, s1))"

end
