(* ===== verification/Notification_Specs.thy ===== *)
theory Notification_Specs
  imports Notifications Trading_Specs
begin

text \<open>
  Messages only observe: with a chat service that records what it is sent and fails as it likes, the engine and the
  bot do what they do without it, and the channel of the trades gets the trades that were stored.
\<close>

section \<open>A service that records\<close>

type_synonym chat_post = "string \<times> string \<times> post_parameters"

definition outbox :: "string \<Rightarrow> string \<Rightarrow> (nat \<Rightarrow> bool) \<Rightarrow> ('w \<times> chat_post list) slack_notifier" where
  "outbox trades data fails = NewSlackNotifier trades data (\<lambda>c x p (w, l).
     (if fails (length l) then Err (Errorf ''slack'') else Ok (), (w, l @ [(c, x, p)])))"

definition lift_act :: "('a, 'w) act \<Rightarrow> ('a, 'w \<times> 'l) act" where
  "lift_act a s = (case a (fst s) of (r, w) \<Rightarrow> (r, (w, snd s)))"

definition lift_services :: "'w services \<Rightarrow> ('w \<times> 'l) services" where
  "lift_services sv = \<lparr>sv_exchange_order = (\<lambda>o'. lift_act (sv_exchange_order sv o')),
     sv_store_order = (\<lambda>m. lift_act (sv_store_order sv m)), sv_update_strategy = (\<lambda>m. lift_act (sv_update_strategy sv m)),
     sv_find_candles = (\<lambda>s e p k. lift_act (sv_find_candles sv s e p k)),
     sv_active_strategies = (\<lambda>p. lift_act (sv_active_strategies sv p)), sv_recent_candle = (\<lambda>p. lift_act (sv_recent_candle sv p)),
     sv_now = (\<lambda>s. case sv_now sv (fst s) of (n, w) \<Rightarrow> (n, (w, snd s)))\<rparr>"

text \<open>What a channel was sent.\<close>

definition posts_to :: "string \<Rightarrow> chat_post list \<Rightarrow> post_parameters list" where
  "posts_to channel ps = map (snd \<circ> snd) (filter (\<lambda>p. fst p = channel) ps)"

lemma posts_to_simps [simp]:
  "posts_to c [] = []" "posts_to c (ps @ qs) = posts_to c ps @ posts_to c qs"
  "posts_to c ((d, x, p) # ps) = (if d = c then p # posts_to c ps else posts_to c ps)"
  by (simp_all add: posts_to_def)

lemma lift_bind: "lift_act (bind_act a f) = bind_act (lift_act a) (\<lambda>x. lift_act (f x))"
  by (rule ext) (simp add: lift_act_def bind_act_def split: prod.splits go_result.splits)

lemma lift_wrap: "lift_act (wrap_act msg a) = wrap_act msg (lift_act a)"
  by (rule ext) (simp add: lift_act_def wrap_act_def split: prod.splits)

lemma lift_result: "lift_act (result_act r) = result_act r"
  by (rule ext) (simp add: lift_act_def result_act_def)

lemma PerformOrder_lift: "PerformOrder (lift_services sv) args = lift_act (PerformOrder sv args)"
  by (simp add: PerformOrder_def lift_bind lift_wrap lift_result Let_def lift_services_def)

section \<open>What is posted\<close>

lemma trades_post:
  "PostTradesSlackMessage (Some (outbox tr da fails)) [] [p] (w, l) = (Ok (), (w, l @ [(tr, [], p)]))"
  by (simp add: PostTradesSlackMessage_def outbox_def NewSlackNotifier_def log_error_def post_params_def)

lemma data_post:
  "PostDataSlackMessage (Some (outbox tr da fails)) [] [p] (w, l) = (Ok (), (w, l @ [(da, [], p)]))"
  by (simp add: PostDataSlackMessage_def outbox_def NewSlackNotifier_def log_error_def post_params_def)

lemma Buy_posts:
  assumes "tr \<noteq> da"
  shows "\<exists>ps. posts_to tr ps = [] \<and> Buy_posting fm (Some (outbox tr da fails)) s m h i (w, l) = (Buy s h i, (w, l @ ps))"
proof (cases s)
  case (SEMACrossover e)
  let ?ps = "[(da, [], attached_message ''Tick'' (data_message fm s m (eco_meta h i)) ''#b942f4'')]"
  show ?thesis
  proof (cases "eco_signal e h i")
    case (Ok d)
    then show ?thesis
      using SEMACrossover assms by (intro exI[of _ ?ps])
        (simp add: bind_act_def result_act_def PostStrategyDataToSlack_def data_post eco_Buy_def result_simps)
  qed (use SEMACrossover in \<open>simp_all add: bind_act_def result_act_def eco_Buy_def result_simps exI[of _ "[]"]\<close>)
qed (simp_all add: result_act_def exI[of _ "[]"])

lemma Sell_posts:
  assumes "tr \<noteq> da"
  shows "\<exists>ps. posts_to tr ps = [] \<and> Sell_posting fm (Some (outbox tr da fails)) s m h i (w, l) = (Sell s h i, (w, l @ ps))"
proof (cases s)
  case (SEMACrossover e)
  let ?ps = "[(da, [], attached_message ''Tick'' (data_message fm s m (eco_meta h i)) ''#b942f4'')]"
  show ?thesis
  proof (cases "eco_signal e h i")
    case (Ok d)
    then show ?thesis
      using SEMACrossover assms by (intro exI[of _ ?ps])
        (simp add: bind_act_def result_act_def PostStrategyDataToSlack_def data_post eco_Sell_def result_simps)
  qed (use SEMACrossover in \<open>simp_all add: bind_act_def result_act_def eco_Sell_def result_simps exI[of _ "[]"]\<close>)
qed (simp_all add: result_act_def exI[of _ "[]"])

definition with_posts :: "('a go_result \<times> 'm \<times> 'w) \<Rightarrow> chat_post list \<Rightarrow> 'a go_result \<times> 'm \<times> 'w \<times> chat_post list" where
  "with_posts out l = (case out of (r, (m, w)) \<Rightarrow> (r, (m, (w, l))))"

lemmas act_simps = bind_act_def get_model_def put_model_def on_world_def wrap_act_def result_act_def lift_act_def with_posts_def
  wrap_err.simps

lemma update_lift: "sv_update_strategy (lift_services sv) m = lift_act (sv_update_strategy sv m)"
  by (simp add: lift_services_def)

lemma now_lift: "sv_now (lift_services sv) s = (case sv_now sv (fst s) of (n, w) \<Rightarrow> (n, (w, snd s)))"
  by (simp add: lift_services_def)

text \<open>The messages of a trade, once the model is updated.\<close>

definition buy_posts :: "trading_strategy_model \<Rightarrow> strategy \<Rightarrow> perform_order_response \<Rightarrow> post_parameters list" where
  "buy_posts m s response =
     [attached_message ''Market Order'' (buy_message (after_buy m (pr_filled_size response)) s response (tm_budget m)) ''#2afc43'']"

definition sell_posts :: "trading_strategy_model \<Rightarrow> strategy \<Rightarrow> perform_order_response \<Rightarrow> post_parameters list" where
  "sell_posts m s response = (let m1 = after_sell m (pr_filled_size response) in
     attached_message ''Market Order'' (sell_message m1 s response (tm_invested m)) ''#4286f4'' #
     (if flt (fdiv (tm_budget m1) (tm_initial_budget m1)) minimumBudgetProportion
      then [attached_message ''Strategy Deactivated'' (deactivation_message m1 s) ''#ff5c3f''] else []))"

text \<open>What follows an order that is performed: the messages, if the update of the model succeeds.\<close>

definition posts_after :: "'w services \<Rightarrow> perform_order_args \<Rightarrow> (f64 \<Rightarrow> trading_strategy_model) \<Rightarrow>
    (perform_order_response \<Rightarrow> post_parameters list) \<Rightarrow> 'w \<Rightarrow> post_parameters list" where
  "posts_after sv args after messages w = (case PerformOrder sv args w of
     (Ok response, w1) \<Rightarrow> if is_ok (fst (sv_update_strategy sv (after (pr_filled_size response)) w1)) then messages response else []
   | _ \<Rightarrow> [])"

lemma TryBuy_posts:
  assumes "tr \<noteq> da"
  shows "\<exists>ps. TryBuy_posting fm (Some (outbox tr da fails)) (lift_services sv) t (m, (w, l)) = with_posts (TryBuy sv t (m, w)) (l @ ps) \<and>
    posts_to tr ps = (if ValidateIndicatorSets (sint (tm_history_ticks m)) (ts_current t) (ts_sets t) = Ok () \<and>
        Buy (ts_strategy t) (ts_sets t) (ts_current t) = Ok True
      then posts_after sv (order_args m OrderBuy (tm_budget m)) (after_buy m) (buy_posts m (ts_strategy t)) w else [])"
proof -
  obtain ps where ps: "posts_to tr ps = []"
    "Buy_posting fm (Some (outbox tr da fails)) (ts_strategy t) m (ts_sets t) (ts_current t) (w, l) =
      (Buy (ts_strategy t) (ts_sets t) (ts_current t), (w, l @ ps))"
    using Buy_posts[OF assms, of fm fails "ts_strategy t" m "ts_sets t" "ts_current t" w l] by blast
  show ?thesis
  proof (cases "ValidateIndicatorSets (sint (tm_history_ticks m)) (ts_current t) (ts_sets t)")
    case v: (Ok u)
    show ?thesis
    proof (cases "Buy (ts_strategy t) (ts_sets t) (ts_current t) = Ok True")
      case True
      obtain r1 w1 where po: "PerformOrder sv (order_args m OrderBuy (tm_budget m)) w = (r1, w1)"
        by fastforce
      show ?thesis
      proof (cases r1)
        case (Ok response)
        let ?m1 = "m\<lparr>tm_invested := TruncateFloat (pr_filled_size response) tradeCurrencyPrecision,
            tm_budget := Fin 0, tm_state := StrategyStateTryingToSell\<rparr>"
        let ?post = "(tr, [], attached_message ''Market Order'' (buy_message ?m1 (ts_strategy t) response (tm_budget m)) ''#2afc43'')"
        obtain r2 w2 where up: "sv_update_strategy sv ?m1 w1 = (r2, w2)"
          by fastforce
        show ?thesis
          by (rule exI[of _ "ps @ (case r2 of Ok _ \<Rightarrow> [?post] | _ \<Rightarrow> [])"])
            (cases r2; simp add: TryBuy_posting_def TryBuy_def act_simps v True ps po Ok up PerformOrder_lift update_lift trades_post Let_def
              posts_after_def buy_posts_def after_buy_def)
      qed (rule exI[of _ ps], simp add: TryBuy_posting_def TryBuy_def act_simps v True ps po PerformOrder_lift posts_after_def)+
    next
      case False
      then show ?thesis
        by (intro exI[of _ ps], cases "Buy (ts_strategy t) (ts_sets t) (ts_current t)")
          (simp_all add: TryBuy_posting_def TryBuy_def act_simps v ps)
    qed
  qed (rule exI[of _ "[]"], simp add: TryBuy_posting_def TryBuy_def act_simps)+
qed

lemma TrySell_sold_posts:
  assumes "posts_to tr ps = []" and "ValidateIndicatorSets (sint (tm_history_ticks m)) (ts_current t) (ts_sets t) = Ok u"
    and "Sell_posting fm (Some (outbox tr da fails)) (ts_strategy t) m (ts_sets t) (ts_current t) (w, l) = (Ok True, (w, l @ ps))"
    and sells: "Sell (ts_strategy t) (ts_sets t) (ts_current t) = Ok True"
    and po: "PerformOrder sv (order_args m OrderSell (tm_invested m)) w = (Ok response, w1)"
  shows "\<exists>ps. TrySell_posting fm (Some (outbox tr da fails)) (lift_services sv) t (m, (w, l)) = with_posts (TrySell sv t (m, w)) (l @ ps) \<and>
    posts_to tr ps = posts_after sv (order_args m OrderSell (tm_invested m)) (after_sell m) (sell_posts m (ts_strategy t)) w"
proof -
  let ?m1 = "m\<lparr>tm_invested := Fin 0, tm_budget := TruncateFloat (pr_filled_size response) tradeCurrencyPrecision,
      tm_state := StrategyStateTryingToBuy\<rparr>"
  let ?post = "(tr, [], attached_message ''Market Order'' (sell_message ?m1 (ts_strategy t) response (tm_invested m)) ''#4286f4'')"
  let ?off = "(tr, [], attached_message ''Strategy Deactivated'' (deactivation_message ?m1 (ts_strategy t)) ''#ff5c3f'')"
  obtain r2 w2 where up: "sv_update_strategy sv ?m1 w1 = (r2, w2)"
    by fastforce
  obtain now w3 where now: "sv_now sv w2 = (now, w3)"
    by fastforce
  obtain r3 w4 where off: "sv_update_strategy sv (?m1\<lparr>tm_deactivated_at := now\<rparr>) w3 = (r3, w4)"
    by fastforce
  note sold = TrySell_posting_def TrySell_def act_simps assms up now off PerformOrder_lift update_lift now_lift trades_post Let_def
    posts_after_def sell_posts_def after_sell_def
  show ?thesis
  proof (cases "flt (fdiv (tm_budget ?m1) (tm_initial_budget m)) minimumBudgetProportion")
    case True
    then show ?thesis
      by (intro exI[of _ "ps @ (case r2 of Ok _ \<Rightarrow> [?post, ?off] | _ \<Rightarrow> [])"]) (cases r2; cases r3; simp add: sold)
  next
    case False
    then show ?thesis
      by (intro exI[of _ "ps @ (case r2 of Ok _ \<Rightarrow> [?post] | _ \<Rightarrow> [])"]) (cases r2; simp add: sold)
  qed
qed

lemma TrySell_posts:
  assumes "tr \<noteq> da"
  shows "\<exists>ps. TrySell_posting fm (Some (outbox tr da fails)) (lift_services sv) t (m, (w, l)) = with_posts (TrySell sv t (m, w)) (l @ ps) \<and>
    posts_to tr ps = (if ValidateIndicatorSets (sint (tm_history_ticks m)) (ts_current t) (ts_sets t) = Ok () \<and>
        Sell (ts_strategy t) (ts_sets t) (ts_current t) = Ok True
      then posts_after sv (order_args m OrderSell (tm_invested m)) (after_sell m) (sell_posts m (ts_strategy t)) w else [])"
proof -
  obtain ps where ps: "posts_to tr ps = []"
    "Sell_posting fm (Some (outbox tr da fails)) (ts_strategy t) m (ts_sets t) (ts_current t) (w, l) =
      (Sell (ts_strategy t) (ts_sets t) (ts_current t), (w, l @ ps))"
    using Sell_posts[OF assms, of fm fails "ts_strategy t" m "ts_sets t" "ts_current t" w l] by blast
  show ?thesis
  proof (cases "ValidateIndicatorSets (sint (tm_history_ticks m)) (ts_current t) (ts_sets t)")
    case v: (Ok u)
    show ?thesis
    proof (cases "Sell (ts_strategy t) (ts_sets t) (ts_current t) = Ok True")
      case True
      obtain r1 w1 where po: "PerformOrder sv (order_args m OrderSell (tm_invested m)) w = (r1, w1)"
        by fastforce
      show ?thesis
      proof (cases r1)
        case (Ok response)
        then show ?thesis
          using TrySell_sold_posts[OF ps(1) v _ True, of fm da fails w l sv response w1] ps(2) po True v by simp
      qed (rule exI[of _ ps], simp add: TrySell_posting_def TrySell_def act_simps v True ps po PerformOrder_lift posts_after_def)+
    next
      case False
      then show ?thesis
        by (intro exI[of _ ps], cases "Sell (ts_strategy t) (ts_sets t) (ts_current t)")
          (simp_all add: TrySell_posting_def TrySell_def act_simps v ps)
    qed
  qed (rule exI[of _ "[]"], simp add: TrySell_posting_def TrySell_def act_simps)+
qed

section \<open>What is not changed\<close>

text \<open>\<open>A\<close> does what \<open>B\<close> does, and posts.\<close>

definition observes :: "('a, 'm \<times> 'w \<times> chat_post list) act \<Rightarrow> ('a, 'm \<times> 'w) act \<Rightarrow> bool" where
  "observes A B \<longleftrightarrow> (\<forall>m w l. \<exists>ps. A (m, (w, l)) = with_posts (B (m, w)) (l @ ps))"

named_theorems observing

lemma observes_bind [observing]:
  assumes "observes A B" and "\<And>a. observes (F a) (G a)"
  shows "observes (bind_act A F) (bind_act B G)"
  unfolding observes_def
proof (intro allI)
  fix m w l
  obtain ps where ps: "A (m, (w, l)) = with_posts (B (m, w)) (l @ ps)"
    using assms(1) unfolding observes_def by blast
  obtain r m1 w1 where B: "B (m, w) = (r, (m1, w1))"
    by (metis prod_cases3)
  show "\<exists>ps. bind_act A F (m, (w, l)) = with_posts (bind_act B G (m, w)) (l @ ps)"
  proof (cases r)
    case (Ok a)
    obtain qs where "F a (m1, (w1, l @ ps)) = with_posts (G a (m1, w1)) ((l @ ps) @ qs)"
      using assms(2) unfolding observes_def by blast
    then show ?thesis
      using ps B Ok by (intro exI[of _ "ps @ qs"]) (simp add: bind_act_def with_posts_def)
  qed (use ps B in \<open>auto simp: bind_act_def with_posts_def\<close>)
qed

lemma observes_result [observing]: "observes (result_act r) (result_act r)"
  by (simp add: observes_def result_act_def with_posts_def)

lemma observes_get [observing]: "observes get_model get_model"
  by (simp add: observes_def get_model_def with_posts_def)

lemma observes_put [observing]: "observes (put_model m) (put_model m)"
  by (simp add: observes_def put_model_def with_posts_def)

lemma observes_lifted [observing]: "observes (on_world (wrap_act msg (lift_act a))) (on_world (wrap_act msg a))"
  by (simp add: observes_def on_world_def wrap_act_def lift_act_def with_posts_def split: prod.splits)

lemma observes_post:
  assumes "observes A B"
  shows "observes (bind_act A (\<lambda>_. on_world (PostTradesSlackMessage (Some (outbox tr da fails)) [] [p]))) B"
  unfolding observes_def
proof (intro allI)
  fix m w l
  obtain ps where ps: "A (m, (w, l)) = with_posts (B (m, w)) (l @ ps)"
    using assms unfolding observes_def by blast
  obtain r m1 w1 where "B (m, w) = (r, (m1, w1))"
    by (metis prod_cases3)
  then show "\<exists>ps. bind_act A (\<lambda>_. on_world (PostTradesSlackMessage (Some (outbox tr da fails)) [] [p])) (m, (w, l)) =
      with_posts (B (m, w)) (l @ ps)"
    using ps by (cases r) (simp_all add: bind_act_def on_world_def with_posts_def trades_post)
qed

lemma observes_if [observing]: "(b \<Longrightarrow> observes A B) \<Longrightarrow> (\<not> b \<Longrightarrow> observes C D) \<Longrightarrow> observes (if b then A else C) (if b then B else D)"
  by simp

lemma lifted_find: "sv_find_candles (lift_services sv) s e p k = lift_act (sv_find_candles sv s e p k)"
  by (simp add: lift_services_def)

lemma ProcessTick_posts:
  assumes "tr \<noteq> da"
  shows "\<exists>ps. ProcessTick_posting fm (Some (outbox tr da fails)) (lift_services sv) t (m, (w, l)) = with_posts (ProcessTick sv t (m, w)) (l @ ps)"
  using TryBuy_posts[OF assms, of fm fails sv t m w l] TrySell_posts[OF assms, of fm fails sv t m w l]
  by (auto simp: ProcessTick_posting_def ProcessTick_def act_simps split: prod.splits)

lemma service_observes [observing]:
  assumes "tr \<noteq> da"
  shows "observes (run_service_posting fm (Some (outbox tr da fails)) (lift_services sv)) (run_service sv)"
  unfolding observes_def
proof (intro allI)
  fix ms :: "trading_strategy_model \<times> trading_strategy" and w l
  obtain m s where ms: "ms = (m, s)"
    by fastforce
  obtain ps where "ProcessTick_posting fm (Some (outbox tr da fails)) (lift_services sv) s (m, (w, l)) = with_posts (ProcessTick sv s (m, w)) (l @ ps)"
    using ProcessTick_posts[OF assms, of fm fails sv s m w l] by blast
  then show "\<exists>ps. run_service_posting fm (Some (outbox tr da fails)) (lift_services sv) (ms, (w, l)) = with_posts (run_service sv (ms, w)) (l @ ps)"
    by (intro exI[of _ ps]) (simp add: ms run_service_posting_def run_service_def with_posts_def split: prod.splits)
qed

lemma seed_observes [observing]: "observes (seed_service (lift_services sv) t) (seed_service sv t)"
  unfolding seed_service_def lifted_find
  by (intro observing | simp split: prod.split | safe)+

lemma save_observes [observing]: "observes (save_model (lift_services sv) m) (save_model sv m)"
  unfolding save_model_def update_lift
  by (intro observing | simp split: prod.split | safe)+

lemma finish_observes [observing]:
  "observes (finish_tick_posting (Some (outbox tr da fails)) (lift_services sv) t r) (finish_tick sv t r)"
  unfolding finish_tick_posting_def finish_tick_def
  by (intro observing | simp split: prod.split go_result.split | safe | rule observes_post)+

section \<open>No notifier\<close>

lemma no_trades_post [simp]: "PostTradesSlackMessage None x ps = result_act (Ok ())"
  by (simp add: PostTradesSlackMessage_def)

lemma Buy_posting_None: "Buy_posting fm None s m h i = result_act (Buy s h i)"
  by (rule ext, cases s) (auto simp: bind_act_def result_act_def PostStrategyDataToSlack_def PostDataSlackMessage_def eco_Buy_def
      result_simps split: go_result.splits)

lemma Sell_posting_None: "Sell_posting fm None s m h i = result_act (Sell s h i)"
  by (rule ext, cases s) (auto simp: bind_act_def result_act_def PostStrategyDataToSlack_def PostDataSlackMessage_def eco_Sell_def
      result_simps split: go_result.splits)

lemma on_world_result: "on_world (wrap_act msg (result_act r)) = result_act (wrap_err msg r)" "on_world (result_act r) = result_act r"
  by (auto simp: on_world_def wrap_act_def result_act_def)

lemma bind_done: "bind_act (result_act (Ok a)) f = f a" "bind_act act (\<lambda>_. result_act (Ok ())) = act"
  by (auto simp: bind_act_def result_act_def split: prod.splits go_result.splits)

lemmas no_notifier = no_trades_post Buy_posting_None Sell_posting_None on_world_result bind_done

lemma TryBuy_posting_None: "TryBuy_posting fm None sv t = TryBuy sv t"
  unfolding TryBuy_posting_def TryBuy_def no_notifier
  by (rule refl)

lemma TrySell_posting_None: "TrySell_posting fm None sv t = TrySell sv t"
  unfolding TrySell_posting_def TrySell_def no_notifier
  by (rule refl)

lemma ProcessTick_posting_None: "ProcessTick_posting fm None sv t = ProcessTick sv t"
  unfolding ProcessTick_posting_def ProcessTick_def TryBuy_posting_None TrySell_posting_None
  by (rule refl)

lemma finish_tick_posting_None: "finish_tick_posting None sv t r = finish_tick sv t r"
  unfolding finish_tick_posting_def finish_tick_def no_notifier
  by (simp add: case_prod_beta)

lemma processTick_posting_None: "processTick_posting fm None sv t = processTick sv t"
proof -
  have "run_service_posting fm None sv = run_service sv"
    by (rule ext) (simp add: run_service_posting_def run_service_def ProcessTick_posting_None)
  then show ?thesis
    by (simp add: processTick_posting_def processTick_def finish_tick_posting_None[abs_def])
qed

section \<open>Messages only observe\<close>

lemma processTick_observes:
  assumes "tr \<noteq> da"
  shows "observes (processTick_posting fm (Some (outbox tr da fails)) (lift_services sv) t) (processTick sv t)"
  unfolding processTick_posting_def processTick_def
  by (rule observes_bind[OF observes_get], simp only: case_prod_beta)
    (intro observes_bind observes_result observes_if seed_observes service_observes[OF assms] finish_observes)

text \<open>Posting changes nothing but the chat. The tick of a strategy that posts has, whatever the chat service
  answers, the outcome, the model, the strategy and the world of the tick that does not, and without a notifier
  it is that tick.\<close>

theorem notifications_only_observe:
  "processTick_posting fm None sv t = processTick sv t \<and>
   (trades \<noteq> data \<longrightarrow> (\<exists>ps. processTick_posting fm (Some (outbox trades data fails)) (lift_services sv) t (ms, (w, l)) =
      (case processTick sv t (ms, w) of (r, (ms1, w1)) \<Rightarrow> (r, (ms1, (w1, l @ ps))))))"
proof (intro conjI impI processTick_posting_None)
  assume "trades \<noteq> data"
  then show "\<exists>ps. processTick_posting fm (Some (outbox trades data fails)) (lift_services sv) t (ms, (w, l)) =
      (case processTick sv t (ms, w) of (r, (ms1, w1)) \<Rightarrow> (r, (ms1, (w1, l @ ps))))"
    using processTick_observes[of trades data fm fails sv t] unfolding observes_def with_posts_def by blast
qed

text \<open>What is to be announced, by what the exchange and the database answer to a tick that does not
  post: nothing unless the engine decides to trade, the exchange executes the order, the database
  records it and then records the model that has traded.\<close>

definition response_of :: "order_response \<Rightarrow> perform_order_response" where
  "response_of resp = \<lparr>pr_filled_size = or_filled_size resp, pr_filled_size_currency = or_filled_currency resp,
     pr_fees = or_fees resp, pr_fees_currency = or_fees_currency resp\<rparr>"

definition announcements :: "'w services \<Rightarrow> trading_strategy \<Rightarrow> trading_strategy_model \<Rightarrow> product_metadata \<Rightarrow> 'w \<Rightarrow> post_parameters list" where
  "announcements sv t m md w =
    (if \<not> trades_now m t then []
     else case sv_exchange_order sv (order_of m) w of
       (Ok resp, w1) \<Rightarrow> (case sv_store_order sv (stored_order m md resp) w1 of
          (Ok _, w2) \<Rightarrow>
            if tm_state m = StrategyStateTryingToBuy
            then if is_ok (fst (sv_update_strategy sv (after_buy m (or_filled_size resp)) w2))
                 then buy_posts m (ts_strategy t) (response_of resp) else []
            else if is_ok (fst (sv_update_strategy sv (after_sell m (or_filled_size resp)) w2))
                 then sell_posts m (ts_strategy t) (response_of resp) else []
        | _ \<Rightarrow> [])
     | _ \<Rightarrow> [])"

lemma posts_after_steps:
  assumes "ProductToMetadata (pa_product args) = Some md" and "pa_side args = OrderBuy \<or> pa_side args = OrderSell"
  shows "posts_after sv args after messages w =
    (case sv_exchange_order sv (NewMarketOrder (pa_product args) (pa_side args) (pa_cost args)) w of
       (Ok resp, w1) \<Rightarrow> (case sv_store_order sv (market_order_of args resp
            (if pa_side args = OrderBuy then pm_buy_currency md else pm_sell_currency md)) w1 of
          (Ok _, w2) \<Rightarrow> if is_ok (fst (sv_update_strategy sv (after (or_filled_size resp)) w2)) then messages (response_of resp) else []
        | _ \<Rightarrow> [])
     | _ \<Rightarrow> [])"
  unfolding posts_after_def PerformOrder_steps[OF assms]
  by (simp add: response_of_def split: prod.split go_result.split)

text \<open>C39. The channel of the trades shows what was stored. Whatever is answered, and whether the tick
  succeeds or fails, what a tick posts there is exactly this: a message about an order, with what
  the exchange filled, when the engine decided to trade and the exchange's execution, the insert of
  the order and the update of the model that has traded all went well, and behind the message of a
  sale that left too little one about the deactivation, before it is stored; otherwise nothing. So a
  trade that the database did not record, or whose model it did not, goes unannounced. The outcome is
  that of the tick that does not post.\<close>

theorem trades_are_announced:
  assumes "trades \<noteq> data" and "ProductToMetadata (tm_product m) = Some md"
    and "tm_state m = StrategyStateTryingToBuy \<or> tm_state m = StrategyStateTryingToSell"
  shows "\<exists>ps. ProcessTick_posting fm (Some (outbox trades data fails)) (lift_services sv) t (m, (w, l)) =
      (case ProcessTick sv t (m, w) of (r, (m1, w1)) \<Rightarrow> (r, (m1, (w1, l @ ps)))) \<and>
    posts_to trades ps = announcements sv t m md w"
proof (cases "tm_state m = StrategyStateTryingToBuy")
  case True
  have "posts_after sv (order_args m OrderBuy (tm_budget m)) (after_buy m) (buy_posts m (ts_strategy t)) w = announcements sv t m md w"
    if "trades_now m t"
    using True that by (subst posts_after_steps[of "order_args m OrderBuy (tm_budget m)" md])
      (simp_all add: assms(2) announcements_def order_of_def stored_order_def position_of_def order_args_def split: prod.split go_result.split)
  moreover have "trades_now m t \<longleftrightarrow> ValidateIndicatorSets (sint (tm_history_ticks m)) (ts_current t) (ts_sets t) = Ok () \<and>
      Buy (ts_strategy t) (ts_sets t) (ts_current t) = Ok True"
    using True by (simp add: trades_now_def)
  moreover have "announcements sv t m md w = []" if "\<not> trades_now m t"
    using that by (simp add: announcements_def)
  ultimately show ?thesis
    using TryBuy_posts[OF assms(1), of fm fails sv t m w l] True
    by (auto simp: ProcessTick_posting_def ProcessTick_def act_simps split: prod.splits if_splits)
next
  case False
  then have S: "tm_state m = StrategyStateTryingToSell"
    using assms(3) by blast
  have "posts_after sv (order_args m OrderSell (tm_invested m)) (after_sell m) (sell_posts m (ts_strategy t)) w = announcements sv t m md w"
    if "trades_now m t"
    using S that by (subst posts_after_steps[of "order_args m OrderSell (tm_invested m)" md])
      (simp_all add: assms(2) announcements_def order_of_def stored_order_def position_of_def order_args_def split: prod.split go_result.split)
  moreover have "trades_now m t \<longleftrightarrow> ValidateIndicatorSets (sint (tm_history_ticks m)) (ts_current t) (ts_sets t) = Ok () \<and>
      Sell (ts_strategy t) (ts_sets t) (ts_current t) = Ok True"
    using S by (simp add: trades_now_def)
  moreover have "announcements sv t m md w = []" if "\<not> trades_now m t"
    using that by (simp add: announcements_def)
  ultimately show ?thesis
    using TrySell_posts[OF assms(1), of fm fails sv t m w l] S
    by (auto simp: ProcessTick_posting_def ProcessTick_def act_simps split: prod.splits if_splits)
qed

section \<open>An example\<close>

definition example_services :: "nat services" where
  "example_services = \<lparr>sv_exchange_order = (\<lambda>r w. (Ok \<lparr>or_exchange_id = ''x'', or_filled_size = Fin 2, or_filled_currency = ''BTC'',
       or_fees = Fin 0, or_fees_currency = ''USD''\<rparr>, w)),
     sv_store_order = (\<lambda>m w. (Ok (), w)), sv_update_strategy = (\<lambda>m w. (Ok (), Suc w)),
     sv_find_candles = (\<lambda>s e p k w. (Ok [], w)), sv_active_strategies = (\<lambda>p w. (Ok [], w)),
     sv_recent_candle = (\<lambda>p w. (Ok zero_candlestick, w)), sv_now = (\<lambda>w. (0, w))\<rparr>"

definition example_engine :: trading_strategy where
  "example_engine = (NewTradingStrategy (SRSI \<lparr>rs_Period = 14, rs_BuyThreshold = Fin 30, rs_SellThreshold = Fin 70, rs_attached = True\<rparr>))
     \<lparr>ts_sets := [Some \<lparr>is_time = 0, is_values = [Some \<lparr>iv_time = 0, iv_value = Fin 10, iv_name = ''rsi-14''\<rparr>]\<rparr>], ts_current := 0\<rparr>"

definition example_model :: trading_strategy_model where
  "example_model = \<lparr>tm_id = 1, tm_created_at = 0, tm_updated_at = zero_time, tm_deactivated_at = zero_time, tm_last_tick_at = zero_time,
     tm_next_tick_at = minute, tm_product = ProductBTCUSD, tm_history_ticks = 1000, tm_state = StrategyStateTryingToBuy,
     tm_initial_budget = Fin 100, tm_budget = Fin 100, tm_budget_currency = ''USD'', tm_invested = Fin 0, tm_invested_currency = ''BTC'',
     tm_tick_size_minutes = 15, tm_trading_strategy = ''rsi'', tm_data = []\<rparr>"

definition example_formats :: formats where
  "example_formats = \<lparr>fm_walk = rev, fm_verb_v = show_float\<rparr>"

lemma example_order:
  "announcements example_services example_engine example_model (metadata ExchangeGDAX CurrencyBTC) 0 =
     buy_posts example_model (ts_strategy example_engine)
       \<lparr>pr_filled_size = Fin 2, pr_filled_size_currency = ''BTC'', pr_fees = Fin 0, pr_fees_currency = ''USD''\<rparr>"
proof -
  have "trades_now example_model example_engine"
    by code_simp
  then show ?thesis
    by (simp add: announcements_def example_services_def response_of_def) (simp add: example_model_def)
qed

theorem trades_are_announced_witness:
  "\<exists>ps. snd (snd (snd (ProcessTick_posting example_formats (Some (outbox ''trades'' ''data'' even)) (lift_services example_services)
      example_engine (example_model, (0, []))))) = ps \<and>
    map (map at_title \<circ> pp_attachments) (posts_to ''trades'' ps) = [[''Market Order'']]"
proof -
  have "ProductToMetadata (tm_product example_model) = Some (metadata ExchangeGDAX CurrencyBTC)"
    by (simp add: example_model_def ProductToMetadata_def)
  moreover have "tm_state example_model = StrategyStateTryingToBuy \<or> tm_state example_model = StrategyStateTryingToSell"
    by (simp add: example_model_def)
  moreover obtain r m1 w1 where "ProcessTick example_services example_engine (example_model, 0) = (r, (m1, w1))"
    by (metis prod_cases3)
  ultimately show ?thesis
    using trades_are_announced[of "''trades''" "''data''" example_model "metadata ExchangeGDAX CurrencyBTC" example_formats even
        example_services example_engine 0 "[]"] unfolding example_order
    by (auto simp: buy_posts_def attached_message_def)
qed

theorem notifications_only_observe_witness:
  "\<exists>ps. processTick_posting example_formats (Some (outbox ''trades'' ''data'' even)) (lift_services example_services) 0
      ((example_model, example_engine), (0, [])) =
     (case processTick example_services 0 ((example_model, example_engine), 0) of (r, (ms1, w1)) \<Rightarrow> (r, (ms1, (w1, ps))))"
  using notifications_only_observe[of example_formats example_services 0 "''trades''" "''data''" even "(example_model, example_engine)" 0 "[]"]
  by simp

section \<open>The whole bot\<close>

lemma observes_wrap [observing]: "observes A B \<Longrightarrow> observes (wrap_act msg A) (wrap_act msg B)"
proof -
  have "wrap_act msg A s = with_posts (wrap_act msg B z) l" if "A s = with_posts (B z) l" for s z l
    using that by (simp add: wrap_act_def with_posts_def split: prod.splits)
  then show "observes A B \<Longrightarrow> observes (wrap_act msg A) (wrap_act msg B)"
    unfolding observes_def by metis
qed

lemma observes_state: "observes A B \<Longrightarrow> observes (\<lambda>(b, w). A (f b, w)) (\<lambda>(b, w). B (f b, w))"
  by (simp add: observes_def)

lemma observes_keep: "observes (\<lambda>(b, w). (r, (f b, w))) (\<lambda>(b, w). (r, (f b, w)))"
  by (simp add: observes_def with_posts_def)

lemma lifted_reads:
  "sv_active_strategies (lift_services sv) p = lift_act (sv_active_strategies sv p)"
  "sv_recent_candle (lift_services sv) p = lift_act (sv_recent_candle sv p)"
  by (simp_all add: lift_services_def)

lemma load_observes: "observes (load_strategies y (lift_services sv) t ms) (load_strategies y sv t ms)"
proof (induction ms)
  case (Cons m ms)
  show ?case
    unfolding load_strategies.simps lifted_find case_prod_beta
    using observes_state[OF Cons.IH, unfolded case_prod_beta]
    by (intro observes_bind observes_result observes_lifted)
qed (simp add: observing)

lemma initialize_observes: "observes (initializeStrategies y (lift_services sv) t) (initializeStrategies y sv t)"
  unfolding initializeStrategies_def lifted_reads
  by (intro observes_bind observes_get observes_lifted observes_state load_observes)

lemma tick_loop_observes:
  assumes "tr \<noteq> da"
  shows "\<exists>ps. tick_loop_posting fm (Some (outbox tr da fails)) (lift_services sv) t mss (w, l) =
    (case tick_loop sv t mss w of (r, mss1, w1) \<Rightarrow> (r, mss1, (w1, l @ ps)))"
proof (induction mss arbitrary: w l)
  case (Cons ms mss)
  show ?case
  proof (cases "due (fst ms) t")
    case True
    obtain ps where ps: "processTick_posting fm (Some (outbox tr da fails)) (lift_services sv) t (ms, (w, l)) =
        with_posts (processTick sv t (ms, w)) (l @ ps)"
      using processTick_observes[OF assms, of fm fails sv t] unfolding observes_def by blast
    obtain r ms1 w1 where tick: "processTick sv t (ms, w) = (r, (ms1, w1))"
      by (metis prod_cases3)
    obtain qs where "tick_loop_posting fm (Some (outbox tr da fails)) (lift_services sv) t mss (w1, l @ ps) =
        (case tick_loop sv t mss w1 of (r, mss1, w2) \<Rightarrow> (r, mss1, (w2, (l @ ps) @ qs)))"
      using Cons.IH by blast
    then show ?thesis
      using True ps tick by (cases r) (auto simp: with_posts_def split: prod.splits)
  next
    case False
    then show ?thesis
      using Cons.IH[of w l] by (auto split: prod.splits)
  qed
qed simp

lemma tick_bot_observes:
  assumes "tr \<noteq> da"
  shows "observes (tick_bot_posting fm (Some (outbox tr da fails)) (lift_services sv) t)
    (\<lambda>(b, w). case tick_loop sv t (zip (bo_models b) (bo_strategies b)) w of
       (r, pairs, w1) \<Rightarrow> (r, (b\<lparr>bo_models := map fst pairs, bo_strategies := map snd pairs\<rparr>, w1)))"
  unfolding observes_def
proof (intro allI)
  fix b :: bot and w l
  show "\<exists>ps. tick_bot_posting fm (Some (outbox tr da fails)) (lift_services sv) t (b, (w, l)) =
      with_posts ((\<lambda>(b, w). case tick_loop sv t (zip (bo_models b) (bo_strategies b)) w of
        (r, pairs, w1) \<Rightarrow> (r, (b\<lparr>bo_models := map fst pairs, bo_strategies := map snd pairs\<rparr>, w1))) (b, w)) (l @ ps)"
    using tick_loop_observes[OF assms, of fm fails sv t "zip (bo_models b) (bo_strategies b)" w l]
    by (auto simp: tick_bot_posting_def with_posts_def split: prod.splits)
qed

lemma poll_observes:
  assumes "tr \<noteq> da"
  shows "observes (poll_posting y fm (Some (outbox tr da fails)) (lift_services sv)) (ProcessTickForNewCandlestick y sv)"
  unfolding poll_posting_def ProcessTickForNewCandlestick_def bot_ProcessTick_def lifted_reads
  by (intro observes_bind observes_get observes_lifted observes_if observes_wrap observes_result observes_keep
      initialize_observes tick_bot_observes[OF assms])

lemma Run_observes:
  assumes "tr \<noteq> da"
  shows "observes (Run_posting y fm (Some (outbox tr da fails)) (lift_services sv) n) (Run y sv n)"
proof (induction n)
  case (Suc n)
  show ?case
    unfolding observes_def
  proof (intro allI)
    fix b :: bot and w l
    obtain ps where ps: "poll_posting y fm (Some (outbox tr da fails)) (lift_services sv) (b, (w, l)) =
        with_posts (ProcessTickForNewCandlestick y sv (b, w)) (l @ ps)"
      using poll_observes[OF assms, of y fm fails sv] unfolding observes_def by blast
    obtain r b1 w1 where poll: "ProcessTickForNewCandlestick y sv (b, w) = (r, (b1, w1))"
      by (metis prod_cases3)
    obtain qs where "Run_posting y fm (Some (outbox tr da fails)) (lift_services sv) n (b1, (w1, l @ ps)) =
        with_posts (Run y sv n (b1, w1)) ((l @ ps) @ qs)"
      using Suc.IH unfolding observes_def by blast
    then show "\<exists>ps. Run_posting y fm (Some (outbox tr da fails)) (lift_services sv) (Suc n) (b, (w, l)) =
        with_posts (Run y sv (Suc n) (b, w)) (l @ ps)"
      using ps poll by (cases r) (auto simp: with_posts_def)
  qed
qed (simp add: observes_def with_posts_def)

lemma tick_loop_None: "tick_loop_posting fm None sv t mss w = tick_loop sv t mss w"
  by (induction mss arbitrary: w) (auto simp: processTick_posting_None split: prod.split go_result.split)

lemma poll_None: "poll_posting y fm None sv = ProcessTickForNewCandlestick y sv"
  unfolding poll_posting_def ProcessTickForNewCandlestick_def bot_ProcessTick_def tick_bot_posting_def tick_loop_None
  by (rule refl)

lemma Run_None: "Run_posting y fm None sv n s = Run y sv n s"
  by (induction n arbitrary: s) (auto simp: poll_None split: prod.split go_result.split)

text \<open>C38. Posting changes nothing but the chat. A bot with a notifier does, over any number of polls and whatever
  the chat service answers, what the bot without one does: it ends with the same outcome, keeps the same strategies
  and leaves the same world, and only the posts are added.\<close>

theorem bot_messages_only_observe:
  assumes "trades \<noteq> data"
  shows "Run_posting y fm None sv n (b, w) = Run y sv n (b, w) \<and>
    (\<exists>ps. Run_posting y fm (Some (outbox trades data fails)) (lift_services sv) n (b, (w, l)) =
      (case Run y sv n (b, w) of (r, (b1, w1)) \<Rightarrow> (r, (b1, (w1, l @ ps)))))"
  using Run_observes[OF assms, of y fm fails sv n] Run_None[of y fm sv n "(b, w)"] unfolding observes_def with_posts_def by blast

lemma bot_messages_only_observe_witness:
  "\<forall>y. \<exists>ps. Run_posting y example_formats (Some (outbox ''trades'' ''data'' even)) (lift_services example_services) 3
      (NewBot ProductBTCUSD, (0, [])) =
    (case Run y example_services 3 (NewBot ProductBTCUSD, 0) of (r, (b1, w1)) \<Rightarrow> (r, (b1, (w1, ps))))"
proof
  fix y
  show "\<exists>ps. Run_posting y example_formats (Some (outbox ''trades'' ''data'' even)) (lift_services example_services) 3
      (NewBot ProductBTCUSD, (0, [])) =
    (case Run y example_services 3 (NewBot ProductBTCUSD, 0) of (r, (b1, w1)) \<Rightarrow> (r, (b1, (w1, ps))))"
    using bot_messages_only_observe[of "''trades''" "''data''" y example_formats example_services 3 "NewBot ProductBTCUSD" 0 even "[]"]
    by simp
qed

end
