(* ===== verification/Deployment.thy ===== *)
theory Deployment
  imports Commands Message_Channel Notifications
begin

text \<open>
  What \<open>cli.go\<close> starts: the exchanges behind the interface of \<open>exchange.go\<close>, \<open>Start\<close> of the realtime importer, and
  the commands with the flags they declare. A stream is followed for a number of polls, an importer for a number
  of rounds. The format of a time in a flag is a parameter.
\<close>

section \<open>The exchanges behind their interface\<close>

record 'w exchange =
  ex_messages :: "product \<Rightarrow> (importer_event list, 'w) act"
  ex_candlesticks :: "product \<Rightarrow> time \<Rightarrow> time \<Rightarrow> int \<Rightarrow> (candlestick list, 'w) act"
  ex_order :: "market_order \<Rightarrow> (order_response, 'w) act"
  ex_stream :: "product \<Rightarrow> (candlestick list, 'w) act"
  ex_emits :: bool

text \<open>The clients, the channel of an importer with the ticks of its ticker, the channel of a mock order and its id.\<close>

record 'w venues =
  vn_gdax :: "'w gdax_client"
  vn_kraken :: "'w kraken_client"
  vn_messages :: "product \<Rightarrow> (importer_event list, 'w) act"
  vn_trades :: "product \<Rightarrow> (exchange_message list, 'w) act"
  vn_uuid :: string
  vn_polls :: nat

definition NewGDAXExchange :: "'w gdax_client \<Rightarrow> 'w venues \<Rightarrow> 'w exchange" where
  "NewGDAXExchange client v = \<lparr>ex_messages = vn_messages v, ex_candlesticks = gdax_GetCandlesticks client,
     ex_order = gdax_CreateMarketOrder client, ex_stream = gdax_StreamCandlesticks, ex_emits = gdax_EmitsFullCandlesticks\<rparr>"

text \<open>It has everything from the exchange with a nil client but the orders.\<close>

definition NewFakeGDAXExchange :: "'w venues \<Rightarrow> 'w exchange" where
  "NewFakeGDAXExchange v = (NewGDAXExchange nil_client v)\<lparr>ex_order := (\<lambda>args w.
     case vn_trades v (mo_product args) w of (channel, w1) \<Rightarrow> (fake_CreateMarketOrder channel (vn_uuid v) args, w1))\<rparr>"

definition NewKrakenExchange :: "'w venues \<Rightarrow> 'w exchange" where
  "NewKrakenExchange v = \<lparr>ex_messages = kraken_GetMessageChan, ex_candlesticks = kraken_GetCandlesticks,
     ex_order = kraken_CreateMarketOrder,
     ex_stream = (\<lambda>p. bind_act (StreamCandlesticks (vn_kraken v) p (vn_polls v)) (\<lambda>(cs, _). result_act (Ok cs))),
     ex_emits = kraken_EmitsFullCandlesticks\<rparr>"

definition NewFakeKrakenExchange :: "'w venues \<Rightarrow> 'w exchange" where
  "NewFakeKrakenExchange v = NewKrakenExchange v"

fun exchange_of :: "'w venues \<Rightarrow> exchange_choice \<Rightarrow> 'w exchange" where
  "exchange_of v GDAX = NewGDAXExchange (vn_gdax v) v"
| "exchange_of v FakeGDAX = NewFakeGDAXExchange v"
| "exchange_of v Kraken = NewKrakenExchange v"
| "exchange_of v FakeKraken = NewFakeKrakenExchange v"

section \<open>The realtime importer\<close>

fun candlestick_rounds :: "(duration \<Rightarrow> 'w \<Rightarrow> 'w) \<Rightarrow> (candlestick \<Rightarrow> (unit, 'w) act) \<Rightarrow> (candlestick list, 'w) act \<Rightarrow> nat \<Rightarrow> (unit, 'w) act" where
  "candlestick_rounds sleep upsertCandlestick stream 0 w = (Ok (), w)"
| "candlestick_rounds sleep upsertCandlestick stream (Suc n) w =
    (case stream w of
       (Ok cs, w1) \<Rightarrow> bind_act (StartProcessingCandlesticks upsertCandlestick cs)
                          (\<lambda>_. candlestick_rounds sleep upsertCandlestick stream n) w1
     | (Err e, w1) \<Rightarrow> candlestick_rounds sleep upsertCandlestick stream n (sleep (5 * second) w1)
     | (Panic m, w1) \<Rightarrow> (Panic m, w1)
     | (Diverge, w1) \<Rightarrow> (Diverge, w1))"

fun message_rounds :: "(duration \<Rightarrow> 'w \<Rightarrow> 'w) \<Rightarrow> (candlestick \<Rightarrow> (unit, 'w) act) \<Rightarrow> (importer_event list, 'w) act \<Rightarrow> nat \<Rightarrow>
    (unit, importer \<times> 'w) act" where
  "message_rounds sleep upsertCandlestick channel 0 s = (Ok (), s)"
| "message_rounds sleep upsertCandlestick channel (Suc n) (i, w) =
    (case channel w of
       (Ok events, w1) \<Rightarrow> bind_act (process_events upsertCandlestick events)
                              (\<lambda>_. message_rounds sleep upsertCandlestick channel n) (i, w1)
     | (Err e, w1) \<Rightarrow> message_rounds sleep upsertCandlestick channel n (i, sleep (5 * second) w1)
     | (Panic m, w1) \<Rightarrow> (Panic m, (i, w1))
     | (Diverge, w1) \<Rightarrow> (Diverge, (i, w1)))"

definition importer_Start :: "(duration \<Rightarrow> 'w \<Rightarrow> 'w) \<Rightarrow> (candlestick \<Rightarrow> (unit, 'w) act) \<Rightarrow> 'w exchange \<Rightarrow> product \<Rightarrow> nat \<Rightarrow>
    (unit, importer \<times> 'w) act" where
  "importer_Start sleep upsertCandlestick exchange p n =
    (if ex_emits exchange
     then on_world (candlestick_rounds sleep upsertCandlestick (ex_stream exchange p) n)
     else message_rounds sleep upsertCandlestick (ex_messages exchange p) n)"

section \<open>Flags\<close>

text \<open>The flags of the commands about an EMA crossover, and their defaults.\<close>

record ema_flags =
  eg_product :: product
  eg_tick_size_minutes :: u64
  eg_short_period :: u64
  eg_long_period :: u64
  eg_down_threshold :: f64
  eg_up_threshold :: f64

record s1_flags =
  sg_product :: product
  sg_tick_size_minutes :: u64
  sg_ema_short_period :: u64
  sg_ema_long_period :: u64
  sg_ema_down_threshold :: f64
  sg_ema_up_threshold :: f64
  sg_rsi_entrance :: f64
  sg_rsi_exit :: f64

text \<open>The period of a backtest, the file of its results, and whether they are drawn.\<close>

record run_flags =
  rg_start_time :: string
  rg_end_time :: string
  rg_results_file :: string
  rg_graph :: bool

definition hour :: duration where
  "hour = 60 * minute"

definition backtest_run_defaults :: "(time \<Rightarrow> string) \<Rightarrow> time \<Rightarrow> run_flags" where
  "backtest_run_defaults rfc822 now = \<lparr>rg_start_time = rfc822 (time_add now (- 30 * 24 * hour)), rg_end_time = rfc822 now,
     rg_results_file = ''results.csv'', rg_graph = False\<rparr>"

definition backtest_ema_defaults :: ema_flags where
  "backtest_ema_defaults = \<lparr>eg_product = ProductBTCUSD, eg_tick_size_minutes = 15, eg_short_period = 10, eg_long_period = 25,
     eg_down_threshold = Fin 0, eg_up_threshold = Fin 0\<rparr>"

definition backtest_s1_defaults :: s1_flags where
  "backtest_s1_defaults = \<lparr>sg_product = ProductBTCUSD, sg_tick_size_minutes = 15, sg_ema_short_period = 10, sg_ema_long_period = 25,
     sg_ema_down_threshold = Fin 0, sg_ema_up_threshold = Fin 0, sg_rsi_entrance = Fin 0, sg_rsi_exit = Fin 100\<rparr>"

text \<open>The budget, and for the second what is invested, come first.\<close>

definition create_ema_defaults :: "f64 \<times> ema_flags" where
  "create_ema_defaults = (Fin 0, \<lparr>eg_product = ProductBTCUSD, eg_tick_size_minutes = 15, eg_short_period = 10, eg_long_period = 25,
     eg_down_threshold = Fin 0, eg_up_threshold = Fin 0\<rparr>)"

definition create_s1_defaults :: "f64 \<times> f64 \<times> s1_flags" where
  "create_s1_defaults = (Fin 0, Fin 0, \<lparr>sg_product = ProductBTCUSD, sg_tick_size_minutes = 15, sg_ema_short_period = 10,
     sg_ema_long_period = 25, sg_ema_down_threshold = Fin 0, sg_ema_up_threshold = Fin 0, sg_rsi_entrance = Fin 0, sg_rsi_exit = Fin 100\<rparr>)"

text \<open>The flags of the other commands, each with its period.\<close>

record rsi_flags =
  ig_product :: product
  ig_tick_size_minutes :: u64
  ig_rsi_period :: int
  ig_rsi_entrance :: f64
  ig_rsi_exit :: f64

record optimize_flags =
  og_generations :: u64
  og_population_size :: u64
  og_product :: product
  og_strategy_type :: string
  og_tick_size_minutes :: u64

definition backtest_rsi_defaults :: rsi_flags where
  "backtest_rsi_defaults = \<lparr>ig_product = ProductBTCUSD, ig_tick_size_minutes = 15, ig_rsi_period = 14,
     ig_rsi_entrance = Fin 0, ig_rsi_exit = Fin 100\<rparr>"

definition optimize_defaults :: optimize_flags where
  "optimize_defaults = \<lparr>og_generations = 100, og_population_size = 100, og_product = ProductBTCUSD,
     og_strategy_type = TradingStrategyEMACrossover, og_tick_size_minutes = 15\<rparr>"

text \<open>The times and the product of \<open>historical-import\<close>.\<close>

definition import_defaults :: "(time \<Rightarrow> string) \<Rightarrow> time \<Rightarrow> string \<times> string \<times> product" where
  "import_defaults rfc822 now = (rfc822 (time_add now (- 30 * 24 * hour)), rfc822 now, ProductBTCUSD)"

text \<open>The strategy that \<open>backtest-s1\<close> and \<open>create-s1\<close> make of their flags.\<close>

definition s1_of_flags :: "s1_flags \<Rightarrow> s1_strategy" where
  "s1_of_flags f = \<lparr>s1_EMAShortPeriod = sg_ema_short_period f, s1_EMALongPeriod = sg_ema_long_period f,
     s1_EMAUpThreshold = sg_ema_up_threshold f, s1_EMADownThreshold = sg_ema_down_threshold f,
     s1_RSIExitThreshold = sg_rsi_exit f, s1_RSIEntranceThreshold = sg_rsi_entrance f, s1_attached = False\<rparr>"

section \<open>The commands with their flags\<close>

definition create_ema_command :: "yaml_ops \<Rightarrow> (trading_strategy_model \<Rightarrow> (int, 'w) act) \<Rightarrow> time \<Rightarrow> f64 \<times> ema_flags \<Rightarrow> (int, 'w) act" where
  "create_ema_command y create now flags = (case flags of (budget, f) \<Rightarrow>
     create_ema y create now (eg_product f) budget (eg_tick_size_minutes f) (eg_short_period f) (eg_long_period f)
       (eg_down_threshold f) (eg_up_threshold f))"

definition create_s1_command :: "yaml_ops \<Rightarrow> (trading_strategy_model \<Rightarrow> (int, 'w) act) \<Rightarrow> time \<Rightarrow> f64 \<times> f64 \<times> s1_flags \<Rightarrow> (int, 'w) act" where
  "create_s1_command y create now flags = (case flags of (invested, budget, f) \<Rightarrow>
     create_s1 y create now (sg_product f) invested budget (sg_tick_size_minutes f) (s1_of_flags f))"

definition backtest_ema_command :: "yaml_ops \<Rightarrow> 'g backtest_env \<Rightarrow> (string \<Rightarrow> time go_result) \<Rightarrow> (time \<Rightarrow> string) \<Rightarrow> 'g \<Rightarrow> run_flags \<Rightarrow> ema_flags \<Rightarrow>
    (report \<times> f64 \<times> string) go_result" where
  "backtest_ema_command y env parse rfc3339 source r f =
     backtest_ema y env parse rfc3339 source (rg_start_time r) (rg_end_time r) (eg_product f) (eg_tick_size_minutes f)
       (eg_short_period f) (eg_long_period f) (eg_down_threshold f) (eg_up_threshold f)"

definition backtest_s1_command :: "yaml_ops \<Rightarrow> 'g backtest_env \<Rightarrow> (string \<Rightarrow> time go_result) \<Rightarrow> (time \<Rightarrow> string) \<Rightarrow> 'g \<Rightarrow> run_flags \<Rightarrow> s1_flags \<Rightarrow>
    (report \<times> string) go_result" where
  "backtest_s1_command y env parse rfc3339 source r f =
     backtest_s1 y env parse rfc3339 source (rg_start_time r) (rg_end_time r) (sg_product f) (sg_tick_size_minutes f) (s1_of_flags f)"

definition backtest_rsi_command :: "yaml_ops \<Rightarrow> 'g backtest_env \<Rightarrow> (string \<Rightarrow> time go_result) \<Rightarrow> 'g \<Rightarrow> run_flags \<Rightarrow> rsi_flags \<Rightarrow> report go_result" where
  "backtest_rsi_command y env parse source r f =
     backtest_rsi y env parse source (rg_start_time r) (rg_end_time r) (ig_product f) (ig_tick_size_minutes f) (ig_rsi_period f)
       (ig_rsi_entrance f) (ig_rsi_exit f)"

definition optimize_command :: "'p search_ops \<Rightarrow> (backtester_genome \<Rightarrow> f64 go_result) \<Rightarrow> (string \<Rightarrow> time go_result) \<Rightarrow> run_flags \<Rightarrow>
    optimize_flags \<Rightarrow> f64 list go_result" where
  "optimize_command ops evaluate parse r f =
     optimize_strategy ops evaluate parse (rg_start_time r) (rg_end_time r) (og_product f) (og_tick_size_minutes f) (og_strategy_type f)
       (og_population_size f) (og_generations f)"

definition import_command :: "(string \<Rightarrow> time go_result) \<Rightarrow> (exchange_choice \<Rightarrow> 'w import_services) \<Rightarrow> runner \<Rightarrow>
    string \<times> string \<times> product \<Rightarrow> (unit, 'w) act" where
  "import_command parse sv r flags = (case flags of (startTime, endTime, p) \<Rightarrow> historical_import parse sv r p startTime endTime)"

text \<open>The bots that \<open>bot\<close> runs, each on its exchange.\<close>

definition bot_command :: "runner \<Rightarrow> (bot \<times> exchange_choice) list" where
  "bot_command r = map (\<lambda>(p, exchange). (NewBot p, exchange)) (rn_bots r)"

end
