(* ===== verification/Deployment_Specs.thy ===== *)
theory Deployment_Specs
  imports Deployment
begin

text \<open>
  What is started never calls an operation its exchange does not have, and what is backtested is what is created.
\<close>

section \<open>No operation that is missing is called\<close>

definition implemented :: "'a go_result \<Rightarrow> bool" where
  "implemented r \<longleftrightarrow> r \<noteq> Panic ''not implemented''"

definition works :: "('a, 'w) act \<Rightarrow> bool" where
  "works a \<longleftrightarrow> (\<forall>w. implemented (fst (a w)))"

named_theorems working

lemma works_bind [working]: "works a \<Longrightarrow> (\<And>x. works (f x)) \<Longrightarrow> works (bind_act a f)"
  unfolding works_def implemented_def bind_act_def
  by (clarsimp split: prod.splits go_result.splits) (metis fst_conv)

lemma works_wrap [working]: "works a \<Longrightarrow> works (wrap_act msg a)"
  unfolding works_def implemented_def wrap_act_def
  by (clarsimp split: prod.splits) (metis fst_conv go_result.distinct(7) go_result.exhaust wrap_err.simps)

lemma works_result: "implemented r \<Longrightarrow> works (result_act r)"
  by (simp add: works_def result_act_def)

lemma works_on_world [working]: "works a \<Longrightarrow> works (on_world a)"
  by (auto simp: works_def on_world_def split: prod.splits) (metis fst_conv)

lemma works_at: "works a \<Longrightarrow> a w = (r, w1) \<Longrightarrow> implemented r"
  unfolding works_def by (metis fst_conv)

lemma implemented_simps [simp]:
  "implemented (Ok a)" "implemented (Err e)" "implemented Diverge" "implemented (Panic p) \<longleftrightarrow> p \<noteq> ''not implemented''"
  by (simp_all add: implemented_def)

lemma implemented_bind: "implemented r \<Longrightarrow> (\<And>x. r = Ok x \<Longrightarrow> implemented (f x)) \<Longrightarrow> implemented (bind_result r f)"
  by (cases r) (auto simp: implemented_def result_simps)

lemma implemented_wrap: "implemented r \<Longrightarrow> implemented (wrap_err msg r)"
  by (cases r) simp_all

section \<open>The exchanges\<close>

text \<open>What the clients and channels themselves do: they may fail or panic, but not with this message.\<close>

definition venues_work :: "'w venues \<Rightarrow> bool" where
  "venues_work v \<longleftrightarrow> (\<forall>p s e k. works (gc_rates (vn_gdax v) p s e k)) \<and> (\<forall>r. works (gc_create (vn_gdax v) r)) \<and>
     (\<forall>i. works (gc_get (vn_gdax v) i)) \<and> (\<forall>t l. works (kc_ohlc (vn_kraken v) t l)) \<and>
     (\<forall>p. works (vn_messages v p)) \<and> (\<forall>p. works (vn_trades v p))"

lemma poll_works:
  assumes "\<And>i. works (gc_get g i)"
  shows "works (poll_order g i n)"
proof -
  have "implemented (fst (poll_order g i n w))" for w
  proof (induction n arbitrary: w)
    case (Suc n)
    obtain r w1 where r: "gc_get g i w = (r, w1)"
      by fastforce
    then show ?case
      using works_at[OF assms r] Suc.IH by (cases r) (simp_all add: Let_def)
  qed simp
  then show ?thesis
    by (simp add: works_def)
qed

lemma gdax_order_works:
  assumes "venues_work v"
  shows "works (gdax_CreateMarketOrder (vn_gdax v) args)"
proof -
  have "implemented (gdax_request args)"
    by (simp add: gdax_request_def Let_def split: option.split)
  then show ?thesis
    using assms unfolding gdax_CreateMarketOrder_def venues_work_def
    by (auto intro!: works_bind works_wrap works_result poll_works split: option.split)
qed

lemma gdax_candlesticks_work:
  assumes "\<And>p s e k. works (gc_rates g p s e k)"
  shows "works (gdax_GetCandlesticks g p s e k)"
  using assms unfolding gdax_GetCandlesticks_def Let_def
  by (auto intro!: works_bind works_wrap works_result)

lemma next_match_implemented: "implemented (next_match p ms)"
  by (induction ms) auto

lemma fake_order_works:
  assumes "venues_work v"
  shows "works (ex_order (NewFakeGDAXExchange v) args)"
  unfolding works_def
proof
  fix w
  have fake: "implemented (fake_CreateMarketOrder r i args)" if "implemented r" for r i
    unfolding fake_CreateMarketOrder_def
    by (intro implemented_bind next_match_implemented implemented_wrap that) (simp_all add: deref_def split: option.split)
  obtain r w1 where r: "vn_trades v (mo_product args) w = (r, w1)"
    by fastforce
  have "works (vn_trades v (mo_product args))"
    using assms by (simp add: venues_work_def)
  then have "implemented r"
    using r by (rule works_at)
  then show "implemented (fst (ex_order (NewFakeGDAXExchange v) args w))"
    using r fake by (simp add: NewFakeGDAXExchange_def)
qed

lemma stream_works:
  assumes "\<And>t l. works (kc_ohlc k t l)"
  shows "works (StreamCandlesticks k p n)"
proof -
  have "implemented (fst (kraken_rounds k p n l w))" for l w
  proof (induction n arbitrary: l w)
    case (Suc n)
    obtain r w1 where r: "kc_ohlc k (productToKrakenType p) (Some l) w = (r, w1)"
      by fastforce
    show ?case
    proof (cases r)
      case (Ok response)
      obtain q w2 where q: "kraken_rounds k p n (oh_last response) (kc_sleep k krakenSleepBetweenCandles w1) = (q, w2)"
        by fastforce
      have "implemented q"
        using Suc.IH[of "oh_last response" "kc_sleep k krakenSleepBetweenCandles w1"] q by simp
      then have "implemented (bind_result q (\<lambda>(cs, l). Ok (map (candle_of_ohlc p) (butlast (oh_ohlc response)) @ cs, l)))"
        by (rule implemented_bind) (simp split: prod.split)
      then show ?thesis
        using r Ok q Suc.IH by simp
    qed (use r works_at[OF assms r] Suc.IH in simp_all)
  qed simp
  then have "works (kraken_rounds k p n l)" for l
    by (simp add: works_def)
  then show ?thesis
    unfolding StreamCandlesticks_def using assms by (intro works_bind works_wrap) auto
qed

section \<open>The importers\<close>

lemma message_implemented: "implemented (ProcessExchangeMessage m i)"
  unfolding ProcessExchangeMessage_def
  by (intro implemented_bind) (simp_all add: CandlestickBucket_def feed_bucket_def Let_def split: option.split)

lemma flush_works:
  assumes "\<And>c. works (up c)"
  shows "implemented (fst (flush_loop up bs s))"
proof (induction bs arbitrary: s)
  case (Cons b bs)
  obtain i w where s: "s = (i, w)"
    by fastforce
  have "works (store_built up c)" for c
    unfolding works_def store_built_def using works_at[OF assms]
    by (auto split: prod.split go_result.split; force)
  then have "works (bind_act (result_act (built_candle b i)) (\<lambda>candle.
    bind_act (on_world (store_built up candle)) (\<lambda>stored (i, w).
      flush_loop up bs (if stored then delete_bucket b i else i, w))))"
    by (intro works_bind works_on_world works_result)
      (use Cons.IH in \<open>auto simp: built_candle_def works_def split: option.split\<close>)
  then show ?case
    by (simp add: s works_def)
qed simp

lemma events_work:
  assumes "\<And>c. works (up c)"
  shows "implemented (fst (process_events up es s))"
proof (induction es arbitrary: s)
  case (Cons e es)
  obtain i w where s: "s = (i, w)"
    by fastforce
  show ?case
  proof (cases e)
    case (Message m)
    have "implemented (ProcessExchangeMessage m i)"
      by (rule message_implemented)
    then show ?thesis
      using Message s Cons.IH by (cases "ProcessExchangeMessage m i") (simp_all add: bind_act_def result_act_def)
  next
    case FlushTick
    have "works (bind_act (Flush up) (\<lambda>_. process_events up es))"
      by (intro works_bind) (use flush_works[OF assms] Cons.IH in \<open>auto simp: works_def Flush_def\<close>)
    then show ?thesis
      using FlushTick s by (simp add: works_def)
  qed
qed simp

lemma upserts_work:
  assumes "\<And>c. works (up c)"
  shows "implemented (fst (StartProcessingCandlesticks up cs w))"
proof (induction cs arbitrary: w)
  case (Cons c cs)
  obtain r w1 where r: "up c w = (r, w1)"
    by fastforce
  then show ?case
    using works_at[OF assms r] Cons.IH by (cases r) simp_all
qed simp

lemma candlestick_rounds_work:
  assumes "\<And>c. works (up c)" and "works stream"
  shows "implemented (fst (candlestick_rounds sleep up stream n w))"
proof (induction n arbitrary: w)
  case (Suc n)
  obtain r w1 where r: "stream w = (r, w1)"
    by fastforce
  have "works (bind_act (StartProcessingCandlesticks up cs) (\<lambda>_. candlestick_rounds sleep up stream n))" for cs
    by (intro works_bind) (use upserts_work[OF assms(1)] Suc.IH in \<open>auto simp: works_def\<close>)
  then show ?case
    using r works_at[OF assms(2) r] Suc.IH by (cases r) (simp_all add: works_def)
qed simp

lemma message_rounds_work:
  assumes "\<And>c. works (up c)" and "works channel"
  shows "implemented (fst (message_rounds sleep up channel n s))"
proof (induction n arbitrary: s)
  case (Suc n)
  obtain i w where s: "s = (i, w)"
    by fastforce
  obtain r w1 where r: "channel w = (r, w1)"
    by fastforce
  have "works (bind_act (process_events up es) (\<lambda>_. message_rounds sleep up channel n))" for es
    by (intro works_bind) (use events_work[OF assms(1)] Suc.IH in \<open>auto simp: works_def\<close>)
  then show ?case
    using s r works_at[OF assms(2) r] Suc.IH by (cases r) (simp_all add: works_def)
qed simp

lemma exchange_stream_works:
  "venues_work v \<Longrightarrow> ex_emits (exchange_of v e) \<Longrightarrow> works (ex_stream (exchange_of v e) p)"
  by (cases e) (auto simp: NewGDAXExchange_def NewFakeGDAXExchange_def NewKrakenExchange_def NewFakeKrakenExchange_def
      gdax_EmitsFullCandlesticks_def venues_work_def intro!: works_bind stream_works works_result split: prod.splits)

lemma exchange_messages_work:
  "venues_work v \<Longrightarrow> \<not> ex_emits (exchange_of v e) \<Longrightarrow> works (ex_messages (exchange_of v e) p)"
  by (cases e) (auto simp: NewGDAXExchange_def NewFakeGDAXExchange_def NewKrakenExchange_def NewFakeKrakenExchange_def
      kraken_EmitsFullCandlesticks_def venues_work_def)

text \<open>C40. What the program starts never calls an operation that its exchange does not have. Whatever the clients
  and the database answer, no importer on any exchange, no bot and no historical import of the runner
  panics with "not implemented", while the bots and historical imports would on Kraken.\<close>

theorem nothing_missing_is_called:
  assumes "venues_work v" and "\<And>c. works (up c)"
  shows "fst (importer_Start sleep up (exchange_of v e) p n s) \<noteq> Panic ''not implemented'' \<and>
    list_all (\<lambda>(b, e). fst (ex_order (exchange_of v e) args w) \<noteq> Panic ''not implemented'') (bot_command (createRunner fake)) \<and>
    list_all (\<lambda>(p, e, k). fst (ex_candlesticks (exchange_of v e) p from till g w) \<noteq> Panic ''not implemented'') (rn_historical (createRunner fake)) \<and>
    fst (ex_order (exchange_of v Kraken) args w) = Panic ''not implemented'' \<and>
    fst (ex_candlesticks (exchange_of v Kraken) p from till g w) = Panic ''not implemented''"
proof -
  have "implemented (fst (importer_Start sleep up (exchange_of v e) p n s))"
  proof (cases "ex_emits (exchange_of v e)")
    case True
    have "works (importer_Start sleep up (exchange_of v e) p n)"
      using candlestick_rounds_work[OF assms(2) exchange_stream_works[OF assms(1) True]] True
      by (simp add: importer_Start_def works_on_world works_def[of "candlestick_rounds _ _ _ _"])
    then show ?thesis
      unfolding works_def by blast
  next
    case False
    then show ?thesis
      using message_rounds_work[OF assms(2) exchange_messages_work[OF assms(1) False]] by (simp add: importer_Start_def)
  qed
  moreover have "works (ex_order (exchange_of v e) args)" if "e \<in> {GDAX, FakeGDAX}" for e
    using that gdax_order_works[OF assms(1)] fake_order_works[OF assms(1)] by (auto simp: NewGDAXExchange_def)
  moreover have "works (ex_candlesticks (exchange_of v e) p from till g)" if "e \<in> {GDAX, FakeGDAX}" for e p
  proof -
    have "works (gdax_GetCandlesticks nil_client p from till g)" "works (gdax_GetCandlesticks (vn_gdax v) p from till g)"
      using assms(1) by (intro gdax_candlesticks_work, simp add: nil_client_def works_def venues_work_def)+
    then show ?thesis
      using that by (auto simp: NewGDAXExchange_def NewFakeGDAXExchange_def)
  qed
  moreover have "list_all (\<lambda>(b, e). e \<in> {GDAX, FakeGDAX}) (bot_command (createRunner fake))"
    and "list_all (\<lambda>(p, e, k). e \<in> {GDAX, FakeGDAX}) (rn_historical (createRunner fake))"
    by (simp_all add: bot_command_def createRunner_def Let_def)
  ultimately show ?thesis
    unfolding list_all_iff works_def implemented_def
    by (intro conjI) (fastforce, fastforce, fastforce, simp_all add: NewKrakenExchange_def kraken_CreateMarketOrder_def
        kraken_GetCandlesticks_def not_implemented_def result_act_def)
qed

text \<open>Clients that only fail.\<close>

definition failing_venues :: "unit venues" where
  "failing_venues = \<lparr>vn_gdax = \<lparr>gc_rates = (\<lambda>_ _ _ _ w. (Err (Errorf ''gdax''), w)), gc_create = (\<lambda>_ w. (Err (Errorf ''gdax''), w)),
       gc_get = (\<lambda>_ w. (Err (Errorf ''gdax''), w)), gc_sleep = (\<lambda>_ w. w)\<rparr>,
     vn_kraken = \<lparr>kc_ohlc = (\<lambda>_ _ w. (Err (Errorf ''kraken''), w)), kc_sleep = (\<lambda>_ w. w)\<rparr>,
     vn_messages = (\<lambda>_ w. (Ok [FlushTick], w)), vn_trades = (\<lambda>_ w. (Ok [], w)), vn_uuid = ''id'', vn_polls = 3\<rparr>"

theorem nothing_missing_is_called_witness:
  "fst (importer_Start (\<lambda>_ w. w) (\<lambda>_ w. (Ok (), w)) (exchange_of failing_venues Kraken) ProductXMRUSD 2 (NewRealtimeImporter ProductXMRUSD, ())) \<noteq>
     Panic ''not implemented''"
proof -
  have "venues_work failing_venues"
    by (simp add: venues_work_def failing_venues_def works_def)
  then show ?thesis
    by (rule nothing_missing_is_called[THEN conjunct1]) (simp add: works_def)
qed

section \<open>What is backtested is what is created\<close>

text \<open>The encoder of the strategies leaves out the field that is not exported.\<close>

definition encodes_exported :: "yaml_ops \<Rightarrow> bool" where
  "encodes_exported y \<longleftrightarrow> (\<forall>e a. ym_marshal y (SEMACrossover (e\<lparr>eco_attached := a\<rparr>)) = ym_marshal y (SEMACrossover e))"

text \<open>A database that records what it is given.\<close>

definition recording :: "trading_strategy_model \<Rightarrow> (int, trading_strategy_model list) act" where
  "recording m ms = (Ok 1, ms @ [m])"

text \<open>The model a backtest starts from, given the one that is created.\<close>

definition for_backtest :: "trading_strategy_model \<Rightarrow> trading_strategy_model" where
  "for_backtest m = m\<lparr>tm_next_tick_at := zero_time, tm_initial_budget := Fin 100, tm_budget := Fin 100\<rparr>"

lemma created_ema:
  assumes "encodes_exported y" and "create_ema_command y recording now (budget, f) [] = (Ok i, [m])"
  obtains md nxt data where "known_product (eg_product f) = Ok md"
    "ym_marshal y (SEMACrossover \<lparr>eco_ShortPeriod = eg_short_period f, eco_LongPeriod = eg_long_period f, eco_UpThreshold = eg_up_threshold f,
      eco_DownThreshold = eg_down_threshold f, eco_attached = False\<rparr>) = Ok data"
    "m = (new_model (eg_product f) md budget (eg_tick_size_minutes f) TradingStrategyEMACrossover)\<lparr>tm_next_tick_at := nxt, tm_data := data\<rparr>"
proof -
  let ?e = "\<lparr>eco_ShortPeriod = eg_short_period f, eco_LongPeriod = eg_long_period f, eco_UpThreshold = eg_up_threshold f,
      eco_DownThreshold = eg_down_threshold f, eco_attached = False\<rparr>"
  have "ym_marshal y (SEMACrossover (?e\<lparr>eco_attached := True\<rparr>)) = ym_marshal y (SEMACrossover ?e)"
    using assms(1) unfolding encodes_exported_def by blast
  then show thesis
    using assms(2) that
    by (auto simp: create_ema_command_def create_ema_def bind_act_def result_act_def store_strategy_def SetStrategy_def recording_def
        wrap_act_def Let_def new_model_def split: go_result.splits if_splits)
qed

lemma created_s1:
  assumes "create_s1_command y recording now (Fin 0, budget, g) [] = (Ok j, [n])"
  obtains md nxt data where "known_product (sg_product g) = Ok md" "ym_marshal y (SetTradingStrategy (SS1 (s1_of_flags g))) = Ok data"
    "n = (new_model (sg_product g) md budget (sg_tick_size_minutes g) TradingStrategyS1)\<lparr>tm_next_tick_at := nxt, tm_data := data\<rparr>"
proof -
  have "\<not> flt (Fin 0) (Fin 0)"
    by simp
  then show thesis
    using assms that
    by (auto simp: create_s1_command_def create_s1_def bind_act_def result_act_def store_strategy_def SetStrategy_def recording_def
        wrap_act_def Let_def new_model_def split: go_result.splits if_splits)
qed

text \<open>C13. With the same flags the commands that backtest a strategy run the one that the commands that create it
  store - of the same product and tick, with the same data, out of the market - but for its budget and the time it is due. Their
  defaults are the same flags, which for creating are refused until there is a budget.\<close>

theorem created_is_backtested:
  assumes "encodes_exported y"
    and "create_ema_command y recording now (budget, f) [] = (Ok i, [m])" and "create_s1_command y recording now (Fin 0, budget, g) [] = (Ok j, [n])"
  shows "backtest_ema_command y env parse rfc3339 source r f =
      bind_result (run_backtest y env parse source (rg_start_time r) (rg_end_time r) (for_backtest m)) (\<lambda>(rep, results).
      bind_result (SharpeRatio (rp_results rep)) (\<lambda>sharpe.
      bind_result (wrap_err ''error creating results CS'' (resultsCSV rfc3339 results)) (\<lambda>csv. Ok (rep, sharpe, csv)))) \<and>
    backtest_s1_command y env parse rfc3339 source r g =
      bind_result (run_backtest y env parse source (rg_start_time r) (rg_end_time r) (for_backtest n)) (\<lambda>(rep, results).
      bind_result (wrap_err ''error creating results CS'' (resultsCSV rfc3339 results)) (\<lambda>csv. Ok (rep, csv))) \<and>
    snd create_ema_defaults = backtest_ema_defaults \<and> snd (snd create_s1_defaults) = backtest_s1_defaults \<and>
    fst (create_ema_command y recording now create_ema_defaults []) = Err (Errorf ''budget must be specified'') \<and>
    fst (create_s1_command y recording now create_s1_defaults []) = Err (Errorf ''budget must be specified'')"
proof (intro conjI)
  obtain md nxt data where "known_product (eg_product f) = Ok md"
    "ym_marshal y (SEMACrossover \<lparr>eco_ShortPeriod = eg_short_period f, eco_LongPeriod = eg_long_period f, eco_UpThreshold = eg_up_threshold f,
      eco_DownThreshold = eg_down_threshold f, eco_attached = False\<rparr>) = Ok data"
    "m = (new_model (eg_product f) md budget (eg_tick_size_minutes f) TradingStrategyEMACrossover)\<lparr>tm_next_tick_at := nxt, tm_data := data\<rparr>"
    by (rule created_ema[OF assms(1,2)])
  then show "backtest_ema_command y env parse rfc3339 source r f =
      bind_result (run_backtest y env parse source (rg_start_time r) (rg_end_time r) (for_backtest m)) (\<lambda>(rep, results).
      bind_result (SharpeRatio (rp_results rep)) (\<lambda>sharpe.
      bind_result (wrap_err ''error creating results CS'' (resultsCSV rfc3339 results)) (\<lambda>csv. Ok (rep, sharpe, csv))))"
    by (simp add: backtest_ema_command_def backtest_ema_def for_backtest_def new_model_def result_simps)
  obtain md nxt data where "known_product (sg_product g) = Ok md" "ym_marshal y (SetTradingStrategy (SS1 (s1_of_flags g))) = Ok data"
    "n = (new_model (sg_product g) md budget (sg_tick_size_minutes g) TradingStrategyS1)\<lparr>tm_next_tick_at := nxt, tm_data := data\<rparr>"
    by (rule created_s1[OF assms(3)])
  then show "backtest_s1_command y env parse rfc3339 source r g =
      bind_result (run_backtest y env parse source (rg_start_time r) (rg_end_time r) (for_backtest n)) (\<lambda>(rep, results).
      bind_result (wrap_err ''error creating results CS'' (resultsCSV rfc3339 results)) (\<lambda>csv. Ok (rep, csv)))"
    by (simp add: backtest_s1_command_def backtest_s1_def attach_strategy_def SetStrategy_def for_backtest_def new_model_def result_simps Let_def)
  show "snd create_ema_defaults = backtest_ema_defaults" "snd (snd create_s1_defaults) = backtest_s1_defaults"
    by (simp_all add: create_ema_defaults_def backtest_ema_defaults_def create_s1_defaults_def backtest_s1_defaults_def)
  show "fst (create_ema_command y recording now create_ema_defaults []) = Err (Errorf ''budget must be specified'')"
    "fst (create_s1_command y recording now create_s1_defaults []) = Err (Errorf ''budget must be specified'')"
    by (simp_all add: create_ema_command_def create_s1_command_def create_ema_defaults_def create_s1_defaults_def create_ema_def create_s1_def
        known_product_def ProductToMetadata_def bind_act_def result_act_def feq_def)
qed

definition plain_yaml :: yaml_ops where
  "plain_yaml = \<lparr>ym_marshal = (\<lambda>_. Ok ''data''), ym_unmarshal_eco = (\<lambda>_. Err (Errorf ''yaml'')),
     ym_unmarshal_rsi = (\<lambda>_. Err (Errorf ''yaml'')), ym_unmarshal_s1 = (\<lambda>_. Err (Errorf ''yaml''))\<rparr>"

definition created_example :: trading_strategy_model where
  "created_example = hd (snd (create_ema_command plain_yaml recording candlestickBaseTime (Fin 100, backtest_ema_defaults) []))"

definition created_s1_example :: trading_strategy_model where
  "created_s1_example = hd (snd (create_s1_command plain_yaml recording candlestickBaseTime (Fin 0, Fin 100, backtest_s1_defaults) []))"

lemma examples_created:
  "create_ema_command plain_yaml recording candlestickBaseTime (Fin 100, backtest_ema_defaults) [] = (Ok 1, [created_example])"
  "create_s1_command plain_yaml recording candlestickBaseTime (Fin 0, Fin 100, backtest_s1_defaults) [] = (Ok 1, [created_s1_example])"
  by code_simp+

theorem created_is_backtested_witness:
  "\<forall>env parse rfc3339 source r. backtest_s1_command plain_yaml env parse rfc3339 source r backtest_s1_defaults =
     bind_result (run_backtest plain_yaml env parse source (rg_start_time r) (rg_end_time r) (for_backtest created_s1_example)) (\<lambda>(rep, results).
     bind_result (wrap_err ''error creating results CS'' (resultsCSV rfc3339 results)) (\<lambda>csv. Ok (rep, csv)))"
proof -
  have "encodes_exported plain_yaml"
    by (simp add: encodes_exported_def plain_yaml_def)
  then show ?thesis
    by (intro allI) (rule created_is_backtested[OF _ examples_created, THEN conjunct2, THEN conjunct1])
qed

end
