(* ===== verification/Program.thy ===== *)
theory Program
  imports Configuration
begin

text \<open>
  The whole program: \<open>main\<close> of \<open>main.go\<close> over the commands of \<open>cli.go\<close>. A command line is given as the persistent flags
  it sets and the command with its flags, the work of cobra. A run of the program ends with the status of the process.
\<close>

section \<open>The world of the commands\<close>

datatype invocation =
    Root
  | RealtimeImport
  | RunBots
  | BacktestEMA run_flags ema_flags
  | BacktestS1 run_flags s1_flags
  | BacktestRSI run_flags rsi_flags
  | OptimizeStrategy run_flags optimize_flags
  | ImportHistory string string product
  | Migrate
  | Rollback
  | CreateEMA f64 ema_flags
  | CreateS1 f64 f64 s1_flags

text \<open>What the commands use beside the process: codec and parsers, the clock, the services of the database, the exchanges,
  the candlesticks and the random source of a backtest, the search, the migrations, the files, the program that
  draws graphs, and the schedule of the goroutines, of which each importer runs its rounds and each bot its polls.\<close>

record ('d, 'w, 'g, 'p) platform =
  pl_packages :: "('d, 'w) packages"
  pl_yaml :: yaml_ops
  pl_formats :: formats
  pl_parse_time :: "string \<Rightarrow> time go_result"
  pl_rfc3339 :: "time \<Rightarrow> string"
  pl_now :: "'w \<Rightarrow> time"
  pl_sleep :: "duration \<Rightarrow> 'w \<Rightarrow> 'w"
  pl_venues :: "'w venues"
  pl_upsert :: "'d \<Rightarrow> candlestick \<Rightarrow> (unit, 'w) act"
  pl_create_strategy :: "'d \<Rightarrow> trading_strategy_model \<Rightarrow> (int, 'w) act"
  pl_services :: "'d \<Rightarrow> 'w exchange \<Rightarrow> 'w services"
  pl_backtest :: "'d \<Rightarrow> 'w \<Rightarrow> 'g backtest_env"
  pl_random :: "'w \<Rightarrow> 'g"
  pl_search :: "'p search_ops"
  pl_evaluate :: "'d \<Rightarrow> 'w \<Rightarrow> backtester_genome \<Rightarrow> f64 go_result"
  pl_migrate :: "string \<Rightarrow> ('w migrate_ops, 'w) act"
  pl_create_file :: "string \<Rightarrow> (unit, 'w) act"
  pl_copy :: "string \<Rightarrow> string \<Rightarrow> (unit, 'w) act"
  pl_graph :: "string \<Rightarrow> (unit, 'w) act"
  pl_rounds :: nat
  pl_go :: "(unit, 'w) act list \<Rightarrow> (unit, 'w) act"

section \<open>Running the commands\<close>

text \<open>An operation on a state that starts new and is not kept.\<close>

definition run_new :: "'s \<Rightarrow> (unit, 's \<times> 'w) act \<Rightarrow> (unit, 'w) act" where
  "run_new s a w = (case a (s, w) of (r, (_, w1)) \<Rightarrow> (r, w1))"

text \<open>The products of \<open>ProductToMetadata\<close>, one importer each.\<close>

definition all_products :: "product list" where
  "all_products = [ProductBTCUSD, ProductETHUSD, ProductLTCUSD, ProductXMRUSD, ProductBCHUSD, ProductDashUSD, ProductZcashUSD, ProductXRPUSD]"

definition start_importer :: "('d, 'w, 'g, 'p) platform \<Rightarrow> ('d, 'w) application \<Rightarrow> product \<Rightarrow> (unit, 'w) act" where
  "start_importer pl a p = (case realtime_import (ap_runner a) p of
     Some (importer, exchange) \<Rightarrow> run_new importer
       (importer_Start (pl_sleep pl) (pl_upsert pl (ap_database a)) (exchange_of (pl_venues pl) exchange) p (pl_rounds pl))
   | None \<Rightarrow> result_act (Ok ()))"

definition run_importers :: "('d, 'w, 'g, 'p) platform \<Rightarrow> ('d, 'w) application \<Rightarrow> (unit, 'w) act" where
  "run_importers pl a = pl_go pl (map (start_importer pl a) all_products)"

definition run_bots :: "('d, 'w, 'g, 'p) platform \<Rightarrow> ('d, 'w) application \<Rightarrow> (unit, 'w) act" where
  "run_bots pl a = pl_go pl (map (\<lambda>(b, exchange).
     run_new b (Run_posting (pl_yaml pl) (pl_formats pl) (ap_notifier a) (pl_services pl (ap_database a) (exchange_of (pl_venues pl) exchange)) (pl_rounds pl)))
     (bot_command (ap_runner a)))"

text \<open>The file of the results, and the graph when it is asked for.\<close>

definition write_results :: "('d, 'w, 'g, 'p) platform \<Rightarrow> string \<Rightarrow> string \<Rightarrow> (unit, 'w) act" where
  "write_results pl resultsFile reader =
    bind_act (wrap_act ''error opening file'' (pl_create_file pl resultsFile)) (\<lambda>_.
    wrap_act ''error copying to file'' (pl_copy pl resultsFile reader))"

definition draw_graph :: "('d, 'w, 'g, 'p) platform \<Rightarrow> bool \<Rightarrow> string \<Rightarrow> (unit, 'w) act" where
  "draw_graph pl generatePlotlyGraph name =
    (if generatePlotlyGraph then wrap_act ''error creating plotly graph'' (pl_graph pl name) else result_act (Ok ()))"

definition ema_of_flags :: "ema_flags \<Rightarrow> ema_crossover" where
  "ema_of_flags f = \<lparr>eco_ShortPeriod = eg_short_period f, eco_LongPeriod = eg_long_period f, eco_UpThreshold = eg_up_threshold f,
     eco_DownThreshold = eg_down_threshold f, eco_attached = False\<rparr>"

definition run_backtest_ema :: "('d, 'w, 'g, 'p) platform \<Rightarrow> ('d, 'w) application \<Rightarrow> run_flags \<Rightarrow> ema_flags \<Rightarrow> (unit, 'w) act" where
  "run_backtest_ema pl a r f w =
    bind_act (result_act (backtest_ema_command (pl_yaml pl) (pl_backtest pl (ap_database a) w) (pl_parse_time pl)
      (pl_rfc3339 pl) (pl_random pl w) r f)) (\<lambda>(rep, sharpe, csv).
    bind_act (write_results pl (rg_results_file r) csv) (\<lambda>_.
    draw_graph pl (rg_graph r) (strategy_String (SEMACrossover (ema_of_flags f))))) w"

definition run_backtest_s1 :: "('d, 'w, 'g, 'p) platform \<Rightarrow> ('d, 'w) application \<Rightarrow> run_flags \<Rightarrow> s1_flags \<Rightarrow> (unit, 'w) act" where
  "run_backtest_s1 pl a r f w =
    bind_act (result_act (backtest_s1_command (pl_yaml pl) (pl_backtest pl (ap_database a) w) (pl_parse_time pl)
      (pl_rfc3339 pl) (pl_random pl w) r f)) (\<lambda>(rep, csv).
    bind_act (write_results pl (rg_results_file r) csv) (\<lambda>_ w1.
    draw_graph pl (rg_graph r) (''s1-'' @ show_d (pl_now pl w1 div second)) w1)) w"

definition run_backtest_rsi :: "('d, 'w, 'g, 'p) platform \<Rightarrow> ('d, 'w) application \<Rightarrow> run_flags \<Rightarrow> rsi_flags \<Rightarrow> (unit, 'w) act" where
  "run_backtest_rsi pl a r f w =
    bind_act (result_act (backtest_rsi_command (pl_yaml pl) (pl_backtest pl (ap_database a) w) (pl_parse_time pl) (pl_random pl w) r f))
      (\<lambda>_. result_act (Ok ())) w"

definition run_optimize :: "('d, 'w, 'g, 'p) platform \<Rightarrow> ('d, 'w) application \<Rightarrow> run_flags \<Rightarrow> optimize_flags \<Rightarrow> (unit, 'w) act" where
  "run_optimize pl a r f w =
    bind_act (result_act (optimize_command (pl_search pl) (pl_evaluate pl (ap_database a) w) (pl_parse_time pl) r f))
      (\<lambda>_. result_act (Ok ())) w"

definition ignore_result :: "('a, 'w) act \<Rightarrow> (unit, 'w) act" where
  "ignore_result a = bind_act a (\<lambda>_. result_act (Ok ()))"

text \<open>A command that got the runner.\<close>

fun run_command :: "('d, 'w, 'g, 'p) platform \<Rightarrow> ('d, 'w) application \<Rightarrow> invocation \<Rightarrow> (unit, 'w) act" where
  "run_command pl a RealtimeImport w = run_importers pl a w"
| "run_command pl a RunBots w = run_bots pl a w"
| "run_command pl a (BacktestEMA r f) w = run_backtest_ema pl a r f w"
| "run_command pl a (BacktestS1 r f) w = run_backtest_s1 pl a r f w"
| "run_command pl a (BacktestRSI r f) w = run_backtest_rsi pl a r f w"
| "run_command pl a (OptimizeStrategy r f) w = run_optimize pl a r f w"
| "run_command pl a (ImportHistory s e p) w = import_command (pl_parse_time pl)
     (import_services_of (vn_gdax (pl_venues pl)) (pl_upsert pl (ap_database a))) (ap_runner a) (s, e, p) w"
| "run_command pl a (CreateEMA budget f) w =
     ignore_result (create_ema_command (pl_yaml pl) (pl_create_strategy pl (ap_database a)) (pl_now pl w) (budget, f)) w"
| "run_command pl a (CreateS1 invested budget f) w =
     ignore_result (create_s1_command (pl_yaml pl) (pl_create_strategy pl (ap_database a)) (pl_now pl w) (invested, budget, f)) w"
| "run_command pl a _ w = (Ok (), w)"

text \<open>The commands that open the database themselves.\<close>

definition with_migrations :: "('d, 'w, 'g, 'p) platform \<Rightarrow> ('w migrate_ops \<Rightarrow> (unit, 'w) act) \<Rightarrow> (unit, ('d, 'w) process \<times> 'w) act" where
  "with_migrations pl command = bind_act get_model (\<lambda>p.
     on_world (bind_act (wrap_act ''error creating migrator'' (pl_migrate pl (GetString p ''postgres''))) command))"

definition on_process :: "('a, 'p) act \<Rightarrow> ('a, 'p \<times> 'w) act" where
  "on_process a s = (case a (fst s) of (r, p) \<Rightarrow> (r, (p, snd s)))"

fun run_invocation :: "('d, 'w, 'g, 'p) platform \<Rightarrow> invocation \<Rightarrow> (unit, ('d, 'w) process \<times> 'w) act" where
  "run_invocation pl Root s = (Ok (), s)"
| "run_invocation pl Migrate s = with_migrations pl migrate_command s"
| "run_invocation pl Rollback s = with_migrations pl rollback_command s"
| "run_invocation pl c s =
     bind_act (wrap_act ''error getting runner'' (on_process (GetRunner (pl_packages pl)))) (\<lambda>a. on_world (run_command pl a c)) s"

section \<open>The process\<close>

text \<open>\<open>Execute\<close>: the command line is read, then the configuration file it may name.\<close>

definition Execute :: "('d, 'w, 'g, 'p) platform \<Rightarrow> ((string \<rightharpoonup> string) \<times> invocation) go_result \<Rightarrow> (unit, ('d, 'w) process \<times> 'w) act" where
  "Execute pl line =
    bind_act (result_act (wrap_err ''error starting vespyr'' line)) (\<lambda>(given, command) (p, w).
    bind_act (on_process initConfig) (\<lambda>_. run_invocation pl command) (set_flags given p, w))"

definition exit_status :: "'a go_result \<Rightarrow> int option" where
  "exit_status r = (case r of Ok _ \<Rightarrow> Some 0 | Err _ \<Rightarrow> Some 1 | Panic _ \<Rightarrow> Some 2 | Diverge \<Rightarrow> None)"

text \<open>A run of the program: the status it exits with, and the world it leaves.\<close>

definition vespyr :: "('d, 'w, 'g, 'p) platform \<Rightarrow> (string \<Rightarrow> string) \<Rightarrow> (string \<Rightarrow> settings_file go_result) \<Rightarrow>
    ((string \<rightharpoonup> string) \<times> invocation) go_result \<Rightarrow> 'w \<Rightarrow> int option \<times> 'w" where
  "vespyr pl env files line w =
    (case bind_act (on_process init) (\<lambda>_. Execute pl line) (new_process env files, w) of
       (r, (_, w1)) \<Rightarrow> (exit_status r, w1))"

end
