(* ===== verification/Program_Specs.thy ===== *)
theory Program_Specs
  imports Program
begin

text \<open>
  What a run of the program depends on: which source of settings wins, when orders go to a real exchange, and that a
  run which is refused ends with status one before it did anything.
\<close>

section \<open>The settings of a run\<close>

text \<open>The configuration file in force: the one the command line names, or else the one the environment names.\<close>

definition loaded_file :: "(string \<Rightarrow> string) \<Rightarrow> (string \<Rightarrow> settings_file go_result) \<Rightarrow> (string \<rightharpoonup> string) \<Rightarrow> settings_file go_result" where
  "loaded_file env files given =
    bind_result (wrap_err ''Can't read config'' (if env ''CONFIG_FILE'' \<noteq> [] then files (env ''CONFIG_FILE'') else Ok Map.empty)) (\<lambda>file.
    case given ''config-file'' of
      Some path \<Rightarrow> if path \<noteq> [] then wrap_err ''Can't read config'' (files path) else Ok file
    | None \<Rightarrow> Ok file)"

definition start :: "(string \<rightharpoonup> string) \<Rightarrow> (unit, ('d, 'w) process) act" where
  "start given = bind_act init (\<lambda>_ p. initConfig (set_flags given p))"

text \<open>A process that started with a file.\<close>

definition started :: "(string \<Rightarrow> string) \<Rightarrow> (string \<rightharpoonup> string) \<Rightarrow> settings_file \<Rightarrow> ('d, 'w) process \<Rightarrow> bool" where
  "started env given file p \<longleftrightarrow> ps_env p = env \<and> ps_flags p = map (set_flag given) persistent_flags \<and> ps_app p = None \<and>
     vp_automatic_env (ps_viper p) \<and> vp_bound (ps_viper p) = bound_flags \<and> vp_config (ps_viper p) = file"

lemma upper_keys:
  "ToUpper ''config_file'' = ''CONFIG_FILE''" "ToUpper ''use_fake_exchange'' = ''USE_FAKE_EXCHANGE''" "ToUpper ''postgres'' = ''POSTGRES''"
  by code_simp+

lemma bound_flag_default:
  assumes "vp_bound (ps_viper p) = bound_flags" and "ps_flags p = persistent_flags"
  shows "bound_flag p ''config_file'' = Some (StringVar ''config-file'' [])"
  by (simp add: bound_flag_def assms bound_flags_def persistent_flags_def StringVar_def BoolVar_def)

definition fresh :: "(string \<Rightarrow> string) \<Rightarrow> (string \<Rightarrow> settings_file go_result) \<Rightarrow> ('d, 'w) process" where
  "fresh env files = (new_process env files)\<lparr>ps_flags := persistent_flags,
     ps_viper := New_viper\<lparr>vp_automatic_env := True, vp_bound := bound_flags\<rparr>\<rparr>"

lemma new_process_viper [simp]: "ps_viper (new_process env files) = New_viper"
  by (simp add: new_process_def)

lemma GetString_fresh: "GetString (fresh env files) ''config_file'' = env ''CONFIG_FILE''"
  by (simp add: GetString_def viper_find_def bound_flag_default fresh_def New_viper_def new_process_def upper_keys
      StringVar_def flag_setting_def Let_def)

lemma fresh_files [simp]: "ps_files (fresh env files) = files"
  by (simp add: fresh_def new_process_def)

lemma init_new:
  "init (new_process env files) =
    (if env ''CONFIG_FILE'' \<noteq> [] then read_config (env ''CONFIG_FILE'') (fresh env files) else (Ok (), fresh env files))"
  unfolding init_def by (simp add: fresh_def Let_def GetString_fresh[unfolded fresh_def])

lemma find_given:
  "List.find (\<lambda>f. fl_name f = n) (map (set_flag given) fs) = map_option (set_flag given) (List.find (\<lambda>f. fl_name f = n) fs)"
  by (induction fs) (auto simp: set_flag_def split: option.split)

lemma persistent_lookups:
  "List.find (\<lambda>f. fl_name f = ''config-file'') persistent_flags = Some (StringVar ''config-file'' [])"
  "List.find (\<lambda>f. fl_name f = ''use-fake-exchange'') persistent_flags = Some (BoolVar ''use-fake-exchange'' False)"
  "''false'' \<notin> set true_texts"
  "map_of bound_flags ''use_fake_exchange'' = Some ''use-fake-exchange''"
  by code_simp+

lemma app_config_file_given:
  "ps_flags p = map (set_flag given) persistent_flags \<Longrightarrow>
    app_config_file p = (case given ''config-file'' of Some path \<Rightarrow> path | None \<Rightarrow> [])"
  by (simp add: app_config_file_def find_given persistent_lookups set_flag_def StringVar_def split: option.split)

lemma app_config_file_fresh:
  "app_config_file (set_flags given (fresh env files)) = (case given ''config-file'' of Some path \<Rightarrow> path | None \<Rightarrow> [])"
  by (rule app_config_file_given) (simp add: set_flags_def fresh_def)

lemma started_simps:
  "started env given file (set_flags given (fresh env files)) \<longleftrightarrow> file = Map.empty"
  "started env given file (set_flags given ((fresh env files)\<lparr>ps_viper := (ps_viper (fresh env files))\<lparr>vp_config_file := path, vp_config := file'\<rparr>\<rparr>)) \<longleftrightarrow> file = file'"
  by (auto simp: started_def fresh_def new_process_def set_flags_def New_viper_def)

lemma read_config_started:
  assumes "started env given file p" and "read_config path p = (Ok (), p1)"
  shows "\<exists>file1. ps_files p path = Ok file1 \<and> started env given file1 p1"
  using assms by (cases "ps_files p path") (auto simp: read_config_def started_def Let_def)

text \<open>The process after \<open>init\<close>, with the command line read.\<close>

lemma init_started:
  assumes "init (new_process env files) = (Ok (), p)"
  shows "\<exists>file. wrap_err ''Can't read config'' (if env ''CONFIG_FILE'' \<noteq> [] then files (env ''CONFIG_FILE'') else Ok Map.empty) = Ok file \<and>
    started env given file (set_flags given p) \<and> ps_files p = files"
proof (cases "env ''CONFIG_FILE'' = []")
  case True
  then show ?thesis
    using assms by (auto simp: init_new started_simps)
next
  case False
  then have "read_config (env ''CONFIG_FILE'') (fresh env files) = (Ok (), p)"
    using assms by (simp add: init_new)
  then show ?thesis
    using False by (cases "files (env ''CONFIG_FILE'')") (auto simp: read_config_def Let_def started_simps)
qed

lemma initConfig_started:
  assumes "started env given file p" and "initConfig p = (Ok (), p1)"
  shows "\<exists>file1. (case given ''config-file'' of
      Some path \<Rightarrow> if path \<noteq> [] then wrap_err ''Can't read config'' (ps_files p path) else Ok file
    | None \<Rightarrow> Ok file) = Ok file1 \<and> started env given file1 p1"
proof -
  have "app_config_file p = (case given ''config-file'' of Some path \<Rightarrow> path | None \<Rightarrow> [])"
    using assms(1) by (intro app_config_file_given) (simp add: started_def)
  then show ?thesis
    using assms read_config_started[OF assms(1)] by (auto simp: initConfig_def split: option.splits if_splits)
qed

lemma start_Ok:
  assumes "start given (new_process env files) = (Ok (), p)"
  shows "\<exists>file. loaded_file env files given = Ok file \<and> started env given file p"
proof -
  obtain p0 where p0: "init (new_process env files) = (Ok (), p0)" "initConfig (set_flags given p0) = (Ok (), p)"
    using assms by (auto simp: start_def bind_act_def split: prod.splits go_result.splits)
  obtain cfg_file where cfg: "wrap_err ''Can't read config'' (if env ''CONFIG_FILE'' \<noteq> [] then files (env ''CONFIG_FILE'') else Ok Map.empty) = Ok cfg_file"
    "started env given cfg_file (set_flags given p0)" "ps_files p0 = files"
    using init_started[OF p0(1)] by blast
  have files: "ps_files (set_flags given p0) = files"
    using cfg(3) by (simp add: set_flags_def)
  show ?thesis
    using initConfig_started[OF cfg(2) p0(2), unfolded files] unfolding loaded_file_def cfg(1) by simp
qed

section \<open>Real orders\<close>

text \<open>Whether the settings ask for the fake exchanges.\<close>

definition asks_for_fake :: "(string \<Rightarrow> string) \<Rightarrow> (string \<rightharpoonup> string) \<Rightarrow> settings_file \<Rightarrow> bool" where
  "asks_for_fake env given file \<longleftrightarrow> (case given ''use-fake-exchange'' of
     Some t \<Rightarrow> t \<in> set true_texts
   | None \<Rightarrow> if env ''USE_FAKE_EXCHANGE'' \<noteq> [] then env ''USE_FAKE_EXCHANGE'' \<in> set true_texts
             else ToBool (file ''use_fake_exchange''))"

lemma bound_use_fake:
  assumes "started env given file p"
  shows "bound_flag p ''use_fake_exchange'' = Some (set_flag given (BoolVar ''use-fake-exchange'' False))"
  using assms by (simp add: bound_flag_def started_def find_given persistent_lookups)

lemma GetBool_fake:
  assumes "started env given file p"
  shows "GetBool p ''use_fake_exchange'' = asks_for_fake env given file"
  unfolding GetBool_def viper_find_def bound_use_fake[OF assms]
  using assms by (auto simp: started_def upper_keys asks_for_fake_def set_flag_def flag_setting_def BoolVar_def persistent_lookups Let_def
      split: option.splits)

lemma bots_exchange: "(b, e) \<in> set (bot_command (createRunner fake)) \<Longrightarrow> e = (if fake then FakeGDAX else GDAX)"
  by (auto simp: bot_command_def createRunner_def)

lemma GetRunner_new:
  assumes "ps_app p = None" and "GetRunner pk p = (Ok a, p1)"
  shows "ap_runner a = createRunner (GetBool (set_logging p) ''use_fake_exchange'') \<and> ps_app p1 = Some a"
  using assms by (auto simp: GetRunner_def create_runner_def wrap_act_def bind_act_def result_act_def Let_def
      split: prod.splits go_result.splits)

lemma set_logging_started [simp]: "started env given file (set_logging p) = started env given file p"
  by (simp add: started_def set_logging_def)

lemma runner_of_settings:
  assumes "start given (new_process env files) = (Ok (), p)" and "GetRunner pk p = (Ok a, p1)"
  shows "\<exists>file. loaded_file env files given = Ok file \<and>
    rn_gdax (ap_runner a) = (if asks_for_fake env given file then FakeGDAX else GDAX) \<and>
    snd ` set (bot_command (ap_runner a)) = {if asks_for_fake env given file then FakeGDAX else GDAX}"
proof -
  obtain cfg_file where cfg: "loaded_file env files given = Ok cfg_file" "started env given cfg_file p"
    using start_Ok[OF assms(1)] by blast
  have "GetBool (set_logging p) ''use_fake_exchange'' = asks_for_fake env given cfg_file"
    using cfg(2) by (intro GetBool_fake) simp
  then have "ap_runner a = createRunner (asks_for_fake env given cfg_file)"
    using GetRunner_new[OF _ assms(2)] cfg(2) by (simp add: started_def)
  then show ?thesis
    using cfg(1) by (auto simp: createRunner_def bot_command_def)
qed

text \<open>C15. Real orders are the default. In a process that started, the bots trade on the fake exchange exactly if the
  settings ask for it: the flag on the command line if it is there, or else the variable \<open>USE_FAKE_EXCHANGE\<close>
  unless it is empty, or else the configuration file in force, and only with a text that Go takes for true. Every
  other text, such as \<open>yes\<close> or \<open>on\<close>, sends the orders of the bots to the real exchange without an error.\<close>

theorem fake_exchange_is_opt_in:
  assumes "start given (new_process env files) = (Ok (), p)" and "GetRunner pk p = (Ok a, p1)"
  shows "\<exists>file. loaded_file env files given = Ok file \<and>
    rn_gdax (ap_runner a) = (if asks_for_fake env given file then FakeGDAX else GDAX) \<and>
    snd ` set (bot_command (ap_runner a)) = {if asks_for_fake env given file then FakeGDAX else GDAX}"
  by (rule runner_of_settings[OF assms])

definition yes_env :: "string \<Rightarrow> string" where
  "yes_env key = (if key = ''USE_FAKE_EXCHANGE'' then ''yes'' else [])"

definition example_packages :: "(string, nat) packages" where
  "example_packages = \<lparr>pk_ParseURL = Ok, pk_slack = (\<lambda>_ _ _ _ w. (Ok (), w))\<rparr>"

lemma GetRunner_example: "\<exists>a p1. GetRunner example_packages p = (Ok a, p1)"
  by (cases "ps_app p") (auto simp: GetRunner_def create_runner_def wrap_act_def bind_act_def result_act_def Let_def example_packages_def)

lemma fake_exchange_is_opt_in_witness:
  "\<exists>p p1 a. start Map.empty (new_process yes_env (\<lambda>_. Err ErrNotExist)) = (Ok (), p) \<and>
    GetRunner example_packages p = (Ok a, p1) \<and> snd ` set (bot_command (ap_runner a)) = {GDAX}"
proof -
  have env: "yes_env ''CONFIG_FILE'' = []" "yes_env ''USE_FAKE_EXCHANGE'' = ''yes''" "''yes'' \<notin> set true_texts"
    by code_simp+
  define p where "p = snd (start Map.empty (new_process yes_env (\<lambda>_. Err ErrNotExist) :: (string, nat) process))"
  have start: "start Map.empty (new_process yes_env (\<lambda>_. Err ErrNotExist)) = (Ok (), p)"
    unfolding p_def by (simp add: start_def bind_act_def init_new env initConfig_def app_config_file_fresh)
  obtain a p1 where run: "GetRunner example_packages p = (Ok a, p1)"
    using GetRunner_example by blast
  have "snd ` set (bot_command (ap_runner a)) = {GDAX}"
    using fake_exchange_is_opt_in[OF start run] env by (auto simp: asks_for_fake_def)
  then show ?thesis
    using start run by blast
qed

lemma bind_act_cong:
  "(\<And>a s1. m s = (Ok a, s1) \<Longrightarrow> f a s1 = g a s1) \<Longrightarrow> bind_act m f s = bind_act m g s"
  by (auto simp: bind_act_def split: prod.split go_result.split)

lemma fake_ignores_client: "NewFakeGDAXExchange (v\<lparr>vn_gdax := client\<rparr>) = NewFakeGDAXExchange v"
  by (simp add: NewFakeGDAXExchange_def NewGDAXExchange_def)

lemma fake_bots_ignore_client:
  assumes "snd ` set (bot_command (ap_runner a)) = {FakeGDAX}"
  shows "run_bots (pl\<lparr>pl_venues := (pl_venues pl)\<lparr>vn_gdax := client\<rparr>\<rparr>) a = run_bots pl a"
proof -
  have "map (\<lambda>be. (fst be, FakeGDAX)) (bot_command (ap_runner a)) = bot_command (ap_runner a)"
    using assms by (intro map_idI) (metis imageI prod.collapse singletonD)
  then have "bot_command (ap_runner a) = map (\<lambda>b. (b, FakeGDAX)) (map fst (bot_command (ap_runner a)))"
    by (simp add: comp_def)
  then obtain bs where bs: "bot_command (ap_runner a) = map (\<lambda>b. (b, FakeGDAX)) bs"
    by blast
  show ?thesis
    by (simp add: run_bots_def bs comp_def fake_ignores_client)
qed

lemma Execute_bind:
  "Execute pl (Ok (given, c)) (p, w) = bind_act (on_process initConfig) (\<lambda>_. run_invocation pl c) (set_flags given p, w)"
  by (simp add: Execute_def bind_act_def[of "result_act _"] result_act_def)

lemma on_process_Ok: "on_process A (p, w) = (Ok a, s) \<longleftrightarrow> (\<exists>p1. A p = (Ok a, p1) \<and> s = (p1, w))"
  by (auto simp: on_process_def split: prod.splits)

text \<open>C14. A run with the fake exchange never trades. When the settings of a run ask for the fake exchange, the run of
  the bots does not depend on the client of the real one: with any other client, one that fails every call or one that
  accepts every order, the run has the same status and leaves the same world.\<close>

theorem fake_run_never_trades:
  assumes "\<And>file. loaded_file env files given = Ok file \<Longrightarrow> asks_for_fake env given file"
  shows "vespyr (pl\<lparr>pl_venues := (pl_venues pl)\<lparr>vn_gdax := client\<rparr>\<rparr>) env files (Ok (given, RunBots)) w =
    vespyr pl env files (Ok (given, RunBots)) w"
proof -
  let ?pl = "pl\<lparr>pl_venues := (pl_venues pl)\<lparr>vn_gdax := client\<rparr>\<rparr>"
  have bots: "run_bots ?pl a w1 = run_bots pl a w1"
    if run: "init (new_process env files) = (Ok (), p0)" "initConfig (set_flags given p0) = (Ok (), p)"
      "GetRunner (pl_packages pl) p = (Ok a, p1)" for p0 p p1 a w1
  proof -
    have "start given (new_process env files) = (Ok (), p)"
      using run(1,2) by (simp add: start_def bind_act_def)
    then obtain cfg_file where "loaded_file env files given = Ok cfg_file"
        "snd ` set (bot_command (ap_runner a)) = {if asks_for_fake env given cfg_file then FakeGDAX else GDAX}"
      using runner_of_settings[OF _ run(3)] by blast
    then have "snd ` set (bot_command (ap_runner a)) = {FakeGDAX}"
      using assms by simp
    then show ?thesis
      by (simp add: fake_bots_ignore_client)
  qed
  have "bind_act (on_process init) (\<lambda>_. Execute ?pl (Ok (given, RunBots))) (new_process env files, w) =
      bind_act (on_process init) (\<lambda>_. Execute pl (Ok (given, RunBots))) (new_process env files, w)"
    using bots by (intro bind_act_cong)
      (auto simp: on_process_Ok Execute_bind on_world_def wrap_act_def result_act_def split: prod.splits intro!: bind_act_cong)
  then show ?thesis
    by (simp add: vespyr_def)
qed

theorem fake_run_never_trades_witness:
  "\<forall>pl :: (string, nat, nat, nat) platform. vespyr (pl\<lparr>pl_venues := (pl_venues pl)\<lparr>vn_gdax := nil_client\<rparr>\<rparr>) yes_env (\<lambda>_. Err ErrNotExist)
      (Ok ([''use-fake-exchange'' \<mapsto> ''true''], RunBots)) 7 =
    vespyr pl yes_env (\<lambda>_. Err ErrNotExist) (Ok ([''use-fake-exchange'' \<mapsto> ''true''], RunBots)) 7"
  by (intro allI fake_run_never_trades) (simp add: asks_for_fake_def true_texts_def)

text \<open>The runner is made once: what changes in the settings later has no effect.\<close>

lemma runner_is_made_once:
  assumes "GetRunner pk p = (Ok a, p1)" and "ps_app p2 = ps_app p1"
  shows "GetRunner pk p2 = (Ok a, p2)"
  using assms GetRunner_new[of p pk a p1] by (cases "ps_app p") (auto simp: GetRunner_def split: prod.splits)

section \<open>Refused runs\<close>

fun refused :: "invocation \<Rightarrow> bool" where
  "refused (BacktestEMA r f) = (ProductToMetadata (eg_product f) = None)"
| "refused (BacktestS1 r f) = (ProductToMetadata (sg_product f) = None)"
| "refused (BacktestRSI r f) = (ProductToMetadata (ig_product f) = None)"
| "refused (OptimizeStrategy r f) = (ProductToMetadata (og_product f) = None)"
| "refused (CreateEMA budget f) = (ProductToMetadata (eg_product f) = None \<or> feq budget (Fin 0))"
| "refused (CreateS1 invested budget f) = (ProductToMetadata (sg_product f) = None \<or> feq budget (Fin 0))"
| "refused (ImportHistory s e p) = (p \<notin> {ProductBTCUSD, ProductETHUSD, ProductLTCUSD})"
| "refused _ = False"

text \<open>A parser that answers, if only with an error.\<close>

fun answered :: "'a go_result \<Rightarrow> bool" where
  "answered (Ok _) = True"
| "answered (Err _) = True"
| "answered _ = False"

lemma answered_cases: "answered r \<Longrightarrow> (\<exists>a. r = Ok a) \<or> (\<exists>e. r = Err e)"
  by (cases r) auto

text \<open>A process whose runner, if it has one, was made by \<open>createRunner\<close>; an operation that fails without a change to
  the world of such a process; and one that answers.\<close>

definition sound_process :: "(string \<Rightarrow> settings_file go_result) \<Rightarrow> ('d, 'w) process \<Rightarrow> bool" where
  "sound_process files p \<longleftrightarrow> ps_files p = files \<and> (\<forall>a. ps_app p = Some a \<longrightarrow> (\<exists>fake. ap_runner a = createRunner fake))"

definition idle :: "(string \<Rightarrow> settings_file go_result) \<Rightarrow> ('a, ('d, 'w) process \<times> 'w) act \<Rightarrow> bool" where
  "idle files A \<longleftrightarrow> (\<forall>p w. sound_process files p \<longrightarrow> (\<exists>e p1. A (p, w) = (Err e, (p1, w))))"

definition quiet :: "(string \<Rightarrow> settings_file go_result) \<Rightarrow> ('a \<Rightarrow> bool) \<Rightarrow> ('a, ('d, 'w) process) act \<Rightarrow> bool" where
  "quiet files P A \<longleftrightarrow> (\<forall>p. sound_process files p \<longrightarrow>
     answered (fst (A p)) \<and> sound_process files (snd (A p)) \<and> (\<forall>a. fst (A p) = Ok a \<longrightarrow> P a))"

lemma idle_bind:
  assumes "quiet files P A" and "\<And>a. P a \<Longrightarrow> idle files (F a)"
  shows "idle files (bind_act (on_process A) F)"
  unfolding idle_def
proof (intro allI impI)
  fix p :: "('b, 'c) process" and w :: 'c
  assume "sound_process files p"
  then have p: "answered (fst (A p))" "sound_process files (snd (A p))" "\<And>a. fst (A p) = Ok a \<Longrightarrow> P a"
    using assms(1) by (auto simp: quiet_def)
  obtain r p1 where A: "A p = (r, p1)"
    by fastforce
  then show "\<exists>e p1. bind_act (on_process A) F (p, w) = (Err e, (p1, w))"
    using answered_cases[OF p(1)] p(2,3) assms(2) by (auto simp: bind_act_def on_process_def idle_def)
qed

lemma idle_world: "(\<And>w. \<exists>e. A w = (Err e, w)) \<Longrightarrow> idle files (on_world A)"
  unfolding idle_def on_world_def by (metis (no_types, lifting) case_prod_conv fst_conv snd_conv)

lemma sound_updates [simp]:
  "sound_process files (p\<lparr>ps_flags := fs\<rparr>) = sound_process files p"
  "sound_process files (p\<lparr>ps_viper := v\<rparr>) = sound_process files p"
  "sound_process files (set_logging p) = sound_process files p"
  by (simp_all add: sound_process_def set_logging_def)

lemma read_config_quiet:
  assumes "\<forall>path. answered (files path)" and "sound_process files p"
  shows "answered (fst (read_config path p)) \<and> sound_process files (snd (read_config path p))"
proof -
  have "ps_files p = files" "answered (files path)"
    using assms by (auto simp: sound_process_def)
  then show ?thesis
    using assms(2) by (cases "files path") (auto simp: read_config_def Let_def)
qed

lemma config_quiet:
  assumes "\<forall>path. answered (files path)"
  shows "quiet files (\<lambda>_. True) init" and "quiet files (\<lambda>_. True) initConfig"
  unfolding quiet_def init_def initConfig_def Let_def by (simp_all add: read_config_quiet[OF assms])

lemma GetRunner_quiet:
  assumes "\<forall>s. answered (pk_ParseURL pk s)"
  shows "quiet files (\<lambda>a. \<exists>fake. ap_runner a = createRunner fake) (wrap_act msg (GetRunner pk))"
  unfolding quiet_def
proof (intro allI impI)
  fix p :: "('a, 'b) process"
  assume p: "sound_process files p"
  obtain r where r: "pk_ParseURL pk (GetString (set_logging p) ''postgres'') = r" "answered r"
    using assms by blast
  have "sound_process files (set_logging p)" and ex: "\<exists>fake. createRunner b = createRunner fake" for b
    using p by auto
  then show "answered (fst (wrap_act msg (GetRunner pk) p)) \<and> sound_process files (snd (wrap_act msg (GetRunner pk) p)) \<and>
      (\<forall>a. fst (wrap_act msg (GetRunner pk) p) = Ok a \<longrightarrow> (\<exists>fake. ap_runner a = createRunner fake))"
    using p r answered_cases[OF r(2)] by (cases "ps_app p")
      (auto simp: GetRunner_def create_runner_def wrap_act_def bind_act_def result_act_def Let_def sound_process_def ex)
qed

lemma unknown_refused: "ProductToMetadata p = None \<Longrightarrow> known_product p = Err (Errorf ''unknown product'')"
  by (simp add: known_product_def)

lemma bind_Err: "bind_act (result_act (Err e)) f w = (Err e, w)"
  by (simp add: bind_act_def result_act_def)

lemma refused_create:
  assumes "ProductToMetadata p = None \<or> feq budget (Fin 0)"
  shows "\<exists>e. create_ema y create now p budget tick short long down up w = (Err e, w)"
    and "\<exists>e. create_s1 y create now p invested budget tick s w = (Err e, w)"
  using assms by (cases "ProductToMetadata p";
      simp add: create_ema_def create_s1_def known_product_def bind_act_def result_act_def)+

lemma refused_import:
  assumes "p \<notin> {ProductBTCUSD, ProductETHUSD, ProductLTCUSD}" and "\<forall>s. answered (parse s)"
  shows "\<exists>e. historical_import parse sv (createRunner fake) p s t w = (Err e, w)"
proof -
  have "map_of (rn_historical (createRunner fake)) p = None"
    using assms(1) by (auto simp: createRunner_def)
  then show ?thesis
    using answered_cases[of "parse s"] answered_cases[of "parse t"] assms(2)
    by (auto simp: historical_import_def bind_act_def result_act_def)
qed

lemma refused_backtests:
  "ProductToMetadata (eg_product f) = None \<Longrightarrow> run_backtest_ema pl a r f w = (Err (Errorf ''unknown product''), w)"
  "ProductToMetadata (sg_product g) = None \<Longrightarrow> run_backtest_s1 pl a r g w = (Err (Errorf ''unknown product''), w)"
  "ProductToMetadata (ig_product h) = None \<Longrightarrow> run_backtest_rsi pl a r h w = (Err (Errorf ''unknown product''), w)"
  "ProductToMetadata (og_product k) = None \<Longrightarrow> run_optimize pl a r k w = (Err (Errorf ''unknown product''), w)"
  by (simp_all add: run_backtest_ema_def backtest_ema_command_def backtest_ema_def run_backtest_s1_def backtest_s1_command_def
      backtest_s1_def run_backtest_rsi_def backtest_rsi_command_def backtest_rsi_def run_optimize_def optimize_command_def
      optimize_strategy_def unknown_refused bind_Err)

lemma ignore_Err: "a w = (Err e, w) \<Longrightarrow> ignore_result a w = (Err e, w)"
  by (simp add: ignore_result_def bind_act_def)

lemma refused_command:
  assumes "refused c" and "\<forall>s. answered (pl_parse_time pl s)" and "ap_runner a = createRunner fake"
  shows "\<exists>e. run_command pl a c w = (Err e, w)"
  using assms(1)
proof (cases c)
  case (ImportHistory s e p)
  then show ?thesis
    using refused_import[OF _ assms(2), of p] assms(1) by (auto simp: import_command_def assms(3))
next
  case (CreateEMA budget f)
  then have "ProductToMetadata (eg_product f) = None \<or> feq budget (Fin 0)"
    using assms(1) by simp
  then have "\<exists>e. create_ema_command (pl_yaml pl) (pl_create_strategy pl (ap_database a)) (pl_now pl w) (budget, f) w = (Err e, w)"
    unfolding create_ema_command_def prod.case by (rule refused_create)
  then show ?thesis
    using CreateEMA by (auto intro: ignore_Err)
next
  case (CreateS1 invested budget f)
  then have "ProductToMetadata (sg_product f) = None \<or> feq budget (Fin 0)"
    using assms(1) by simp
  then have "\<exists>e. create_s1_command (pl_yaml pl) (pl_create_strategy pl (ap_database a)) (pl_now pl w) (invested, budget, f) w = (Err e, w)"
    unfolding create_s1_command_def prod.case by (rule refused_create)
  then show ?thesis
    using CreateS1 by (auto intro: ignore_Err)
qed (use assms(1) in \<open>simp_all add: refused_backtests\<close>)

lemma refused_invocation:
  assumes "refused c" and "\<forall>s. answered (pl_parse_time pl s)" and "\<forall>s. answered (pk_ParseURL (pl_packages pl) s)"
  shows "idle files (run_invocation pl c)"
proof -
  have wrap: "wrap_act msg (on_process A) = on_process (wrap_act msg A)" for msg and A :: "('x, 'y) act"
    by (rule ext) (simp add: wrap_act_def on_process_def split: prod.splits)
  have run: "run_invocation pl c = bind_act (wrap_act ''error getting runner'' (on_process (GetRunner (pl_packages pl))))
      (\<lambda>a. on_world (run_command pl a c))"
    using assms(1) by (intro ext) (cases c; simp)
  have world: "idle files (on_world (run_command pl a c))" if "\<exists>fake. ap_runner a = createRunner fake" for a
    using that refused_command[OF assms(1,2)] by (intro idle_world) blast
  show ?thesis
    unfolding run wrap by (rule idle_bind[OF GetRunner_quiet[OF assms(3)]]) (rule world)
qed

text \<open>C16. A refused run does nothing: with a product the program does not know (or, for the import, does not import) or
  with a budget of zero, which is the default of the commands that create a strategy, a run exits with status one and
  the world as it was - no order, no row, no file - whatever its environment and configuration files hold.\<close>

theorem refused_runs_change_nothing:
  assumes "refused c" and "\<forall>path. answered (files path)"
    and "\<forall>s. answered (pk_ParseURL (pl_packages pl) s)" and "\<forall>s. answered (pl_parse_time pl s)"
  shows "vespyr pl env files (Ok (given, c)) w = (Some 1, w)"
proof -
  have "idle files (bind_act (on_process initConfig) (\<lambda>_. run_invocation pl c))"
    by (rule idle_bind[OF config_quiet(2)[OF assms(2)]]) (rule refused_invocation[OF assms(1,4,3)])
  then have "idle files (Execute pl (Ok (given, c)))"
    by (simp add: idle_def Execute_def bind_act_def[of "result_act _"] result_act_def set_flags_def)
  then have "idle files (bind_act (on_process init) (\<lambda>_. Execute pl (Ok (given, c))))"
    by (intro idle_bind[OF config_quiet(1)[OF assms(2)]])
  moreover have "sound_process files (new_process env files)"
    by (simp add: sound_process_def new_process_def)
  ultimately obtain e p1 where "bind_act (on_process init) (\<lambda>_. Execute pl (Ok (given, c))) (new_process env files, w) = (Err e, (p1, w))"
    unfolding idle_def by blast
  then show ?thesis
    by (simp add: vespyr_def exit_status_def)
qed

text \<open>The command that creates an EMA strategy, without a flag.\<close>

theorem refused_runs_change_nothing_witness:
  "\<forall>pl :: (string, nat, nat, nat) platform.
    vespyr (pl\<lparr>pl_packages := example_packages, pl_parse_time := \<lambda>_. Err (Errorf ''time'')\<rparr>) yes_env (\<lambda>_. Err ErrNotExist)
      (Ok (Map.empty, CreateEMA (fst create_ema_defaults) (snd create_ema_defaults))) 7 = (Some 1, 7)"
  by (intro allI refused_runs_change_nothing) (simp_all add: create_ema_defaults_def example_packages_def)

end
