(* ===== verification/Migration_Library.thy ===== *)
theory Migration_Library
  imports Commands Migration_Specs
begin

text \<open>
  \<open>mattes/migrate\<close>, as it is vendored under \<open>src/vendor\<close>, on the driver of the program's migrations and the one for
  PostgreSQL: the calls that \<open>migrate\<close> and \<open>rollback\<close> make of it, statement by statement. Any statement may fail,
  and one that fails may have had its effect; an advisory lock that is refused counts as one that failed. One migrator
  writes at a time, and nobody sends the signal of a graceful stop.
\<close>

section \<open>The database\<close>

text \<open>What becomes of a statement: it runs, or it fails, or it runs and the answer is lost.\<close>

datatype fate = Runs | Fails | Unheard

text \<open>The row of the table of versions and the schema; what the process knows of the lock; and the fate of each
  statement by its number.\<close>

record migrated =
  mi_row :: "(int \<times> bool) option"
  mi_schema :: schema
  mi_locked :: bool
  mi_clock :: nat
  mi_fate :: "nat \<Rightarrow> fate"

definition exec :: "(migrated \<Rightarrow> migrated) \<Rightarrow> (unit, migrated) act" where
  "exec effect w = (let w1 = w\<lparr>mi_clock := Suc (mi_clock w)\<rparr> in case mi_fate w (mi_clock w) of
     Runs \<Rightarrow> (Ok (), effect w1)
   | Fails \<Rightarrow> (Err (Errorf ''bad connection''), w1)
   | Unheard \<Rightarrow> (Err (Errorf ''bad connection''), effect w1))"

section \<open>The driver for PostgreSQL\<close>

abbreviation NilVersion :: int where "NilVersion \<equiv> - 1"

definition pg_Lock :: "(unit, migrated) act" where
  "pg_Lock w = (if mi_locked w then (Err (Errorf ''database locked''), w)
     else case exec (\<lambda>w. w) w of (Ok _, w1) \<Rightarrow> (Ok (), w1\<lparr>mi_locked := True\<rparr>) | r \<Rightarrow> r)"

definition pg_Unlock :: "(unit, migrated) act" where
  "pg_Unlock w = (if \<not> mi_locked w then (Ok (), w)
     else case exec (\<lambda>w. w) w of (Ok _, w1) \<Rightarrow> (Ok (), w1\<lparr>mi_locked := False\<rparr>) | r \<Rightarrow> r)"

text \<open>The texts of the migrations open a transaction themselves. One that fails leaves its session in that
  transaction, so that later statements of the process may fail for no other reason: their fates stand for that.\<close>

definition pg_Run :: "sql list \<Rightarrow> (unit, migrated) act" where
  "pg_Run q w = (case transaction q (mi_schema w) of
     Some d \<Rightarrow> exec (\<lambda>w. w\<lparr>mi_schema := d\<rparr>) w
   | None \<Rightarrow> bind_act (exec (\<lambda>w. w)) (\<lambda>_. result_act (Err (Errorf ''migration failed''))) w)"

text \<open>The statements between \<open>Begin\<close> and \<open>Commit\<close> are not sent on the transaction but on the database, so that
  each stands for itself.\<close>

definition pg_SetVersion :: "int \<Rightarrow> bool \<Rightarrow> (unit, migrated) act" where
  "pg_SetVersion version dirty =
    bind_act (exec (\<lambda>w. w)) (\<lambda>_.
    bind_act (exec (\<lambda>w. w\<lparr>mi_row := None\<rparr>)) (\<lambda>_.
    bind_act (if 0 \<le> version then exec (\<lambda>w. w\<lparr>mi_row := Some (version, dirty)\<rparr>) else result_act (Ok ())) (\<lambda>_.
    exec (\<lambda>w. w))))"

definition pg_Version :: "(int \<times> bool, migrated) act" where
  "pg_Version = bind_act (exec (\<lambda>w. w)) (\<lambda>_ w.
     (Ok (case mi_row w of None \<Rightarrow> (NilVersion, False) | Some vd \<Rightarrow> vd), w))"

section \<open>Reading the migrations\<close>

record 'q queued =
  qm_target :: int
  qm_body :: "'q option"

datatype 'q message = Migration "'q queued" | Failure go_error

definition suint :: "int \<Rightarrow> u64 go_result" where
  "suint n = (if n < 0 then Panic ''suint expects input >= 0'' else Ok (word_of_int n))"

definition newMigration :: "'q code_migrations \<Rightarrow> u64 \<Rightarrow> int \<Rightarrow> 'q queued go_result" where
  "newMigration c version targetVersion =
    (case (if sint version \<le> targetVersion then fst (ReadUp c version) else fst (ReadDown c version)) of
       Err e \<Rightarrow> if e = ErrNotExist then Ok \<lparr>qm_target = targetVersion, qm_body = None\<rparr> else Err e
     | Ok r \<Rightarrow> Ok \<lparr>qm_target = targetVersion, qm_body = Some r\<rparr>
     | Panic p \<Rightarrow> Panic p
     | Diverge \<Rightarrow> Diverge)"

definition versionExists :: "'q code_migrations \<Rightarrow> u64 \<Rightarrow> unit go_result" where
  "versionExists c version =
    (case fst (ReadUp c version) of
       Ok _ \<Rightarrow> Ok ()
     | Err e \<Rightarrow>
         if e \<noteq> ErrNotExist then Err e
         else (case fst (ReadDown c version) of
             Ok _ \<Rightarrow> Ok ()
           | Err e1 \<Rightarrow> if e1 \<noteq> ErrNotExist then Err e1 else Err ErrNotExist
           | Panic p \<Rightarrow> Panic p
           | Diverge \<Rightarrow> Diverge)
     | Panic p \<Rightarrow> Panic p
     | Diverge \<Rightarrow> Diverge)"

text \<open>The channel a reader fills: a failure is the last message.\<close>

definition queue_migration :: "'q queued go_result \<Rightarrow> 'q message list go_result \<Rightarrow> 'q message list go_result" where
  "queue_migration migr rest =
    (case migr of
       Ok m \<Rightarrow> bind_result rest (\<lambda>ms. Ok (Migration m # ms))
     | Err e \<Rightarrow> Ok [Failure e]
     | Panic p \<Rightarrow> Panic p
     | Diverge \<Rightarrow> Diverge)"

text \<open>The loops, with as many rounds as \<open>fuel\<close>; \<open>limit\<close> is minus one for none.\<close>

fun readUp_loop :: "nat \<Rightarrow> 'q code_migrations \<Rightarrow> int \<Rightarrow> int \<Rightarrow> int \<Rightarrow> 'q message list go_result" where
  "readUp_loop 0 c from limit count = Diverge"
| "readUp_loop (Suc fuel) c from limit count =
    (if \<not> (count < limit \<or> limit = - 1) then Ok []
     else if from = NilVersion then
       (case First c of
          Err e \<Rightarrow> Ok [Failure e]
        | Ok firstVersion \<Rightarrow> queue_migration (newMigration c firstVersion (sint firstVersion))
            (readUp_loop fuel c (sint firstVersion) limit (count + 1))
        | Panic p \<Rightarrow> Panic p
        | Diverge \<Rightarrow> Diverge)
     else bind_result (suint from) (\<lambda>version.
       case Next c version of
          Err e \<Rightarrow>
            if e = ErrNotExist then
              (if limit = - 1 \<and> count = 0 then Ok [Failure ErrNoChange]
               else if limit = - 1 then Ok []
               else if limit > 0 \<and> count = 0 then Ok [Failure ErrNotExist]
               else Ok [Failure (Errorf ''limit is too long'')])
            else Ok [Failure e]
        | Ok nextVersion \<Rightarrow> queue_migration (newMigration c nextVersion (sint nextVersion))
            (readUp_loop fuel c (sint nextVersion) limit (count + 1))
        | Panic p \<Rightarrow> Panic p
        | Diverge \<Rightarrow> Diverge))"

definition checked_from :: "'q code_migrations \<Rightarrow> int \<Rightarrow> 'q message list go_result \<Rightarrow> 'q message list go_result" where
  "checked_from c from messages =
    (if 0 \<le> from then bind_result (suint from) (\<lambda>version.
       case versionExists c version of
         Ok _ \<Rightarrow> messages
       | Err _ \<Rightarrow> Ok [Failure ErrNotExist]
       | Panic p \<Rightarrow> Panic p
       | Diverge \<Rightarrow> Diverge)
     else messages)"

definition readUp :: "nat \<Rightarrow> 'q code_migrations \<Rightarrow> int \<Rightarrow> int \<Rightarrow> 'q message list go_result" where
  "readUp fuel c from limit = checked_from c from
     (if limit = 0 then Ok [Failure ErrNoChange] else readUp_loop fuel c from limit 0)"

fun readDown_loop :: "nat \<Rightarrow> 'q code_migrations \<Rightarrow> int \<Rightarrow> int \<Rightarrow> int \<Rightarrow> 'q message list go_result" where
  "readDown_loop 0 c from limit count = Diverge"
| "readDown_loop (Suc fuel) c from limit count =
    (if \<not> (count < limit \<or> limit = - 1) then Ok []
     else bind_result (suint from) (\<lambda>version.
       case Prev c version of
          Err e \<Rightarrow>
            if e = ErrNotExist then
              (if limit = - 1 \<or> limit - count > 0 then
                 (case First c of
                    Err e1 \<Rightarrow> Ok [Failure e1]
                  | Ok firstVersion \<Rightarrow> queue_migration (newMigration c firstVersion NilVersion)
                      (Ok (if count + 1 < limit then [Failure (Errorf ''limit is too long'')] else []))
                  | Panic p \<Rightarrow> Panic p
                  | Diverge \<Rightarrow> Diverge)
               else Ok (if count < limit then [Failure (Errorf ''limit is too long'')] else []))
            else Ok [Failure e]
        | Ok prev \<Rightarrow> queue_migration (newMigration c version (sint prev))
            (readDown_loop fuel c (sint prev) limit (count + 1))
        | Panic p \<Rightarrow> Panic p
        | Diverge \<Rightarrow> Diverge))"

definition readDown :: "nat \<Rightarrow> 'q code_migrations \<Rightarrow> int \<Rightarrow> int \<Rightarrow> 'q message list go_result" where
  "readDown fuel c from limit = checked_from c from
    (if limit = 0 then Ok [Failure ErrNoChange]
     else if from = NilVersion \<and> limit = - 1 then Ok [Failure ErrNoChange]
     else if from = NilVersion \<and> limit > 0 then Ok [Failure ErrNotExist]
     else readDown_loop fuel c from limit 0)"

section \<open>Running them\<close>

fun runMigrations :: "sql list message list \<Rightarrow> (unit, migrated) act" where
  "runMigrations [] = result_act (Ok ())"
| "runMigrations (Failure e # ms) = result_act (Err e)"
| "runMigrations (Migration migr # ms) =
    bind_act (pg_SetVersion (qm_target migr) True) (\<lambda>_.
    bind_act (case qm_body migr of Some body \<Rightarrow> pg_Run body | None \<Rightarrow> result_act (Ok ())) (\<lambda>_.
    bind_act (pg_SetVersion (qm_target migr) False) (\<lambda>_.
    runMigrations ms)))"

definition unlockErr :: "unit go_result \<Rightarrow> (unit, migrated) act" where
  "unlockErr prevErr = (\<lambda>w. case pg_Unlock w of
     (Err e, w1) \<Rightarrow> (Err (Errorf ''multiple errors''), w1)
   | (Ok _, w1) \<Rightarrow> (prevErr, w1)
   | r \<Rightarrow> r)"

text \<open>What is done under the lock; a panic ends the program before the lock is given back.\<close>

definition under_lock :: "(unit, migrated) act \<Rightarrow> (unit, migrated) act" where
  "under_lock action = bind_act pg_Lock (\<lambda>_ w. case action w of
     (Panic p, w1) \<Rightarrow> (Panic p, w1)
   | (Diverge, w1) \<Rightarrow> (Diverge, w1)
   | (r, w1) \<Rightarrow> unlockErr r w1)"

definition from_clean :: "(int \<Rightarrow> sql list message list go_result) \<Rightarrow> (unit, migrated) act" where
  "from_clean read = under_lock (bind_act pg_Version (\<lambda>(curVersion, dirty).
     if dirty then result_act (Err (Errorf ''Dirty database version''))
     else bind_act (result_act (read curVersion)) runMigrations))"

definition migrate_Up :: "nat \<Rightarrow> sql list code_migrations \<Rightarrow> (unit, migrated) act" where
  "migrate_Up fuel c = from_clean (\<lambda>curVersion. readUp fuel c curVersion (- 1))"

definition migrate_Steps :: "nat \<Rightarrow> sql list code_migrations \<Rightarrow> int \<Rightarrow> (unit, migrated) act" where
  "migrate_Steps fuel c n =
    (if n = 0 then result_act (Err ErrNoChange)
     else from_clean (\<lambda>curVersion. if n > 0 then readUp fuel c curVersion n else readDown fuel c curVersion (- n)))"

definition migrate_Force :: "int \<Rightarrow> (unit, migrated) act" where
  "migrate_Force version =
    (if version < - 1 then result_act (Panic ''version must be >= -1'')
     else bind_act pg_Lock (\<lambda>_ w. case pg_SetVersion version False w of
         (Ok _, w1) \<Rightarrow> pg_Unlock w1
       | (r, w1) \<Rightarrow> unlockErr r w1))"

text \<open>\<open>None\<close> is \<open>ErrNilVersion\<close>.\<close>

definition migrate_Version :: "((u64 \<times> bool) option, migrated) act" where
  "migrate_Version = bind_act pg_Version (\<lambda>(v, d).
     if v = NilVersion then result_act (Ok None)
     else bind_act (result_act (suint v)) (\<lambda>version. result_act (Ok (Some (version, d)))))"

definition code_library :: "sql list code_migrations \<Rightarrow> migrated migrate_ops" where
  "code_library c = \<lparr>mo_version = migrate_Version, mo_force = migrate_Force,
     mo_up = migrate_Up (length (cm_migrations c) + 2) c, mo_steps = migrate_Steps (length (cm_migrations c) + 2) c\<rparr>"

end
