(* ===== verification/Migration_Library_Specs.thy ===== *)
theory Migration_Library_Specs
  imports Migration_Library
begin

text \<open>
  What becomes of a migration that is cut off, at any statement: where the next run of the command goes on, and the
  states of the database from which no run does. And what the rollback command leaves.
\<close>

section \<open>Single calls\<close>

lemma exec_states:
  assumes "exec f w = (r, w1)"
  shows "(r = Ok () \<and> w1 = f (w\<lparr>mi_clock := Suc (mi_clock w)\<rparr>)) \<or>
    r = Err (Errorf ''bad connection'') \<and> w1 \<in> {w\<lparr>mi_clock := Suc (mi_clock w)\<rparr>, f (w\<lparr>mi_clock := Suc (mi_clock w)\<rparr>)}"
  using assms by (auto simp: exec_def Let_def split: fate.splits)

lemma exec_runs: "mi_fate w = (\<lambda>_. Runs) \<Longrightarrow> exec f w = (Ok (), f (w\<lparr>mi_clock := Suc (mi_clock w)\<rparr>))"
  by (simp add: exec_def Let_def)

text \<open>A call that ends in success or in an error other than that there is nothing to do.\<close>

definition ends :: "'a go_result \<Rightarrow> bool" where
  "ends r \<longleftrightarrow> is_ok r \<or> (\<exists>e. r = Err e \<and> e \<noteq> ErrNoChange)"

lemma ends_simps [simp]: "ends (Ok a)" "ends (Err (Errorf t)) \<longleftrightarrow> t \<noteq> ''no change''" "ends (Err ErrNotExist)"
  by (simp_all add: ends_def ErrNoChange_def)

lemma SetVersion_states:
  assumes "pg_SetVersion v dirty w = (r, w1)" and "0 \<le> v"
  shows "mi_schema w1 = mi_schema w \<and> mi_row w1 \<in> {mi_row w, None, Some (v, dirty)} \<and>
    (is_ok r \<longrightarrow> mi_row w1 = Some (v, dirty)) \<and> ends r"
  using assms by (auto simp: pg_SetVersion_def exec_def bind_act_def result_act_def Let_def split: fate.splits)

lemma Run_states:
  assumes "pg_Run q w = (r, w1)"
  shows "mi_row w1 = mi_row w \<and> (mi_schema w1 = mi_schema w \<or> transaction q (mi_schema w) = Some (mi_schema w1)) \<and>
    (is_ok r \<longrightarrow> transaction q (mi_schema w) = Some (mi_schema w1)) \<and> ends r"
  using assms by (auto simp: pg_Run_def exec_def bind_act_def result_act_def Let_def split: fate.splits option.splits)

lemma Version_states:
  assumes "pg_Version w = (r, w1)"
  shows "mi_row w1 = mi_row w \<and> mi_schema w1 = mi_schema w \<and>
    (r = Ok (case mi_row w of None \<Rightarrow> (NilVersion, False) | Some vd \<Rightarrow> vd) \<or> r = Err (Errorf ''bad connection''))"
  using assms by (auto simp: pg_Version_def exec_def bind_act_def Let_def split: fate.splits)

lemma Lock_states:
  assumes "pg_Lock w = (r, w1)"
  shows "mi_row w1 = mi_row w \<and> mi_schema w1 = mi_schema w \<and> (r = Ok () \<or> (\<exists>e. r = Err e) \<and> ends r)"
  using assms by (auto simp: pg_Lock_def exec_def Let_def split: fate.splits if_splits)

lemma Unlock_states:
  assumes "pg_Unlock w = (r, w1)"
  shows "mi_row w1 = mi_row w \<and> mi_schema w1 = mi_schema w \<and> (r = Ok () \<or> (\<exists>e. r = Err e) \<and> ends r)"
  using assms by (auto simp: pg_Unlock_def exec_def Let_def split: fate.splits if_splits)

lemma unlockErr_states:
  assumes "unlockErr prevErr w = (r, w1)"
  shows "mi_row w1 = mi_row w \<and> mi_schema w1 = mi_schema w \<and> (r = prevErr \<or> r = Err (Errorf ''multiple errors''))"
  using assms by (auto simp: unlockErr_def pg_Unlock_def exec_def Let_def split: fate.splits if_splits)

text \<open>Under the lock: what an action does, or nothing, when the lock is not granted.\<close>

lemma under_lock_states:
  assumes "under_lock action w = (r, w1)"
  shows "(mi_row w1 = mi_row w \<and> mi_schema w1 = mi_schema w \<and> \<not> is_ok r \<and> ends r) \<or>
    (\<exists>w0 r2 w2. mi_row w0 = mi_row w \<and> mi_schema w0 = mi_schema w \<and> action w0 = (r2, w2) \<and>
       mi_row w1 = mi_row w2 \<and> mi_schema w1 = mi_schema w2 \<and> (r = r2 \<or> \<not> is_ok r \<and> r = Err (Errorf ''multiple errors'')))"
proof -
  obtain q w0 where lock: "pg_Lock w = (q, w0)"
    by fastforce
  obtain r2 w2 where act: "action w0 = (r2, w2)"
    by fastforce
  from Lock_states[OF lock] consider "q = Ok ()" | e where "q = Err e" "ends q"
    by blast
  then show ?thesis
  proof cases
    case 1
    have "(\<exists>p. r2 = Panic p) \<or> r2 = Diverge \<or> unlockErr r2 w2 = (r, w1)"
      using assms lock act 1 by (cases r2) (auto simp: under_lock_def bind_act_def)
    moreover have "mi_row w1 = mi_row w2 \<and> mi_schema w1 = mi_schema w2 \<and> r = r2" if "(\<exists>p. r2 = Panic p) \<or> r2 = Diverge"
      using assms lock act 1 that by (auto simp: under_lock_def bind_act_def)
    ultimately have "mi_row w1 = mi_row w2 \<and> mi_schema w1 = mi_schema w2 \<and> (r = r2 \<or> \<not> is_ok r \<and> r = Err (Errorf ''multiple errors''))"
      using unlockErr_states[of r2 w2 r w1] by auto
    then show ?thesis
      using Lock_states[OF lock] act by blast
  next
    case 2
    then show ?thesis
      using assms lock Lock_states[OF lock] by (auto simp: under_lock_def bind_act_def)
  qed
qed

section \<open>States of the database\<close>

definition version_row :: "nat \<Rightarrow> (int \<times> bool) option" where
  "version_row k = (if k = 0 then None else Some (int k, False))"

text \<open>
  States the command goes on from: clean at a version, or marked with the next one, whose transaction has had no
  effect - if that is not the first.
\<close>

definition resumable :: "nat \<Rightarrow> migrated \<Rightarrow> bool" where
  "resumable k w \<longleftrightarrow> k \<le> 4 \<and> at_version k (mi_schema w) \<and>
     (mi_row w = version_row k \<or> 0 < k \<and> k < 4 \<and> mi_row w = Some (int (Suc k), True))"

text \<open>
  States it does not go on from: marked with the first version; with tables, but without a row; marked with a version
  whose transaction has run, or, after a run that was to repair that, clean at the version before.
\<close>

definition stuck :: "migrated \<Rightarrow> bool" where
  "stuck w \<longleftrightarrow> (\<exists>k \<le> 4. at_version k (mi_schema w) \<and>
     (mi_row w = Some (1, True) \<or>
      0 < k \<and> (mi_row w = None \<or> mi_row w = Some (int k, True)) \<or>
      1 < k \<and> mi_row w = Some (int k - 1, False)))"

lemma resumable_cleanI: "k \<le> 4 \<Longrightarrow> at_version k (mi_schema w) \<Longrightarrow> mi_row w = version_row k \<Longrightarrow> resumable k w"
  by (simp add: resumable_def)

lemma resumable_dirtyI:
  "0 < k \<Longrightarrow> k < 4 \<Longrightarrow> at_version k (mi_schema w) \<Longrightarrow> mi_row w = Some (int (Suc k), True) \<Longrightarrow> resumable k w"
  by (simp add: resumable_def)

lemma stuckI:
  "k \<le> 4 \<Longrightarrow> at_version k (mi_schema w) \<Longrightarrow> mi_row w = Some (1, True) \<Longrightarrow> stuck w"
  "k \<le> 4 \<Longrightarrow> at_version k (mi_schema w) \<Longrightarrow> 0 < k \<Longrightarrow> mi_row w = None \<or> mi_row w = Some (int k, True) \<Longrightarrow> stuck w"
  "k \<le> 4 \<Longrightarrow> at_version k (mi_schema w) \<Longrightarrow> 1 < k \<Longrightarrow> mi_row w = Some (int k - 1, False) \<Longrightarrow> stuck w"
  unfolding stuck_def by blast+

text \<open>The version is marked, from a clean one: the transaction has not run yet.\<close>

lemma marked_states:
  assumes "k < 4" and "at_version k (mi_schema w)" and "mi_row w \<in> {version_row k, None, Some (int (Suc k), True)}"
  shows "resumable k w \<or> stuck w"
  using assms resumable_cleanI[of k w] resumable_dirtyI[of k w] stuckI(1,2)[of k w]
  by (cases "k = 0") (auto simp: version_row_def)

text \<open>The transaction has run: the version is still to be marked clean.\<close>

lemma applied_states:
  assumes "k < 4" and "at_version (Suc k) (mi_schema w)" and "mi_row w \<in> {Some (int (Suc k), True), None, Some (int (Suc k), False)}"
  shows "resumable (Suc k) w \<or> stuck w"
  using assms resumable_cleanI[of "Suc k" w] stuckI(2)[of "Suc k" w] by (auto simp: version_row_def)

definition ups :: "nat \<Rightarrow> sql list message list" where
  "ups k = map (\<lambda>j. Migration \<lparr>qm_target = int (Suc j), qm_body = Some (up_sql j)\<rparr>) [k..<4]"

lemma ups_Cons: "k < 4 \<Longrightarrow> ups k = Migration \<lparr>qm_target = int (Suc k), qm_body = Some (up_sql k)\<rparr> # ups (Suc k)"
  by (simp add: ups_def upt_conv_Cons)

lemma ups_4: "ups 4 = []"
  by (simp add: ups_def)

text \<open>What the library reads of the program's migrations from each version.\<close>

lemma reads_up:
  "readUp 6 migrations NilVersion (- 1) = Ok (ups 0)" "readUp 6 migrations 1 (- 1) = Ok (ups 1)"
  "readUp 6 migrations 2 (- 1) = Ok (ups 2)" "readUp 6 migrations 3 (- 1) = Ok (ups 3)"
  "readUp 6 migrations 4 (- 1) = Ok [Failure ErrNoChange]"
  by code_simp+

lemma reads_up_at:
  assumes "k \<le> 4"
  shows "readUp 6 migrations (case version_row k of None \<Rightarrow> NilVersion | Some (v, _) \<Rightarrow> v) (- 1) =
    Ok (if k = 4 then [Failure ErrNoChange] else ups k)"
proof -
  have "k = 0 \<or> k = 1 \<or> k = 2 \<or> k = 3 \<or> k = 4"
    using assms by auto
  then show ?thesis
    using reads_up by (auto simp: version_row_def)
qed

section \<open>Going on\<close>

lemma migration_at_version:
  assumes "k < 4" and "at_version k d"
  shows "\<exists>d1. transaction (up_sql k) d = Some d1 \<and> at_version (Suc k) d1"
  using assms migration_applies unfolding at_version_def by blast

text \<open>The migrations from a clean version, cut off anywhere.\<close>

lemma runMigrations_states:
  assumes "k \<le> 4" and "at_version k (mi_schema w)" and "mi_row w = version_row k" and "runMigrations (ups k) w = (r, w1)"
  shows "((\<exists>j \<ge> k. resumable j w1) \<or> stuck w1) \<and> ends r \<and> (is_ok r \<longrightarrow> resumable 4 w1 \<and> mi_row w1 = version_row 4)"
  using assms
proof (induction "4 - k" arbitrary: k w)
  case 0
  then show ?case
    by (auto simp: ups_4 result_act_def resumable_def)
next
  case (Suc n)
  then have k: "k < 4"
    by simp
  obtain d1 where d1: "transaction (up_sql k) (mi_schema w) = Some d1" "at_version (Suc k) d1"
    using migration_at_version[OF k Suc.prems(2)] by blast
  obtain r2 w2 where dirty: "pg_SetVersion (int (Suc k)) True w = (r2, w2)"
    by fastforce
  note D = SetVersion_states[OF dirty]
  show ?case
  proof (cases "is_ok r2")
    case False
    then have "r = r2" "w1 = w2"
      using Suc.prems(4) dirty by (cases r2; simp add: ups_Cons[OF k] bind_act_def)+
    moreover have "resumable k w2 \<or> stuck w2"
      using D Suc.prems(2,3) by (intro marked_states[OF k]) auto
    ultimately show ?thesis
      using D False by auto
  next
    case True
    obtain r3 w3 where run: "pg_Run (up_sql k) w2 = (r3, w3)"
      by fastforce
    note R = Run_states[OF run]
    show ?thesis
    proof (cases "is_ok r3")
      case False
      then have "r = r3" "w1 = w3"
        using Suc.prems(4) dirty run True by (cases r2; cases r3; auto simp: ups_Cons[OF k] bind_act_def)+
      moreover have "mi_row w3 = Some (int (Suc k), True)" "mi_schema w3 = mi_schema w \<or> mi_schema w3 = d1"
        using D R d1(1) True by auto
      then have "resumable k w3 \<or> resumable (Suc k) w3 \<or> stuck w3"
        using marked_states[OF k, of w3] applied_states[OF k, of w3] Suc.prems(2) d1(2) by auto
      then have "(\<exists>j \<ge> k. resumable j w3) \<or> stuck w3"
        by (auto intro: exI[of _ "Suc k"])
      moreover have "ends r3"
        using R by simp
      ultimately show ?thesis
        using False by simp
    next
      case ran: True
      have schema: "mi_schema w3 = d1"
        using D R d1 ran by simp
      obtain r4 w4 where clean: "pg_SetVersion (int (Suc k)) False w3 = (r4, w4)"
        by fastforce
      note C = SetVersion_states[OF clean]
      show ?thesis
      proof (cases "is_ok r4")
        case False
        then have "r = r4" "w1 = w4"
          using Suc.prems(4) dirty run clean True ran by (cases r2; cases r3; cases r4; simp add: ups_Cons[OF k] bind_act_def)+
        moreover have "resumable (Suc k) w4 \<or> stuck w4"
          using C D R schema d1(2) True by (intro applied_states[OF k]) auto
        then have "(\<exists>j \<ge> k. resumable j w4) \<or> stuck w4"
          by (auto intro: exI[of _ "Suc k"])
        moreover have "ends r4"
          using C by simp
        ultimately show ?thesis
          using False by simp
      next
        case cleaned: True
        have "runMigrations (ups (Suc k)) w4 = (r, w1)"
          using Suc.prems(4) dirty run clean True ran cleaned by (cases r2; cases r3; cases r4; simp add: ups_Cons[OF k] bind_act_def)
        moreover have "mi_row w4 = version_row (Suc k)" "at_version (Suc k) (mi_schema w4)" "Suc k \<le> 4" "n = 4 - Suc k"
          using C schema d1(2) cleaned k Suc.hyps(2) by (auto simp: version_row_def)
        ultimately show ?thesis
          using Suc.hyps(1)[of "Suc k" w4] by (meson Suc_leD)
      qed
    qed
  qed
qed

text \<open>A first migration that fails.\<close>

lemma runMigrations_fails:
  assumes "transaction q (mi_schema w) = None" and "0 \<le> v"
    and "runMigrations (Migration \<lparr>qm_target = v, qm_body = Some q\<rparr> # ms) w = (r, w1)"
  shows "mi_schema w1 = mi_schema w \<and> mi_row w1 \<in> {mi_row w, None, Some (v, True)} \<and> \<not> is_ok r \<and> ends r"
proof -
  obtain r2 w2 where dirty: "pg_SetVersion v True w = (r2, w2)"
    by fastforce
  note D = SetVersion_states[OF dirty assms(2)]
  obtain r3 w3 where run: "pg_Run q w2 = (r3, w3)"
    by fastforce
  note R = Run_states[OF run]
  have failed: "\<not> is_ok r3"
    using R D assms(1) by auto
  show ?thesis
  proof (cases "is_ok r2")
    case True
    then have "(r, w1) = (r3, w3)"
      using assms(3) dirty run failed by (cases r2; cases r3; simp add: bind_act_def)
    then show ?thesis
      using D R assms(1) failed by auto
  next
    case False
    then have "(r, w1) = (r2, w2)"
      using assms(3) dirty by (cases r2; simp add: bind_act_def)
    then show ?thesis
      using D False by simp
  qed
qed

section \<open>The command\<close>

definition same :: "migrated \<Rightarrow> migrated \<Rightarrow> bool" where
  "same w w1 \<longleftrightarrow> mi_row w1 = mi_row w \<and> mi_schema w1 = mi_schema w"

lemma same_states: "same w w1 \<Longrightarrow> resumable k w1 = resumable k w" "same w w1 \<Longrightarrow> stuck w1 = stuck w"
  by (simp_all add: same_def resumable_def stuck_def)

lemma Up_states:
  assumes "migrate_Up 6 migrations w = (r, w1)" and "readUp 6 migrations v (- 1) = Ok ms"
    and "mi_row w = None \<and> v = NilVersion \<or> mi_row w = Some (v, False)"
  shows "same w w1 \<and> \<not> is_ok r \<and> ends r \<or>
    (\<exists>w0 r2 w2. same w w0 \<and> runMigrations ms w0 = (r2, w2) \<and> same w2 w1 \<and> (r = r2 \<or> \<not> is_ok r \<and> ends r))"
proof -
  let ?action = "bind_act pg_Version (\<lambda>(curVersion, dirty).
     if dirty then result_act (Err (Errorf ''Dirty database version''))
     else bind_act (result_act (readUp 6 migrations curVersion (- 1))) runMigrations)"
  from under_lock_states[of ?action w r w1] assms(1)
  consider "same w w1" "\<not> is_ok r" "ends r"
    | w0 r2 w2 where "same w w0" "?action w0 = (r2, w2)" "same w2 w1" "r = r2 \<or> \<not> is_ok r \<and> r = Err (Errorf ''multiple errors'')"
    unfolding migrate_Up_def from_clean_def same_def by blast
  then show ?thesis
  proof cases
    case (2 w0 r2 w2)
    obtain rv w3 where version: "pg_Version w0 = (rv, w3)"
      by fastforce
    note V = Version_states[OF version]
    have end_r: "r = r2 \<or> \<not> is_ok r \<and> ends r"
      using 2(4) by auto
    from V consider "rv = Ok (v, False)" | "rv = Err (Errorf ''bad connection'')"
      using assms(3) 2(1) by (auto simp: same_def)
    then show ?thesis
    proof cases
      case 1
      then have "runMigrations ms w3 = (r2, w2)"
        using 2(2) version assms(2) by (simp add: bind_act_def result_act_def)
      moreover have "same w w3"
        using V 2(1) by (simp add: same_def)
      ultimately show ?thesis
        using 2(3) end_r by blast
    next
      case bad: 2
      then have "w2 = w3" "r2 = Err (Errorf ''bad connection'')"
        using 2(2) version by (simp_all add: bind_act_def[of pg_Version])
      then show ?thesis
        using end_r V 2(1,3) by (auto simp: same_def)
    qed
  qed simp
qed

lemma Force_states:
  assumes "migrate_Force v w = (r, w1)" and "0 \<le> v"
  shows "mi_schema w1 = mi_schema w \<and> mi_row w1 \<in> {mi_row w, None, Some (v, False)} \<and> (is_ok r \<longrightarrow> mi_row w1 = Some (v, False)) \<and> ends r"
proof -
  obtain q w0 where lock: "pg_Lock w = (q, w0)"
    by fastforce
  note L = Lock_states[OF lock]
  obtain r2 w2 where set: "pg_SetVersion v False w0 = (r2, w2)"
    by fastforce
  note S = SetVersion_states[OF set assms(2)]
  from L consider "q = Ok ()" "r2 = Ok ()" | "q = Ok ()" "\<not> is_ok r2" | e where "q = Err e" "ends q"
    by (cases r2) auto
  then show ?thesis
  proof cases
    case 1
    then have "pg_Unlock w2 = (r, w1)"
      using assms lock set by (simp add: migrate_Force_def bind_act_def)
    then show ?thesis
      using Unlock_states[of w2 r w1] L S 1(2) by auto
  next
    case 2
    then have "unlockErr r2 w2 = (r, w1)"
      using assms lock set by (cases r2) (simp_all add: migrate_Force_def bind_act_def)
    then show ?thesis
      using unlockErr_states[of r2 w2 r w1] L S 2(2) by auto
  next
    case 3
    then show ?thesis
      using assms lock L by (auto simp: migrate_Force_def bind_act_def)
  qed
qed

abbreviation migrate_step :: "(unit, migrated) act" where
  "migrate_step \<equiv> migrate_command (code_library migrations)"

text \<open>The upgrade at the end of the command, where nothing to do is success.\<close>

definition upgrade :: "(unit, migrated) act" where
  "upgrade w = (case migrate_Up 6 migrations w of
     (Err e, w1) \<Rightarrow> (if e = ErrNoChange then Ok () else Err (Wrapf e ''error migrating''), w1)
   | r \<Rightarrow> r)"

lemma library_ops [simp]:
  "mo_version (code_library migrations) = migrate_Version" "mo_force (code_library migrations) = migrate_Force"
  "mo_up (code_library migrations) = migrate_Up 6 migrations" "mo_steps (code_library migrations) = migrate_Steps 6 migrations"
  by (simp_all add: code_library_def program_migrations)

lemma migrate_step_eq:
  "migrate_step w = (case migrate_Version w of
     (Ok v, w1) \<Rightarrow>
       (let (currentVersion, dirty) = (case v of None \<Rightarrow> (0, False) | Some vd \<Rightarrow> vd)
        in if dirty then
             (if currentVersion - 1 = 0 then (Panic ''v0 migration detected'', w1)
              else case migrate_Force (sint (currentVersion - 1)) w1 of
                (Ok _, w2) \<Rightarrow> upgrade w2
              | (Err e, w2) \<Rightarrow> (Err (Wrapf e ''error forcing version''), w2)
              | (Panic p, w2) \<Rightarrow> (Panic p, w2)
              | (Diverge, w2) \<Rightarrow> (Diverge, w2))
           else upgrade w1)
   | (Err e, w1) \<Rightarrow> (Err (Wrapf e ''error getting migration version''), w1)
   | (Panic p, w1) \<Rightarrow> (Panic p, w1)
   | (Diverge, w1) \<Rightarrow> (Diverge, w1))"
  by (simp add: migrate_command_def bind_act_def wrap_act_def result_act_def upgrade_def Let_def split: prod.split go_result.split)

lemma migrate_Version_states:
  assumes "migrate_Version w = (r, w1)"
  shows "same w w1 \<and> (r = Err (Errorf ''bad connection'') \<or>
    (case mi_row w of None \<Rightarrow> r = Ok None
     | Some (v, d) \<Rightarrow> 0 \<le> v \<longrightarrow> r = Ok (Some (word_of_int v, d))))"
proof -
  obtain rv w2 where version: "pg_Version w = (rv, w2)"
    by fastforce
  note V = Version_states[OF version]
  show ?thesis
    using assms version V
    by (auto simp: migrate_Version_def bind_act_def[of pg_Version] same_def result_act_def bind_act_def suint_def
        split: option.splits prod.splits if_splits)
qed

lemma upgrade_clean:
  assumes "resumable k w" and "mi_row w = version_row k" and "upgrade w = (r, w1)"
  shows "((\<exists>j \<ge> k. resumable j w1) \<or> stuck w1) \<and> (is_ok r \<longrightarrow> resumable 4 w1 \<and> mi_row w1 = version_row 4)"
proof -
  have k: "k \<le> 4" "at_version k (mi_schema w)"
    using assms(1) by (simp_all add: resumable_def)
  obtain r1 w2 where up: "migrate_Up 6 migrations w = (r1, w2)"
    by fastforce
  then have w1: "w1 = w2" and r: "is_ok r \<Longrightarrow> is_ok r1 \<or> r1 = Err ErrNoChange"
    using assms(3) by (cases r1; auto simp: upgrade_def split: if_splits)+
  have row: "mi_row w = None \<and> (case version_row k of None \<Rightarrow> NilVersion | Some (v, _) \<Rightarrow> v) = NilVersion \<or>
      mi_row w = Some ((case version_row k of None \<Rightarrow> NilVersion | Some (v, _) \<Rightarrow> v), False)"
    using assms(2) by (simp add: version_row_def)
  from Up_states[OF up reads_up_at[OF k(1)] row] consider "same w w2" "\<not> is_ok r1" "ends r1"
    | w0 r2 w3 where "same w w0" "runMigrations (if k = 4 then [Failure ErrNoChange] else ups k) w0 = (r2, w3)" "same w3 w2"
        "r1 = r2 \<or> \<not> is_ok r1 \<and> ends r1"
    by blast
  then show ?thesis
  proof cases
    case 1
    then have "resumable k w1"
      using assms(1) w1 same_states(1) by blast
    moreover have "\<not> is_ok r"
      using r 1 by (auto simp: ends_def)
    ultimately show ?thesis
      by auto
  next
    case (2 w0 r2 w3)
    show ?thesis
    proof (cases "k = 4")
      case True
      then have "same w w1"
        using 2 w1 by (auto simp: same_def result_act_def)
      then have "resumable 4 w1" "mi_row w1 = version_row 4"
        using assms(1,2) True same_states(1) by (blast, simp add: same_def)
      then show ?thesis
        using True by blast
    next
      case False
      then have run: "runMigrations (ups k) w0 = (r2, w3)"
        using 2(2) by simp
      have w0: "at_version k (mi_schema w0)" "mi_row w0 = version_row k"
        using 2(1) k assms(2) by (simp_all add: same_def)
      note S = runMigrations_states[OF k(1) w0 run]
      have "is_ok r \<Longrightarrow> is_ok r2"
        using r 2(4) S by (auto simp: ends_def)
      then show ?thesis
        using S same_states[OF 2(3)] 2(3) unfolding w1 by (auto simp: same_def)
    qed
  qed
qed

text \<open>A run from a state it goes on from.\<close>

lemma migrate_resumable:
  assumes "resumable k w" and "migrate_step w = (r, w1)"
  shows "((\<exists>j \<ge> k. resumable j w1) \<or> stuck w1) \<and> (is_ok r \<longrightarrow> resumable 4 w1 \<and> mi_row w1 = version_row 4)"
proof -
  obtain rv w2 where version: "migrate_Version w = (rv, w2)"
    by fastforce
  note V = migrate_Version_states[OF version]
  then have w2: "resumable k w2" "same w w2"
    using assms(1) same_states by blast+
  consider "rv = Err (Errorf ''bad connection'')" | "mi_row w = version_row k" "rv \<noteq> Err (Errorf ''bad connection'')"
    | "0 < k" "k < 4" "mi_row w = Some (int (Suc k), True)" "rv = Ok (Some (word_of_int (int (Suc k)), True))"
    using V assms(1) by (auto simp: resumable_def)
  then show ?thesis
  proof cases
    case 1
    then have "w1 = w2" "\<not> is_ok r"
      using assms(2) version by (auto simp: migrate_step_eq)
    then show ?thesis
      using w2 by auto
  next
    case 2
    then have "rv = Ok (map_option (\<lambda>(v, d). (word_of_int v, d)) (version_row k))"
      using V by (simp add: version_row_def split: if_splits)
    then have "upgrade w2 = (r, w1)"
      using assms(2) version by (simp add: migrate_step_eq version_row_def split: if_splits)
    then show ?thesis
      using upgrade_clean[OF w2(1)] w2(2) 2(1) by (simp add: same_def)
  next
    case 3
    have "k = 1 \<or> k = 2 \<or> k = 3"
      using 3 by auto
    then have words: "(word_of_int (int (Suc k)) :: u64) - 1 \<noteq> 0" "sint ((word_of_int (int (Suc k)) :: u64) - 1) = int k"
      by auto
    obtain rf w3 where force: "migrate_Force (int k) w2 = (rf, w3)"
      by fastforce
    note F = Force_states[OF force]
    have row3: "mi_row w3 \<in> {Some (int (Suc k), True), None, Some (int k, False)}" "at_version k (mi_schema w3)"
      using F w2 3(3) by (auto simp: same_def resumable_def)
    show ?thesis
    proof (cases "is_ok rf")
      case True
      then have "resumable k w3" "mi_row w3 = version_row k"
        using F row3 3 by (auto simp: resumable_def version_row_def)
      moreover have "upgrade w3 = (r, w1)"
        using assms(2) version 3(4) force words True by (cases rf) (simp_all add: migrate_step_eq)
      ultimately show ?thesis
        by (rule upgrade_clean)
    next
      case False
      then have "w1 = w3" "\<not> is_ok r"
        using assms(2) version 3(4) force words by (cases rf; auto simp: migrate_step_eq)+
      moreover have "resumable k w3 \<or> stuck w3"
        using row3 3 resumable_dirtyI[of k w3] resumable_cleanI[of k w3] stuckI(2)[of k w3] by (auto simp: version_row_def)
      ultimately show ?thesis
        by auto
    qed
  qed
qed

text \<open>A run from a state it does not go on from.\<close>

lemma upgrade_fails:
  assumes "readUp 6 migrations v (- 1) = Ok (Migration \<lparr>qm_target = u, qm_body = Some q\<rparr> # ms)" and "0 \<le> u"
    and "transaction q (mi_schema w) = None" and "mi_row w = None \<and> v = NilVersion \<or> mi_row w = Some (v, False)"
    and "upgrade w = (r, w1)"
  shows "mi_schema w1 = mi_schema w \<and> mi_row w1 \<in> {mi_row w, None, Some (u, True)} \<and> \<not> is_ok r"
proof -
  obtain r1 w2 where up: "migrate_Up 6 migrations w = (r1, w2)"
    by fastforce
  have S: "mi_schema w2 = mi_schema w \<and> mi_row w2 \<in> {mi_row w, None, Some (u, True)} \<and> \<not> is_ok r1 \<and> ends r1"
    using Up_states[OF up assms(1,4)]
  proof (elim disjE exE conjE)
    fix w0 r2 w3
    assume "same w w0" "runMigrations (Migration \<lparr>qm_target = u, qm_body = Some q\<rparr> # ms) w0 = (r2, w3)" "same w3 w2" "r1 = r2"
    then show ?thesis
      using runMigrations_fails[of q w0 u ms r2 w3] assms(2,3) by (auto simp: same_def)
  next
    fix w0 r2 w3
    assume "same w w0" "runMigrations (Migration \<lparr>qm_target = u, qm_body = Some q\<rparr> # ms) w0 = (r2, w3)" "same w3 w2" "\<not> is_ok r1" "ends r1"
    then show ?thesis
      using runMigrations_fails[of q w0 u ms r2 w3] assms(2,3) by (auto simp: same_def)
  qed (auto simp: same_def)
  then show ?thesis
    using assms(5) up by (cases r1) (auto simp: upgrade_def ends_def split: if_splits)
qed

lemma reads_up_from:
  assumes "k < 4"
  shows "readUp 6 migrations (if k = 0 then NilVersion else int k) (- 1) =
    Ok (Migration \<lparr>qm_target = int (Suc k), qm_body = Some (up_sql k)\<rparr> # ups (Suc k))"
  using reads_up_at[of k] ups_Cons[OF assms] assms by (simp add: version_row_def split: if_splits)

lemma upgrade_stuck:
  assumes "k \<le> 4" and "at_version k (mi_schema w)" and "upgrade w = (r, w1)"
    and "0 < k \<and> mi_row w = None \<or> 1 < k \<and> mi_row w = Some (int k - 1, False)"
  shows "stuck w1 \<and> mi_schema w1 = mi_schema w \<and> \<not> is_ok r"
  using assms(4)
proof
  assume nil: "0 < k \<and> mi_row w = None"
  have "transaction (up_sql 0) (mi_schema w) = None"
    using reapplied_fails(2)[OF _ assms(1,2)] nil by simp
  from upgrade_fails[OF reads_up_from[of 0, simplified] _ this _ assms(3)] nil
  have "mi_schema w1 = mi_schema w" "mi_row w1 \<in> {None, Some (1, True)}" "\<not> is_ok r"
    by auto
  then show ?thesis
    using stuckI(1,2)[of k w1] assms(1,2) nil by auto
next
  assume before: "1 < k \<and> mi_row w = Some (int k - 1, False)"
  then have j: "k - 1 < 4" "Suc (k - 1) = k" "int (k - 1) = int k - 1" "k - 1 \<noteq> 0"
    using assms(1) by auto
  have "transaction (up_sql (k - 1)) (mi_schema w) = None"
    using reapplied_fails(1)[OF _ assms(1,2)] before by simp
  from upgrade_fails[OF reads_up_from[OF j(1)] _ this _ assms(3)] before j
  have "mi_schema w1 = mi_schema w" "mi_row w1 \<in> {Some (int k - 1, False), None, Some (int k, True)}" "\<not> is_ok r"
    by auto
  then show ?thesis
    using stuckI(2,3)[of k w1] assms(1,2) before by auto
qed

lemma migrate_stuck:
  assumes "stuck w" and "migrate_step w = (r, w1)"
  shows "stuck w1 \<and> mi_schema w1 = mi_schema w \<and> \<not> is_ok r"
proof -
  obtain rv w2 where version: "migrate_Version w = (rv, w2)"
    by fastforce
  note V = migrate_Version_states[OF version]
  then have w2: "stuck w2" "same w w2"
    using assms(1) same_states by blast+
  obtain k where k: "k \<le> 4" "at_version k (mi_schema w2)"
    and rows: "mi_row w2 = Some (1, True) \<or> 0 < k \<and> (mi_row w2 = None \<or> mi_row w2 = Some (int k, True)) \<or> 1 < k \<and> mi_row w2 = Some (int k - 1, False)"
    using w2(1) unfolding stuck_def by blast
  have row: "mi_row w = mi_row w2"
    using w2(2) by (simp add: same_def)
  show ?thesis
  proof (cases "rv = Err (Errorf ''bad connection'')")
    case True
    then show ?thesis
      using assms version w2 by (auto simp: migrate_step_eq same_def)
  next
    case False
    then have answered: "case mi_row w2 of None \<Rightarrow> rv = Ok None | Some (v, d) \<Rightarrow> 0 \<le> v \<longrightarrow> rv = Ok (Some (word_of_int v, d))"
      using V row by simp
    consider "mi_row w2 = Some (1, True)" | "0 < k" "mi_row w2 = None" | "1 < k" "mi_row w2 = Some (int k - 1, False)"
      | "1 < k" "mi_row w2 = Some (int k, True)"
      using rows by (cases "k = 1") auto
    then show ?thesis
    proof cases
      case 1
      then have "w1 = w2" "\<not> is_ok r"
        using assms(2) version answered by (auto simp: migrate_step_eq)
      then show ?thesis
        using w2 by (simp add: same_def)
    next
      case 2
      then have "upgrade w2 = (r, w1)"
        using assms(2) version answered by (simp add: migrate_step_eq)
      then show ?thesis
        using upgrade_stuck[OF k] 2 w2(2) by (simp add: same_def)
    next
      case 3
      then have "upgrade w2 = (r, w1)"
        using assms(2) version answered by (simp add: migrate_step_eq)
      then show ?thesis
        using upgrade_stuck[OF k] 3 w2(2) by (simp add: same_def)
    next
      case 4
      have "k = 2 \<or> k = 3 \<or> k = 4"
        using 4(1) k(1) by auto
      then have words: "(word_of_int (int k) :: u64) - 1 \<noteq> 0" "sint ((word_of_int (int k) :: u64) - 1) = int k - 1"
        by auto
      obtain rf w3 where force: "migrate_Force (int k - 1) w2 = (rf, w3)"
        by fastforce
      have F: "mi_schema w3 = mi_schema w2 \<and> mi_row w3 \<in> {mi_row w2, None, Some (int k - 1, False)} \<and>
          (is_ok rf \<longrightarrow> mi_row w3 = Some (int k - 1, False)) \<and> ends rf"
        using Force_states[OF force] 4(1) by simp
      show ?thesis
      proof (cases "is_ok rf")
        case True
        then have "upgrade w3 = (r, w1)"
          using assms(2) version answered 4(2) force words by (cases rf) (simp_all add: migrate_step_eq)
        then show ?thesis
          using upgrade_stuck[of k w3 r w1] F True k 4(1) w2(2) by (simp add: same_def)
      next
        case failed: False
        then have "w1 = w3" "\<not> is_ok r"
          using assms(2) version answered 4(2) force words by (cases rf; auto simp: migrate_step_eq)+
        then show ?thesis
          using F 4 k w2(2) stuckI(2,3)[of k w3] by (auto simp: same_def)
      qed
    qed
  qed
qed

section \<open>A connection that holds\<close>

definition healthy :: "migrated \<Rightarrow> bool" where
  "healthy w \<longleftrightarrow> mi_fate w = (\<lambda>_. Runs)"

lemma healthy_updates [simp]:
  "healthy (w\<lparr>mi_clock := n\<rparr>) = healthy w" "healthy (w\<lparr>mi_row := row\<rparr>) = healthy w" "healthy (w\<lparr>mi_schema := d\<rparr>) = healthy w"
  "healthy (w\<lparr>mi_locked := b\<rparr>) = healthy w"
  by (simp_all add: healthy_def)

lemma exec_healthy: "healthy w \<Longrightarrow> exec f w = (Ok (), f (w\<lparr>mi_clock := Suc (mi_clock w)\<rparr>))"
  by (simp add: healthy_def exec_runs)

lemma SetVersion_healthy:
  assumes "healthy w"
  obtains w1 where "pg_SetVersion v dirty w = (Ok (), w1)" "healthy w1" "mi_schema w1 = mi_schema w"
    "mi_row w1 = (if 0 \<le> v then Some (v, dirty) else None)" "mi_locked w1 = mi_locked w"
  using assms by (cases "0 \<le> v") (auto simp: pg_SetVersion_def bind_act_def result_act_def exec_healthy)

lemma Run_healthy:
  assumes "healthy w"
  obtains r w1 where "pg_Run q w = (r, w1)" "healthy w1" "mi_row w1 = mi_row w" "mi_locked w1 = mi_locked w"
    "case transaction q (mi_schema w) of
       Some d \<Rightarrow> r = Ok () \<and> mi_schema w1 = d
     | None \<Rightarrow> r = Err (Errorf ''migration failed'') \<and> mi_schema w1 = mi_schema w"
  using assms by (cases "transaction q (mi_schema w)") (auto simp: pg_Run_def bind_act_def result_act_def exec_healthy)

lemma under_lock_healthy:
  assumes "healthy w" and "\<not> mi_locked w" and "action (w\<lparr>mi_clock := Suc (mi_clock w), mi_locked := True\<rparr>) = (r, w2)"
    and "healthy w2" and "mi_locked w2" and "is_ok r \<or> (\<exists>e. r = Err e)"
  shows "under_lock action w = (r, w2\<lparr>mi_clock := Suc (mi_clock w2), mi_locked := False\<rparr>)"
  using assms by (cases r) (auto simp: under_lock_def pg_Lock_def bind_act_def unlockErr_def pg_Unlock_def exec_healthy)

lemma runMigrations_healthy:
  assumes "k \<le> 4" and "at_version k (mi_schema w)" and "healthy w"
  shows "\<exists>w1. runMigrations (ups k) w = (Ok (), w1) \<and> healthy w1 \<and> mi_locked w1 = mi_locked w"
  using assms
proof (induction "4 - k" arbitrary: k w)
  case 0
  then show ?case
    by (auto simp: ups_4 result_act_def)
next
  case (Suc n)
  then have k: "k < 4"
    by simp
  obtain d1 where d1: "transaction (up_sql k) (mi_schema w) = Some d1" "at_version (Suc k) d1"
    using migration_at_version[OF k Suc.prems(2)] by blast
  obtain w2 where w2: "pg_SetVersion (int (Suc k)) True w = (Ok (), w2)" "healthy w2" "mi_schema w2 = mi_schema w" "mi_locked w2 = mi_locked w"
    using SetVersion_healthy[OF Suc.prems(3)] by blast
  obtain w3 where w3: "pg_Run (up_sql k) w2 = (Ok (), w3)" "healthy w3" "mi_schema w3 = d1" "mi_locked w3 = mi_locked w2"
    using Run_healthy[OF w2(2), of "up_sql k"] d1(1) w2(3) by auto
  obtain w4 where w4: "pg_SetVersion (int (Suc k)) False w3 = (Ok (), w4)" "healthy w4" "mi_schema w4 = mi_schema w3" "mi_locked w4 = mi_locked w3"
    using SetVersion_healthy[OF w3(2)] by blast
  have "\<exists>w1. runMigrations (ups (Suc k)) w4 = (Ok (), w1) \<and> healthy w1 \<and> mi_locked w1 = mi_locked w4"
    using Suc.hyps(1)[of "Suc k" w4] Suc.hyps(2) w3(3) w4(2,3) d1(2) k by simp
  then show ?case
    using w2(1,4) w3(1,4) w4(1,4) by (simp add: ups_Cons[OF k] bind_act_def)
qed

lemma Version_healthy:
  "healthy w \<Longrightarrow> pg_Version w = (Ok (case mi_row w of None \<Rightarrow> (NilVersion, False) | Some vd \<Rightarrow> vd), w\<lparr>mi_clock := Suc (mi_clock w)\<rparr>)"
  by (simp add: pg_Version_def bind_act_def exec_healthy)

lemma migrate_Version_healthy:
  assumes "healthy w"
  shows "migrate_Version w = (case mi_row w of None \<Rightarrow> Ok None | Some (v, d) \<Rightarrow>
      if v = NilVersion then Ok None else bind_result (suint v) (\<lambda>v. Ok (Some (v, d))), w\<lparr>mi_clock := Suc (mi_clock w)\<rparr>)"
  by (simp add: migrate_Version_def bind_act_def result_act_def Version_healthy[OF assms] suint_def split: option.split)

lemma Force_healthy:
  assumes "healthy w" and "\<not> mi_locked w" and "- 1 \<le> v"
  obtains w1 where "migrate_Force v w = (Ok (), w1)" "healthy w1" "mi_schema w1 = mi_schema w"
    "mi_row w1 = (if 0 \<le> v then Some (v, False) else None)" "\<not> mi_locked w1"
proof -
  let ?w = "w\<lparr>mi_clock := Suc (mi_clock w), mi_locked := True\<rparr>"
  obtain w2 where w2: "pg_SetVersion v False ?w = (Ok (), w2)" "healthy w2" "mi_schema w2 = mi_schema ?w"
    "mi_row w2 = (if 0 \<le> v then Some (v, False) else None)" "mi_locked w2 = mi_locked ?w"
    by (rule SetVersion_healthy[of ?w v False]) (simp add: assms(1))
  have "migrate_Force v w = (Ok (), w2\<lparr>mi_clock := Suc (mi_clock w2), mi_locked := False\<rparr>)"
    using assms w2(1,2,5) by (simp add: migrate_Force_def pg_Lock_def pg_Unlock_def bind_act_def exec_healthy)
  then show ?thesis
    using w2 by (intro that[of "w2\<lparr>mi_clock := Suc (mi_clock w2), mi_locked := False\<rparr>"]) simp_all
qed

lemma upgrade_healthy:
  assumes "resumable k w" and "mi_row w = version_row k" and "healthy w" and "\<not> mi_locked w"
  shows "is_ok (fst (upgrade w))"
proof -
  have k: "k \<le> 4" "at_version k (mi_schema w)"
    using assms(1) by (simp_all add: resumable_def)
  let ?w = "w\<lparr>mi_locked := True, mi_clock := Suc (Suc (mi_clock w))\<rparr>"
  obtain r w2 where run: "runMigrations (if k = 4 then [Failure ErrNoChange] else ups k) ?w = (r, w2)" "healthy w2" "mi_locked w2"
    and r: "r = Ok () \<or> r = Err ErrNoChange"
    using runMigrations_healthy[OF k(1), of ?w] k(2) assms(3) by (cases "k = 4") (auto simp: result_act_def)
  have "(case mi_row w of None \<Rightarrow> (NilVersion, False) | Some vd \<Rightarrow> vd) = (case version_row k of None \<Rightarrow> NilVersion | Some (v, _) \<Rightarrow> v, False)"
    using assms(2) by (simp add: version_row_def)
  then have "bind_act pg_Version (\<lambda>(curVersion, dirty).
     if dirty then result_act (Err (Errorf ''Dirty database version''))
     else bind_act (result_act (readUp 6 migrations curVersion (- 1))) runMigrations) (w\<lparr>mi_clock := Suc (mi_clock w), mi_locked := True\<rparr>) = (r, w2)"
    using run(1) reads_up_at[OF k(1)] assms(2,3) by (auto simp: bind_act_def result_act_def Version_healthy version_row_def)
  then have "fst (migrate_Up 6 migrations w) = r"
    unfolding migrate_Up_def from_clean_def using under_lock_healthy[OF assms(3,4) _ run(2,3), of _ r] r by auto
  then show ?thesis
    using r by (cases "migrate_Up 6 migrations w") (auto simp: upgrade_def)
qed

lemma migrate_healthy:
  assumes "resumable k w" and "healthy w" and "\<not> mi_locked w"
  shows "is_ok (fst (migrate_step w))"
proof -
  let ?w = "w\<lparr>mi_clock := Suc (mi_clock w)\<rparr>"
  have same_w: "resumable k ?w" "healthy ?w" "\<not> mi_locked ?w"
    using assms by (simp_all add: resumable_def)
  consider "mi_row w = version_row k" | "0 < k" "k < 4" "mi_row w = Some (int (Suc k), True)"
    using assms(1) by (auto simp: resumable_def)
  then show ?thesis
  proof cases
    case 1
    then have "fst (migrate_step w) = fst (upgrade ?w)"
      using migrate_Version_healthy[OF assms(2)] by (simp add: migrate_step_eq version_row_def suint_def)
    then show ?thesis
      using upgrade_healthy[OF same_w(1)] same_w(2,3) 1 by simp
  next
    case 2
    have "k = 1 \<or> k = 2 \<or> k = 3"
      using 2 by auto
    then have words: "(word_of_int (int (Suc k)) :: u64) - 1 \<noteq> 0" "sint ((word_of_int (int (Suc k)) :: u64) - 1) = int k"
      by auto
    obtain w2 where w2: "migrate_Force (int k) ?w = (Ok (), w2)" "healthy w2" "mi_schema w2 = mi_schema ?w"
      "mi_row w2 = (if 0 \<le> int k then Some (int k, False) else None)" "\<not> mi_locked w2"
      by (rule Force_healthy[OF same_w(2,3), of "int k"]) simp_all
    have "fst (migrate_step w) = fst (upgrade w2)"
      using w2(1) migrate_Version_healthy[OF assms(2)] 2 words by (simp add: migrate_step_eq suint_def)
    moreover have "resumable k w2" "mi_row w2 = version_row k"
      using assms(1) w2(3,4) 2 by (simp_all add: resumable_def version_row_def)
    ultimately show ?thesis
      using upgrade_healthy[of k w2] w2(2,5) by simp
  qed
qed

section \<open>Runs\<close>

definition fated :: "(nat \<Rightarrow> fate) \<Rightarrow> migrated \<Rightarrow> migrated" where
  "fated fate w = w\<lparr>mi_locked := False, mi_clock := 0, mi_fate := fate\<rparr>"

text \<open>One run of the command after the other, each a process of its own on a connection with its own fate.\<close>

fun migrate_runs :: "(nat \<Rightarrow> fate) list \<Rightarrow> migrated \<Rightarrow> migrated" where
  "migrate_runs [] w = w"
| "migrate_runs (fate # fates) w = migrate_runs fates (snd (migrate_step (fated fate w)))"

lemma fated_states [simp]: "resumable k (fated fate w) = resumable k w" "stuck (fated fate w) = stuck w"
  by (simp_all add: fated_def resumable_def stuck_def)

lemma fated_schema [simp]: "mi_schema (fated fate w) = mi_schema w"
  by (simp add: fated_def)

lemma stuck_stays: "stuck w \<Longrightarrow> stuck (migrate_runs fates w) \<and> mi_schema (migrate_runs fates w) = mi_schema w"
proof (induction fates arbitrary: w)
  case (Cons fate fates)
  then show ?case
    using migrate_stuck[of "fated fate w" "fst (migrate_step (fated fate w))" "snd (migrate_step (fated fate w))"] by simp
qed simp

lemma migrate_runs_states: "resumable k w \<Longrightarrow> (\<exists>j \<ge> k. resumable j (migrate_runs fates w)) \<or> stuck (migrate_runs fates w)"
proof (induction fates arbitrary: k w)
  case (Cons fate fates)
  obtain r w1 where step: "migrate_step (fated fate w) = (r, w1)"
    by fastforce
  have "resumable k (fated fate w)"
    using Cons.prems by simp
  from migrate_resumable[OF this step] consider j where "k \<le> j" "resumable j w1" | "stuck w1"
    by blast
  then show ?case
  proof cases
    case 1
    then show ?thesis
      using Cons.IH[OF 1(2)] step by (auto intro: order_trans)
  qed (use stuck_stays step in simp)
qed auto

lemma resumes:
  assumes "resumable k w"
  shows "case migrate_step (fated (\<lambda>_. Runs) w) of (r, w2) \<Rightarrow>
    is_ok r \<and> mi_row w2 = Some (4, False) \<and> at_version 4 (mi_schema w2)"
proof -
  obtain r w2 where step: "migrate_step (fated (\<lambda>_. Runs) w) = (r, w2)"
    by fastforce
  have "resumable k (fated (\<lambda>_. Runs) w)" "healthy (fated (\<lambda>_. Runs) w)" "\<not> mi_locked (fated (\<lambda>_. Runs) w)"
    using assms by (simp_all add: fated_def healthy_def resumable_def)
  then have "is_ok r" "resumable 4 w2" "mi_row w2 = version_row 4"
    using migrate_healthy[of k "fated (\<lambda>_. Runs) w"] migrate_resumable[OF _ step, of k] step by auto
  then show ?thesis
    using step by (simp add: resumable_def version_row_def)
qed

text \<open>C33. A run of \<open>migrate\<close> on a connection that holds succeeds, from a clean version and from one that is
  marked whose transaction has had no effect: the database is then clean at the last version, with its schema. When
  runs before it were cut off, at any statement of the library's, before it took effect or after, any number of
  times, then either the same holds of the database they leave, at no version before the first, or that is in one of
  the states \<open>stuck\<close> describes: the first version is marked, the row of the version is gone, or the
  transaction has run and its version is not clean. From there no further run succeeds or changes the schema.\<close>

theorem interrupted_migration_resumes:
  assumes "resumable k w" and "w1 = migrate_runs fates w"
  shows "(case migrate_step (fated (\<lambda>_. Runs) w) of (r, w2) \<Rightarrow>
        is_ok r \<and> mi_row w2 = Some (4, False) \<and> at_version 4 (mi_schema w2)) \<and>
    ((\<exists>j \<ge> k. resumable j w1 \<and> (case migrate_step (fated (\<lambda>_. Runs) w1) of (r, w2) \<Rightarrow>
        is_ok r \<and> mi_row w2 = Some (4, False) \<and> at_version 4 (mi_schema w2))) \<or>
     stuck w1 \<and> (\<forall>more. mi_schema (migrate_runs more w1) = mi_schema w1 \<and>
        (\<forall>fate. \<not> is_ok (fst (migrate_step (fated fate (migrate_runs more w1)))))))"
proof -
  consider j where "k \<le> j" "resumable j w1" | "stuck w1"
    using migrate_runs_states[OF assms(1), of fates] assms(2) by blast
  then show ?thesis
  proof cases
    case 1
    show ?thesis
      by (intro conjI[OF resumes[OF assms(1)]] disjI1 exI[of _ j] conjI 1 resumes[OF 1(2)])
  next
    case 2
    have "\<not> is_ok (fst (migrate_step (fated fate (migrate_runs more w1))))" for fate more
      using migrate_stuck[of "fated fate (migrate_runs more w1)"] stuck_stays[OF 2, of more] by (metis fated_states(2) prod.collapse)
    then show ?thesis
      by (intro conjI[OF resumes[OF assms(1)]] disjI2 conjI 2 allI) (simp_all add: stuck_stays[OF 2])
  qed
qed

definition empty_database :: migrated where
  "empty_database = \<lparr>mi_row = None, mi_schema = empty_schema, mi_locked = False, mi_clock = 0, mi_fate = (\<lambda>_. Runs)\<rparr>"

lemma at_schema: "schema_at k = Some d \<Longrightarrow> at_version k d" if "\<And>t. t \<in> set (sc_tables (the (schema_at k))) \<Longrightarrow> tb_rows t = []"
proof -
  assume "schema_at k = Some d"
  moreover from this that have "d = filled (\<lambda>_. []) d"
    by (cases d) (auto simp: filled_def intro!: map_idI[symmetric])
  moreover have "rows_ok (\<lambda>_. []) d"
    by (simp add: rows_ok_def)
  ultimately show "at_version k d"
    by (auto simp: at_version_def)
qed

lemma empty_resumable: "resumable 0 empty_database"
proof -
  have "schema_at 0 = Some empty_schema"
    by code_simp
  then have "at_version 0 empty_schema"
    by (rule at_schema[rotated]) (simp add: version_0 empty_schema_def)
  then show ?thesis
    by (simp add: resumable_def empty_database_def version_row_def)
qed

text \<open>A run on the empty database that is cut off in the second migration, before its transaction, and then one on a
  connection that holds.\<close>

lemma cut_in_second:
  "mi_row (migrate_runs [\<lambda>n. if n < 16 then Runs else Fails] empty_database) = Some (2, True)"
  "Some (mi_schema (migrate_runs [\<lambda>n. if n < 16 then Runs else Fails] empty_database)) = schema_at 1"
  by code_simp+

lemma cut_in_second_goes_on:
  "is_ok (fst (migrate_step (fated (\<lambda>_. Runs) (migrate_runs [\<lambda>n. if n < 16 then Runs else Fails] empty_database))))"
  by code_simp

lemma interrupted_migration_resumes_witness:
  "\<exists>j. resumable j (migrate_runs [\<lambda>n. if n < 16 then Runs else Fails] empty_database) \<and>
    at_version 4 (mi_schema (snd (migrate_step (fated (\<lambda>_. Runs) (migrate_runs [\<lambda>n. if n < 16 then Runs else Fails] empty_database)))))"
proof -
  let ?w = "migrate_runs [\<lambda>n. if n < 16 then Runs else Fails] empty_database"
  have "\<not> (\<forall>more. mi_schema (migrate_runs more ?w) = mi_schema ?w \<and> (\<forall>fate. \<not> is_ok (fst (migrate_step (fated fate (migrate_runs more ?w))))))"
    using cut_in_second_goes_on migrate_runs.simps(1)[of ?w] by metis
  then show ?thesis
    using interrupted_migration_resumes[OF empty_resumable refl, of "[\<lambda>n. if n < 16 then Runs else Fails]"]
    by (simp only: simp_thms) (auto split: prod.splits simp del: migrate_runs.simps)
qed

text \<open>All the ways not to go on happen: the first migration, the row removed, the transaction run and not marked.\<close>

lemma cut_off_for_good:
  "(let w = migrate_runs [\<lambda>n. if n < 7 then Runs else Fails] empty_database in (mi_row w, Some (mi_schema w))) = (Some (1, True), schema_at 0)"
  "(let w = migrate_runs [\<lambda>n. if n < 14 then Runs else Fails] empty_database in (mi_row w, Some (mi_schema w))) = (None, schema_at 1)"
  "(let w = migrate_runs [\<lambda>n. if n < 16 then Runs else Unheard] empty_database in (mi_row w, Some (mi_schema w))) = (Some (2, True), schema_at 2)"
  by code_simp+

section \<open>The rollback command\<close>

abbreviation rollback_step :: "(unit, migrated) act" where
  "rollback_step \<equiv> rollback_command (code_library migrations)"

lemma reads_down:
  "readDown 6 migrations 1 1 = Ok [Migration \<lparr>qm_target = NilVersion, qm_body = Some (down_sql 0)\<rparr>]"
  "readDown 6 migrations 2 1 = Ok [Migration \<lparr>qm_target = 1, qm_body = Some (down_sql 1)\<rparr>]"
  "readDown 6 migrations 3 1 = Ok [Migration \<lparr>qm_target = 2, qm_body = Some (down_sql 2)\<rparr>]"
  "readDown 6 migrations 4 1 = Ok [Migration \<lparr>qm_target = 3, qm_body = Some (down_sql 3)\<rparr>]"
  "readDown 6 migrations NilVersion 1 = Ok [Failure ErrNotExist]"
  by code_simp+

lemma reads_down_at:
  assumes "k < 4"
  shows "readDown 6 migrations (int (Suc k)) 1 =
    Ok [Migration \<lparr>qm_target = (if k = 0 then NilVersion else int k), qm_body = Some (down_sql k)\<rparr>]"
  using less_four[OF assms] reads_down by auto

text \<open>What the rollback leaves, on a connection that holds. From a clean version it goes to the one before, if the
  SQL runs. On the empty database it fails, but leaves a row of version zero, which no run of \<open>migrate\<close> starts
  from. On a marked version it fails and clears the mark, whatever the transaction had done.\<close>

lemma Steps_healthy:
  assumes "healthy w" and "\<not> mi_locked w" and "readDown 6 migrations v 1 = Ok ms" and "mi_row w = None \<and> v = NilVersion \<or> mi_row w = Some (v, False)"
    and "runMigrations ms (w\<lparr>mi_locked := True, mi_clock := Suc (Suc (mi_clock w))\<rparr>) = (r, w2)" and "healthy w2" and "mi_locked w2" and "is_ok r \<or> (\<exists>e. r = Err e)"
  shows "migrate_Steps 6 migrations (- 1) w = (r, w2\<lparr>mi_clock := Suc (mi_clock w2), mi_locked := False\<rparr>)"
proof -
  have "bind_act pg_Version (\<lambda>(curVersion, dirty).
     if dirty then result_act (Err (Errorf ''Dirty database version''))
     else bind_act (result_act (if - 1 > (0 :: int) then readUp 6 migrations curVersion (- 1) else readDown 6 migrations curVersion (- (- 1)))) runMigrations)
     (w\<lparr>mi_clock := Suc (mi_clock w), mi_locked := True\<rparr>) = (r, w2)"
    using assms by (auto simp: bind_act_def result_act_def Version_healthy)
  then show ?thesis
    unfolding migrate_Steps_def from_clean_def using under_lock_healthy[OF assms(1,2) _ assms(6,7), of _ r] assms(8) by simp
qed

theorem rollback_outcomes:
  assumes "healthy w" and "\<not> mi_locked w"
  shows "k < 4 \<Longrightarrow> mi_row w = Some (int (Suc k), False) \<Longrightarrow> transaction (down_sql k) (mi_schema w) = Some d \<Longrightarrow>
      (case rollback_step w of (r, w1) \<Rightarrow> r = Ok () \<and> mi_schema w1 = d \<and> mi_row w1 = version_row k)"
    and "mi_row w = None \<Longrightarrow> (case rollback_step w of (r, w1) \<Rightarrow>
      \<not> is_ok r \<and> mi_schema w1 = mi_schema w \<and> mi_row w1 = Some (0, False))"
proof -
  let ?w = "w\<lparr>mi_clock := Suc (mi_clock w)\<rparr>"
  let ?w3 = "w\<lparr>mi_locked := True, mi_clock := Suc (Suc (Suc (mi_clock w)))\<rparr>"
  assume k: "k < 4" and row: "mi_row w = Some (int (Suc k), False)"
    and run: "transaction (down_sql k) (mi_schema w) = Some d"
  let ?t = "if k = 0 then NilVersion else int k"
  obtain w4 where w4: "pg_SetVersion ?t True ?w3 = (Ok (), w4)" "healthy w4" "mi_schema w4 = mi_schema ?w3"
    "mi_row w4 = (if 0 \<le> ?t then Some (?t, True) else None)" "mi_locked w4 = mi_locked ?w3"
    by (rule SetVersion_healthy[of ?w3 ?t True]) (simp add: assms(1))
  obtain r5 w5 where w5: "pg_Run (down_sql k) w4 = (r5, w5)" "healthy w5" "mi_row w5 = mi_row w4" "mi_locked w5 = mi_locked w4"
    "case transaction (down_sql k) (mi_schema ?w3) of
       Some d \<Rightarrow> r5 = Ok () \<and> mi_schema w5 = d
     | None \<Rightarrow> r5 = Err (Errorf ''migration failed'') \<and> mi_schema w5 = mi_schema ?w3"
    by (rule Run_healthy[OF w4(2), of "down_sql k", unfolded w4(3)])
  have words: "sint (word_of_int (int (Suc k)) :: u64) = int (Suc k)"
    using less_four[OF k] by auto
  note version = migrate_Version_healthy[OF assms(1), unfolded row]
  have r5: "r5 = Ok ()" "mi_schema w5 = d"
    using w5(5) run by simp_all
  obtain w6 where w6: "pg_SetVersion ?t False w5 = (Ok (), w6)" "healthy w6" "mi_schema w6 = d"
    "mi_row w6 = (if 0 \<le> ?t then Some (?t, False) else None)" "mi_locked w6 = mi_locked w5"
    by (rule SetVersion_healthy[OF w5(2), of ?t False, unfolded r5(2)])
  have row6: "mi_row w6 = version_row k"
    using w6(4) by (cases k) (simp_all add: version_row_def)
  have "runMigrations [Migration \<lparr>qm_target = ?t, qm_body = Some (down_sql k)\<rparr>] ?w3 = (Ok (), w6)"
    using w4(1) w5(1) w6(1) r5(1) by (simp add: bind_act_def result_act_def)
  then have "migrate_Steps 6 migrations (- 1) ?w = (Ok (), w6\<lparr>mi_clock := Suc (mi_clock w6), mi_locked := False\<rparr>)"
    using Steps_healthy[of ?w, OF _ _ reads_down_at[OF k]] assms row w4(5) w5(4) w6(2,5) by simp
  then show "case rollback_step w of (r, w1) \<Rightarrow> r = Ok () \<and> mi_schema w1 = d \<and> mi_row w1 = version_row k"
    using version w6(3) row6 by (simp add: rollback_command_def bind_act_def wrap_act_def suint_def Let_def)
next
  let ?w = "w\<lparr>mi_clock := Suc (mi_clock w)\<rparr>"
  let ?w3 = "w\<lparr>mi_locked := True, mi_clock := Suc (Suc (Suc (mi_clock w)))\<rparr>"
  assume row: "mi_row w = None"
  have "runMigrations [Failure ErrNotExist] ?w3 = (Err ErrNotExist, ?w3)"
    by (simp add: result_act_def)
  then have steps: "migrate_Steps 6 migrations (- 1) ?w = (Err ErrNotExist, ?w3\<lparr>mi_clock := Suc (mi_clock ?w3), mi_locked := False\<rparr>)"
    using Steps_healthy[of ?w, OF _ _ reads_down(5)] assms row by simp
  obtain w6 where "migrate_Force 0 (?w3\<lparr>mi_clock := Suc (mi_clock ?w3), mi_locked := False\<rparr>) = (Ok (), w6)" "mi_schema w6 = mi_schema w"
    "mi_row w6 = Some (0, False)"
    using Force_healthy[of "?w3\<lparr>mi_clock := Suc (mi_clock ?w3), mi_locked := False\<rparr>" 0] assms by auto
  then show "case rollback_step w of (r, w1) \<Rightarrow> \<not> is_ok r \<and> mi_schema w1 = mi_schema w \<and> mi_row w1 = Some (0, False)"
    using migrate_Version_healthy[OF assms(1)] steps row by (simp add: rollback_command_def bind_act_def wrap_act_def Let_def)
qed

lemma rollback_clears_mark:
  assumes "healthy w" and "\<not> mi_locked w" and "k \<le> 4" and "mi_row w = Some (int k, True)"
  shows "case rollback_step w of (r, w1) \<Rightarrow> \<not> is_ok r \<and> mi_schema w1 = mi_schema w \<and> mi_row w1 = Some (int k, False)"
proof -
  let ?w = "w\<lparr>mi_clock := Suc (mi_clock w)\<rparr>"
  let ?e = "Errorf ''Dirty database version''"
  obtain w2 where steps: "migrate_Steps 6 migrations (- 1) ?w = (Err ?e, w2)"
    and w2: "healthy w2" "\<not> mi_locked w2" "mi_schema w2 = mi_schema w"
    using assms by (simp add: migrate_Steps_def from_clean_def under_lock_def pg_Lock_def pg_Unlock_def unlockErr_def bind_act_def
        result_act_def exec_healthy Version_healthy)
  obtain w3 where force: "migrate_Force (int k) w2 = (Ok (), w3)" "healthy w3" "mi_schema w3 = mi_schema w2"
    "mi_row w3 = (if 0 \<le> int k then Some (int k, False) else None)" "\<not> mi_locked w3"
    by (rule Force_healthy[OF w2(1,2), of "int k"]) simp_all
  have "k = 0 \<or> k = 1 \<or> k = 2 \<or> k = 3 \<or> k = 4"
    using assms(3) by auto
  then have "sint (word_of_int (int k) :: u64) = int k"
    by auto
  then show ?thesis
    using migrate_Version_healthy[OF assms(1)] assms(4) steps force(1,3,4) w2(3)
    by (simp add: rollback_command_def bind_act_def wrap_act_def suint_def Let_def)
qed

text \<open>From the row of version zero no run of \<open>migrate\<close> succeeds: the version does not exist.\<close>

lemma version_zero_fails:
  assumes "mi_row w = Some (0, False)" and "migrate_step w = (r, w1)"
  shows "\<not> is_ok r \<and> same w w1"
proof -
  have zero: "readUp 6 migrations 0 (- 1) = Ok [Failure ErrNotExist]"
    by code_simp
  obtain rv w2 where version: "migrate_Version w = (rv, w2)"
    by fastforce
  note V = migrate_Version_states[OF version]
  have fails: "\<not> is_ok r1 \<and> same w2 w3" if "upgrade w2 = (r1, w3)" for r1 w3
  proof -
    obtain r4 w4 where up: "migrate_Up 6 migrations w2 = (r4, w4)"
      by fastforce
    have "\<not> is_ok r4 \<and> ends r4 \<and> same w2 w4"
      using Up_states[OF up zero] V assms(1) by (auto simp: same_def result_act_def)
    then show ?thesis
      using that up by (cases r4) (auto simp: upgrade_def ends_def split: if_splits)
  qed
  show ?thesis
  proof (cases "rv = Err (Errorf ''bad connection'')")
    case True
    then show ?thesis
      using assms(2) version V by (auto simp: migrate_step_eq)
  next
    case False
    then have "upgrade w2 = (r, w1)"
      using V assms version by (simp add: migrate_step_eq)
    then show ?thesis
      using fails V by (auto simp: same_def)
  qed
qed

end
