(* ===== verification/Spec2Isabelle.thy ===== *)
theory Spec2Isabelle
  imports Candlestick_Specs Indicator_Specs Genome_Specs Trading_Specs Backtesting_Specs Optimization_Specs
    Backend_Specs Bot_Specs Exchange_Specs Importer_Specs Migration_Specs
    Results_CSV_Specs Command_Specs Import_Worker_Specs Trades_To_Ticks Message_Channel_Specs Model_Row_Specs
    Notification_Specs Deployment_Specs Program_Specs Migration_Library_Specs
begin

text \<open>
  Vespyr, a trading bot in Go (\<open>src/pkg/vespyr\<close>).

  \<^bold>\<open>The program.\<close> Exchanges deliver trades or one-minute candlesticks. Importers store the
  candlesticks in a database, from where they are reprojected to the tick of a strategy.
  Indicators turn a sequence of candlesticks into numbers, strategies turn the numbers into
  the decision to buy or to sell, and the trading engine carries the decision out on the
  exchange and in the database. A backtester runs the same engine against a mock exchange
  over past candlesticks, and a genetic search varies the parameters of a strategy and scores
  them with the backtester.

  \<^bold>\<open>The theories.\<close>
  \<^item> \<open>Go_Prelude\<close>: errors with \<open>errors.Cause\<close>, outcomes of calls (value, error, panic, no return),
    64-bit integers, decimal rendering.
  \<^item> \<open>Float64\<close>: \<open>float64\<close> as IEEE binary64 over the rationals, round to nearest even, signed
    zeros, infinities and NaN; conversion from and to integers as on amd64.
  \<^item> \<open>Go_Time\<close>: instants in nanoseconds, saturating differences, wrapping products.
  \<^item> \<open>Market\<close>: \<open>exchange.go\<close> and \<open>CandlestickModel\<close> of \<open>models.go\<close>.
  \<^item> \<open>Candlesticks\<close>, \<open>Candlestick_Specs\<close>: \<open>candlesticks.go\<close> - buckets, builder, validation, reprojection.
  \<^item> \<open>Indicators\<close>, \<open>Indicator_Specs\<close>: \<open>ema.go\<close>, \<open>rsi.go\<close>, \<open>macd.go\<close>.
  \<^item> \<open>Strategies\<close>: \<open>ema_crossover_strategy.go\<close>, \<open>rsi_strategy.go\<close>, \<open>s1_strategy.go\<close>; the contract
    \<open>trading_rule\<close> (and \<open>causal_rule\<close>: decisions look back only), interpreted by each strategy
    and by their sum.
  \<^item> \<open>Genome\<close>, \<open>Genome_Specs\<close>: the strategies as genomes of the search; the contract \<open>genome_law\<close>.
  \<^item> \<open>Trading\<close>, \<open>Trading_Specs\<close>: \<open>strategy.go\<close>, \<open>order_strategies.go\<close>, the models of \<open>models.go\<close>, \<open>math.go\<close>.
  \<^item> \<open>Backtesting\<close>, \<open>Backtesting_Specs\<close>: \<open>backtesting.go\<close>: the run sees no price ahead of its time, and the
    live engine seeds the same indicator sets.
  \<^item> \<open>Optimization\<close>, \<open>Optimization_Specs\<close>: \<open>optimization.go\<close> - genomes scored by a backtest.
  \<^item> \<open>Backend\<close>, \<open>Backend_Specs\<close>: \<open>backend.go\<close>, \<open>cacheing_backend.go\<close> - tables as lists of rows, refining a map;
    the contract \<open>candle_store\<close>, interpreted by the table of candlesticks and used by the importers.
  \<^item> \<open>Bot\<close>, \<open>Bot_Specs\<close>: \<open>bot.go\<close> - polls, ticks, schedules; the contract \<open>sound_services\<close> of what a bot needs of
    database and exchange, interpreted by the database and by the mock services of the backtester; the relation
    \<open>deployed\<close> of the states a deployment goes through.
  \<^item> \<open>Exchanges\<close>, \<open>Exchange_Specs\<close>: \<open>gdax.go\<close>, \<open>kraken.go\<close> - candlestick requests, orders with polling, mock orders, the
    stream of Kraken, over clients that are parameters.
  \<^item> \<open>Importers\<close>, \<open>Importer_Specs\<close>: \<open>realtime_importer.go\<close>, \<open>historical_importer.go\<close> - in sequence, and the reader and
    the flusher as the step relation \<open>race_step\<close> with its invariant \<open>race_inv\<close>.
  \<^item> \<open>Import_Workers\<close>, \<open>Import_Worker_Specs\<close>: \<open>historical_importer.go\<close> with any number of workers, as the step relation
    \<open>import_step\<close>: it ends by a measure, and stores what one worker stores.
  \<^item> \<open>Message_Channel\<close>, \<open>Message_Channel_Specs\<close>: the goroutine between the websocket and the channel of \<open>gdax.go\<close>, and the
    loop of the realtime importer over the channels it opens.
  \<^item> \<open>Trades_To_Ticks\<close>: importer, database and reprojection composed - from the trades to the tick of a strategy.
  \<^item> \<open>Model_Rows\<close>, \<open>Model_Row_Specs\<close>: the models of \<open>models.go\<close> as rows of the vendored \<open>go-pg\<close>, typed against the schema
    that \<open>Migration_Specs\<close> computes: which statements are accepted, and that rows read back.
  \<^item> \<open>Notifications\<close>, \<open>Notification_Specs\<close>: \<open>slack_notifier.go\<close> and the messages of engine, bot and strategies; the
    relation \<open>observes\<close> of a tick, a poll and a run of the bot that post to those that do not.
  \<^item> \<open>Deployment\<close>, \<open>Deployment_Specs\<close>: the exchanges behind the interface of \<open>exchange.go\<close>, \<open>Start\<close> of the realtime
    importer, and the flags of the commands with their defaults: what is backtested is what is created, and nothing
    that is started calls an operation its exchange lacks.
  \<^item> \<open>Configuration\<close>, \<open>Program\<close>, \<open>Program_Specs\<close>: \<open>init\<close>, \<open>initConfig\<close> and \<open>GetRunner\<close> of \<open>cli.go\<close> over the lookup of the
    vendored \<open>viper\<close>, and \<open>main.go\<close> over the commands of \<open>Deployment\<close>: which settings win, when orders are real, and that
    refused runs do nothing.
  \<^item> \<open>Migrations\<close>, \<open>Migration_Specs\<close>: \<open>migrations.go\<close> - the driver, interpreted in the contract \<open>source_driver\<close> that the
    migration library relies on, and the SQL, run on schemas with their tables and rows as PostgreSQL documents it. A database \<open>at_version\<close>
    \<open>k\<close> has the schema of that version and any rows that fit it; migrations and rollbacks lead from one to the next.
  \<^item> \<open>Migration_Library\<close>, \<open>Migration_Library_Specs\<close>: what \<open>migrate\<close> and \<open>rollback\<close> call of the vendored \<open>mattes/migrate\<close> and
    its PostgreSQL driver, statement by statement, over the fate of each; the states \<open>resumable\<close> and \<open>stuck\<close> of an
    interrupted migration, kept by every run of the command.
  \<^item> \<open>Results_CSV\<close>, \<open>Results_CSV_Specs\<close>: \<open>resultsCSV\<close> of \<open>backtesting.go\<close>, with the quoting of \<open>encoding/csv\<close> and the verb
    \<open>%f\<close>, against readers of the format.
  \<^item> \<open>Commands\<close>, \<open>Command_Specs\<close>: \<open>cli.go\<close> - which exchange each part gets, and the commands that create strategies,
    backtest, optimise, import, migrate and roll back, as functions of the values of their flags. What they store is
    the state \<open>Bot_Specs\<close> starts from.

  \<^bold>\<open>Choices.\<close> A call that changes state returns its outcome and the new state; the outside world
  (exchange, database, clock) is a record of operations on a world of any type, so a property
  holds for whatever they answer. Go's \<open>float64\<close> operations are single binary64 operations
  without fused multiply-add; \<open>math.Pow(x, .5)\<close> is the correctly rounded square root and
  \<open>math.Pow(10, 8)\<close> exact. Times carry no location; weekdays are those of UTC. Loops recurse on their list
  or on the tries left; \<open>bucket_loop\<close>, which need not end, is partial; \<open>batches\<close> ends by a measure. An endless loop (the
  polls of a bot, the rounds of a stream, the events of an importer) is followed for any number of rounds, which the
  theorems quantify over. A statement to the database either runs or fails without effect; what failed is an argument. Only the statements of the
  migration library may also run and fail, when their answer is lost. Its loops have as many rounds as there are migrations
  and two more, which is one more than a walk through all of them takes.

  \<^bold>\<open>Not modelled.\<close> The parsers of command lines, configuration files and database addresses, the clients and their
  connections, the file system, the program that draws graphs and the schedule of goroutines in \<open>realtime-import\<close> and
  \<open>bot\<close> are parameters of \<open>Program\<close>, being third-party packages or the operating system; not modelled are the help texts,
  what is printed and logged beside the results, the memory model of unsynchronised accesses, the encoding of texts and
  how PostgreSQL prints numbers and times. The channel of GDAX is a parameter of \<open>Deployment\<close>; what its goroutine does is
  in \<open>Message_Channel\<close>. The migration library starts with its table of versions in place, one migrator writes at a time, and
  nobody asks it to stop. Of the vendored packages there are only the few functions the program
  computes with, the rows that \<open>go-pg\<close> makes of the models, the lookup of \<open>viper\<close> for the keys the program uses and the calls of
  \<open>mattes/migrate\<close> that its commands make.
\<close>

end
